(* ===== verification/Prelude.thy ===== *)
theory Prelude
  imports Main "HOL-Library.Sublist" "HOL-Library.Multiset" "HOL-Library.List_Lexorder"
begin

text \<open>
  Shared vocabulary of the development: the exceptions the Python code raises, results as
  sums (\<open>Inl\<close> an exception, \<open>Inr\<close> a value), Python's \<open>min\<close> with a key, a list
  updated at many positions, and the generic list lemmas the components use.
\<close>

named_theorems py_simps \<open>unfolding rules for small Python helpers\<close>
named_theorems shape_simps \<open>which fields an operation leaves unchanged\<close>
named_theorems gate_dests \<open>what a passed validation gate implies\<close>

section \<open>Exceptions and results\<close>

datatype py_exc = ValueError | KeyError | OverflowError | ValidationError | HTTPError | IntegrityError | OSError | IndexError | TypeError

type_synonym 'a result = "py_exc + 'a"

definition bind_result :: "'a result \<Rightarrow> ('a \<Rightarrow> 'b result) \<Rightarrow> 'b result" where
  "bind_result m f = (case m of Inl e \<Rightarrow> Inl e | Inr x \<Rightarrow> f x)"

lemma bind_result_simps [simp]:
  "bind_result (Inl e) f = Inl e"
  "bind_result (Inr x) f = f x"
  by (simp_all add: bind_result_def)

lemma bind_result_eq_Inr:
  "bind_result m f = Inr y \<longleftrightarrow> (\<exists>x. m = Inr x \<and> f x = Inr y)"
  by (cases m) auto

lemma bind_result_eq_Inl:
  "bind_result m f = Inl e \<longleftrightarrow> m = Inl e \<or> (\<exists>x. m = Inr x \<and> f x = Inl e)"
  by (cases m) auto

lemma bind_result_cong [fundef_cong]:
  "m = m' \<Longrightarrow> (\<And>x. m' = Inr x \<Longrightarrow> f x = f' x) \<Longrightarrow> bind_result m f = bind_result m' f'"
  by (cases m') auto

fun map_result :: "('a \<Rightarrow> 'b result) \<Rightarrow> 'a list \<Rightarrow> 'b list result" where
  "map_result f [] = Inr []"
| "map_result f (x # xs) =
     bind_result (f x) (\<lambda>y. bind_result (map_result f xs) (\<lambda>ys. Inr (y # ys)))"

lemma map_result_Inr:
  "map_result f xs = Inr ys \<longleftrightarrow> list_all2 (\<lambda>x y. f x = Inr y) xs ys"
  by (induction xs arbitrary: ys) (auto simp: bind_result_eq_Inr list_all2_Cons1)

section \<open>Python's \<open>min(xs, key = ...)\<close>\<close>

text \<open>
  \<open>min\<close> keeps the first element that no later one is strictly below: it scans once and
  replaces the candidate only when the next element compares strictly less.
\<close>

fun min_scan :: "('a \<Rightarrow> 'a \<Rightarrow> bool) \<Rightarrow> 'a \<Rightarrow> 'a list \<Rightarrow> 'a" where
  "min_scan lt b [] = b"
| "min_scan lt b (x # xs) = min_scan lt (if lt x b then x else b) xs"

definition py_min :: "('a \<Rightarrow> 'a \<Rightarrow> bool) \<Rightarrow> 'a list \<Rightarrow> 'a" where
  "py_min lt xs = min_scan lt (hd xs) (tl xs)"

lemma min_scan_in: "min_scan lt b xs \<in> insert b (set xs)"
  by (induction xs arbitrary: b) fastforce+

lemma py_min_in: "xs \<noteq> [] \<Longrightarrow> py_min lt xs \<in> set xs"
  using min_scan_in [of lt "hd xs" "tl xs"] by (cases xs) (auto simp: py_min_def)

lemma py_min_singleton [simp]: "py_min lt [x] = x"
  by (simp add: py_min_def)

text \<open>On a strict weak order the result is minimal.\<close>

lemma min_scan_least:
  assumes irrefl: "\<And>x. x \<in> A \<Longrightarrow> \<not> lt x x"
    and asym: "\<And>x y. x \<in> A \<Longrightarrow> y \<in> A \<Longrightarrow> lt x y \<Longrightarrow> \<not> lt y x"
    and ntrans: "\<And>x y z. x \<in> A \<Longrightarrow> y \<in> A \<Longrightarrow> z \<in> A \<Longrightarrow> \<not> lt x y \<Longrightarrow> \<not> lt y z \<Longrightarrow> \<not> lt x z"
    and "b \<in> A" "set xs \<subseteq> A" "y \<in> insert b (set xs)"
  shows "\<not> lt y (min_scan lt b xs)"
  using assms(4-6)
proof (induction xs arbitrary: b y)
  case Nil
  then show ?case using irrefl by simp
next
  case (Cons x xs)
  let ?b = "if lt x b then x else b"
  have bA: "?b \<in> A" and sub: "set xs \<subseteq> A" using Cons.prems by auto
  have least: "\<And>z. z \<in> insert ?b (set xs) \<Longrightarrow> \<not> lt z (min_scan lt ?b xs)"
    using Cons.IH [OF bA sub] by blast
  have m: "min_scan lt ?b xs \<in> A" using min_scan_in [of lt ?b xs] bA sub by auto
  consider "y = ?b" | "y \<in> set xs" | "y = b" "lt x b" | "y = x" "\<not> lt x b"
    using Cons.prems by (cases "lt x b") auto
  then have "\<not> lt y (min_scan lt ?b xs)"
  proof cases
    case 3
    then have "\<not> lt b x" using asym [of x b] Cons.prems by simp
    moreover have "\<not> lt x (min_scan lt ?b xs)" using least [of x] 3 by simp
    ultimately show ?thesis using 3 ntrans [of b x "min_scan lt ?b xs"] Cons.prems m by simp
  next
    case 4
    moreover have "\<not> lt b (min_scan lt ?b xs)" using least [of b] 4 by simp
    ultimately show ?thesis using ntrans [of x b "min_scan lt ?b xs"] Cons.prems m by simp
  next
    case 1
    then show ?thesis by (intro least) simp
  next
    case 2
    then show ?thesis by (intro least) simp
  qed
  then show ?case by simp
qed

section \<open>Positions of a list\<close>

definition nths_in :: "'a list \<Rightarrow> nat set \<Rightarrow> 'a list" where
  "nths_in xs P = map (\<lambda>i. xs ! i) (filter (\<lambda>i. i \<in> P) [0..<length xs])"

lemma set_nths_in: "set (nths_in xs P) = {xs ! i | i. i < length xs \<and> i \<in> P}"
  by (auto simp: nths_in_def)

lemma nths_in_eq_nths: "nths_in xs P = nths xs P"
proof -
  have zip: "zip xs [0..<length xs] = map (\<lambda>i. (xs ! i, i)) [0..<length xs]"
    by (rule nth_equalityI) auto
  show ?thesis
    by (simp add: nths_in_def nths_def zip filter_map comp_def)
qed

lemma subseq_nths_in: "subseq (nths_in xs P) xs"
  unfolding nths_in_eq_nths by (induction xs arbitrary: P) (auto simp: nths_Cons)

lemma subseq_distinct: "subseq xs ys \<Longrightarrow> distinct ys \<Longrightarrow> distinct xs"
  by (induction rule: list_emb.induct) (auto dest: list_emb_set)

lemma distinct_map_nths_in:
  assumes "\<And>i j. i < length xs \<Longrightarrow> j < length xs \<Longrightarrow> i \<in> P \<Longrightarrow> j \<in> P \<Longrightarrow>
    f (xs ! i) = f (xs ! j) \<Longrightarrow> i = j"
  shows "distinct (map f (nths_in xs P))"
proof -
  have "inj_on (\<lambda>i. f (xs ! i)) (set (filter (\<lambda>i. i \<in> P) [0..<length xs]))"
    by (rule inj_onI) (auto intro: assms)
  then show ?thesis
    unfolding nths_in_def by (simp add: distinct_map comp_def)
qed

text \<open>Applying \<open>f\<close> at every listed position, as a loop of \<open>xs[i] = f(xs[i])\<close> does.\<close>

fun update_at :: "('a \<Rightarrow> 'a) \<Rightarrow> nat list \<Rightarrow> 'a list \<Rightarrow> 'a list" where
  "update_at f [] xs = xs"
| "update_at f (i # is) xs = update_at f is (xs[i := f (xs ! i)])"

lemma length_update_at [simp]: "length (update_at f is xs) = length xs"
  by (induction "is" arbitrary: xs) auto

lemma nth_update_at:
  assumes "\<And>x. f (f x) = f x" "set is \<subseteq> {..<length xs}" "j < length xs"
  shows "update_at f is xs ! j = (if j \<in> set is then f (xs ! j) else xs ! j)"
  using assms(2,3)
proof (induction "is" arbitrary: xs)
  case (Cons i "is")
  then show ?case by (auto simp: assms(1) nth_list_update)
qed simp

section \<open>Slices\<close>

text \<open>\<open>xs[:m]\<close> and \<open>xs[m:]\<close>, negative bounds counted from the end.\<close>

definition slice_to :: "int \<Rightarrow> 'a list \<Rightarrow> 'a list" where
  "slice_to m xs = (if 0 \<le> m then take (nat m) xs else take (length xs - nat (- m)) xs)"

definition slice_from :: "int \<Rightarrow> 'a list \<Rightarrow> 'a list" where
  "slice_from m xs = (if 0 \<le> m then drop (nat m) xs else drop (length xs - nat (- m)) xs)"

lemma set_slice_to: "x \<in> set (slice_to m xs) \<Longrightarrow> x \<in> set xs"
  by (auto simp: slice_to_def split: if_splits dest: in_set_takeD)

lemma slice_to_map: "slice_to m (map f xs) = map f (slice_to m xs)"
  by (simp add: slice_to_def take_map)

lemma slice_to_all: "int (length xs) \<le> m \<Longrightarrow> slice_to m xs = xs"
  by (simp add: slice_to_def)

section \<open>Thread pools\<close>

text \<open>
  The workers of a pool finish in any order (\<open>schedule\<close>); each result goes to the slot of its input.
\<close>

definition pool_map :: "nat list \<Rightarrow> ('a \<Rightarrow> 'b) \<Rightarrow> 'a list \<Rightarrow> 'b list" where
  "pool_map schedule f xs = map the
     (fold (\<lambda>i slots. slots[i := Some (f (xs ! i))]) schedule (replicate (length xs) None))"

lemma length_fold_update:
  "length (fold (\<lambda>i slots. slots[i := g i]) js slots) = length slots"
  by (induction js arbitrary: slots) auto

lemma nth_fold_update:
  "j < length slots \<Longrightarrow> fold (\<lambda>i slots. slots[i := g i]) js slots ! j
     = (if j \<in> set js then g j else slots ! j)"
  by (induction js arbitrary: slots) (auto simp: nth_list_update)

lemma pool_map_eq: "set schedule = {..<length xs} \<Longrightarrow> pool_map schedule f xs = map f xs"
  by (rule nth_equalityI) (simp_all add: pool_map_def length_fold_update nth_fold_update)

section \<open>Sorting and separators\<close>

text \<open>With distinct keys the result of a sort does not depend on the order of the input.\<close>

lemma sort_key_map: "sort_key f (map g xs) = map g (sort_key (\<lambda>x. f (g x)) xs)"
proof -
  have "insort_key f (g x) (map g ys) = map g (insort_key (\<lambda>x. f (g x)) x ys)" for x ys
    by (induction ys) auto
  then show ?thesis by (induction xs) auto
qed

lemma sort_key_cong:
  assumes "\<And>x. x \<in> set xs \<Longrightarrow> f x = g x"
  shows "sort_key f xs = sort_key g xs"
proof -
  have ins: "insort_key f x ys = insort_key g x ys" if "\<And>y. y \<in> insert x (set ys) \<Longrightarrow> f y = g y" for x ys
    using that by (induction ys) auto
  show ?thesis using assms
  proof (induction xs)
    case (Cons x xs)
    then have "sort_key f xs = sort_key g xs" by simp
    then show ?case using ins [of x "sort_key g xs"] Cons.prems by simp
  qed simp
qed

lemma sort_key_perm:
  assumes "mset xs = mset ys" "distinct (map key xs)"
  shows "sort_key key xs = sort_key key ys"
  using assms by (intro sort_key_inj_key_eq) (simp_all add: distinct_map)

lemma append_sep_inj: "c \<notin> set a \<Longrightarrow> c \<notin> set b \<Longrightarrow> a @ c # u = b @ c # v \<Longrightarrow> a = b \<and> u = v"
proof -
  assume a: "c \<notin> set a" and b: "c \<notin> set b" and eq: "a @ c # u = b @ c # v"
  have tw: "takeWhile (\<lambda>x. x \<noteq> c) (a @ c # u) = a" "takeWhile (\<lambda>x. x \<noteq> c) (b @ c # v) = b"
    using a b by (auto intro!: takeWhile_append2 [THEN trans] simp: takeWhile_eq_filter)
  then show ?thesis using eq by auto
qed

end
