(* ===== verification/PyStr.thy ===== *)
theory PyStr
  imports Prelude "HOL-Library.Char_ord"
begin

text \<open>
  Python's \<open>str\<close> as a list of code points, with the methods the pipeline uses. Literals
  are written \<open>lit ''...''\<close>. A list of code points (and not of bytes) because the pipeline
  counts offsets in code points and rewrites characters outside ASCII (subscript digits,
  middle dots). Strings compare lexicographically by code point, as Python's do.
\<close>

type_synonym pystr = "nat list"

definition lit :: "string \<Rightarrow> pystr" where
  "lit s = map of_char s"

lemma lit_inject [simp]: "lit s = lit t \<longleftrightarrow> s = t"
proof
  assume "lit s = lit t"
  then have "map (of_char :: char \<Rightarrow> nat) s = map of_char t" by (simp add: lit_def)
  moreover have "inj (of_char :: char \<Rightarrow> nat)" by (auto simp: inj_on_def)
  ultimately show "s = t" by (simp add: inj_map_eq_map)
qed simp

lemma lit_Nil [simp]: "lit [] = []" "(lit s = []) \<longleftrightarrow> s = []" "([] = lit s) \<longleftrightarrow> s = []"
  by (auto simp: lit_def)

lemma lit_Cons: "lit (c # s) = of_char c # lit s"
  by (simp add: lit_def)

lemma length_lit [simp]: "length (lit s) = length s"
  by (simp add: lit_def)

lemma set_lit: "set (lit s) = of_char ` set s"
  by (simp add: lit_def)

definition nl :: pystr where "nl = [10]"

section \<open>Character classes\<close>

text \<open>\<open>str.isspace\<close>, which is also what \<open>\\s\<close> matches and \<open>strip()\<close> removes.\<close>

definition is_space :: "nat \<Rightarrow> bool" where
  "is_space c \<longleftrightarrow> (9 \<le> c \<and> c \<le> 13) \<or> (28 \<le> c \<and> c \<le> 32) \<or> c = 133 \<or> c = 160 \<or> c = 5760
     \<or> (8192 \<le> c \<and> c \<le> 8202) \<or> c = 8232 \<or> c = 8233 \<or> c = 8239 \<or> c = 8287 \<or> c = 12288"

definition is_ascii_digit :: "nat \<Rightarrow> bool" where
  "is_ascii_digit c \<longleftrightarrow> 48 \<le> c \<and> c \<le> 57"

definition is_upper :: "nat \<Rightarrow> bool" where
  "is_upper c \<longleftrightarrow> 65 \<le> c \<and> c \<le> 90"

definition is_lower :: "nat \<Rightarrow> bool" where
  "is_lower c \<longleftrightarrow> 97 \<le> c \<and> c \<le> 122"

definition is_alpha_ascii :: "nat \<Rightarrow> bool" where
  "is_alpha_ascii c \<longleftrightarrow> is_upper c \<or> is_lower c"

text \<open>
  The zero of each run of ten decimal digits (Unicode category Nd, Unicode 16): what
  \<open>\\d\<close> matches and \<open>float()\<close> reads.
\<close>

definition digit_zeros :: "nat list" where
  "digit_zeros = [48, 1632, 1776, 1984, 2406, 2534, 2662, 2790, 2918, 3046, 3174, 3302, 3430,
     3558, 3664, 3792, 3872, 4160, 4240, 6112, 6160, 6470, 6608, 6784, 6800, 6992, 7088, 7232,
     7248, 42528, 43216, 43264, 43472, 43504, 43600, 44016, 65296, 66720, 68912, 68928, 69734,
     69872, 69942, 70096, 70384, 70736, 70864, 71248, 71360, 71376, 71386, 71472, 71904, 72016,
     72688, 72784, 73040, 73120, 73552, 90416, 92768, 92864, 93008, 93552, 118000, 120782,
     120792, 120802, 120812, 120822, 123200, 123632, 124144, 124401, 125264, 130032]"

definition digit_value :: "nat \<Rightarrow> nat option" where
  "digit_value c = (if is_ascii_digit c then Some (c - 48)
     else case find (\<lambda>z. z \<le> c \<and> c < z + 10) digit_zeros of
       None \<Rightarrow> None | Some z \<Rightarrow> Some (c - z))"

definition is_digit :: "nat \<Rightarrow> bool" where
  "is_digit c \<longleftrightarrow> digit_value c \<noteq> None"

text \<open>
  \<open>str.lower()\<close> up to characters whose lower case is outside ASCII: besides the ASCII
  capitals only U+0130 and U+212A (the Kelvin sign) have a lower case with an ASCII letter.
  Every caller compares the result with an ASCII literal or discards what is not ASCII, so
  the other code points, left as they are, cannot be told from their real lower case.
\<close>

definition lower_char :: "nat \<Rightarrow> pystr" where
  "lower_char c = (if is_upper c then [c + 32] else if c = 304 then [105, 775]
     else if c = 8490 then [107] else [c])"

definition lower_ascii :: "pystr \<Rightarrow> pystr" where
  "lower_ascii s = concat (map lower_char s)"

section \<open>Methods\<close>

definition strip_by :: "(nat \<Rightarrow> bool) \<Rightarrow> pystr \<Rightarrow> pystr" where
  "strip_by p s = rev (dropWhile p (rev (dropWhile p s)))"

definition strip :: "pystr \<Rightarrow> pystr" where
  "strip s = strip_by is_space s"

definition starts_with :: "pystr \<Rightarrow> pystr \<Rightarrow> bool" where
  "starts_with p s \<longleftrightarrow> take (length p) s = p"

fun has_sub :: "pystr \<Rightarrow> pystr \<Rightarrow> bool" where
  "has_sub w [] = (w = [])"
| "has_sub w (x # xs) = (starts_with w (x # xs) \<or> has_sub w xs)"

text \<open>\<open>s.split(c)\<close> for a one-character separator, \<open>c.join(parts)\<close>, \<open>s.split()\<close>.\<close>

fun split_on :: "nat \<Rightarrow> pystr \<Rightarrow> pystr list" where
  "split_on c [] = [[]]"
| "split_on c (x # xs) = (if x = c then [] # split_on c xs
     else (x # hd (split_on c xs)) # tl (split_on c xs))"

fun join :: "pystr \<Rightarrow> pystr list \<Rightarrow> pystr" where
  "join sep [] = []"
| "join sep [x] = x"
| "join sep (x # y # zs) = x @ sep @ join sep (y # zs)"

function split_ws :: "pystr \<Rightarrow> pystr list" where
  "split_ws s = (case dropWhile is_space s of
       [] \<Rightarrow> []
     | x # xs \<Rightarrow> (x # takeWhile (\<lambda>c. \<not> is_space c) xs) #
         split_ws (dropWhile (\<lambda>c. \<not> is_space c) xs))"
  by pat_completeness auto
termination
proof (relation "measure length")
  fix s x xs
  assume "dropWhile is_space s = x # xs"
  then have "Suc (length xs) \<le> length s"
    using length_dropWhile_le [of is_space s] by simp
  then show "(dropWhile (\<lambda>c. \<not> is_space c) xs, s) \<in> measure length"
    using length_dropWhile_le [of "\<lambda>c. \<not> is_space c" xs] by simp
qed simp

declare split_ws.simps [simp del]

text \<open>\<open>s.replace(old, new)\<close> for a non-empty \<open>old\<close>: left to right, not overlapping.\<close>

function replace :: "pystr \<Rightarrow> pystr \<Rightarrow> pystr \<Rightarrow> pystr" where
  "replace old new [] = []"
| "replace old new (x # xs) =
     (if old \<noteq> [] \<and> starts_with old (x # xs)
      then new @ replace old new (drop (length old) (x # xs))
      else x # replace old new xs)"
  by pat_completeness auto
termination
  by (relation "measure (\<lambda>(old, new, s). length s)") (auto simp: length_greater_0_conv [symmetric] simp del: length_greater_0_conv)

text \<open>\<open>s.rsplit(c, 1)[1]\<close> and \<open>s.split(c, 1)[1]\<close> where \<open>c\<close> occurs.\<close>

definition after_last :: "nat \<Rightarrow> pystr \<Rightarrow> pystr" where
  "after_last c s = rev (takeWhile (\<lambda>x. x \<noteq> c) (rev s))"

definition after_first :: "nat \<Rightarrow> pystr \<Rightarrow> pystr" where
  "after_first c s = tl (dropWhile (\<lambda>x. x \<noteq> c) s)"

text \<open>\<open>str(n)\<close>.\<close>

fun show_nat :: "nat \<Rightarrow> pystr" where
  "show_nat n = (if n < 10 then [48 + n] else show_nat (n div 10) @ [48 + n mod 10])"

declare show_nat.simps [simp del]

definition show_int :: "int \<Rightarrow> pystr" where
  "show_int i = (if i < 0 then 45 # show_nat (nat (- i)) else show_nat (nat i))"

end
