(* ===== verification/Slug.thy ===== *)
theory Slug
  imports PyStr
begin

text \<open>
  The slug rule of \<open>formula.py\<close>, \<open>measurements.py\<close> and \<open>edges.py\<close> (one copy each):
  map each of \<open>' ' '/' '#' '|' '=' '@'\<close> to a hyphen, collapse runs of hyphens with a
  \<open>while\<close> loop of \<open>replace\<close>, strip hyphens at the ends. The loop is modelled as it is
  written and related to a one-pass specification: the maximal runs of other characters,
  joined by single hyphens.
\<close>

section \<open>The loop \<open>while "--" in s: s = s.replace("--", "-")\<close>\<close>

abbreviation hyphen :: nat where "hyphen \<equiv> 45"

lemma length_replace_pair: "length (replace [c, c] [c] s) \<le> length s"
  by (induction "[c, c]" "[c]" s rule: replace.induct) (auto simp: starts_with_def)

lemma replace_pair_shrinks: "has_sub [c, c] s \<Longrightarrow> length (replace [c, c] [c] s) < length s"
proof (induction "[c, c]" "[c]" s rule: replace.induct)
  case (2 x xs)
  show ?case
  proof (cases "starts_with [c, c] (x # xs)")
    case True
    then obtain ys where "xs = c # ys" "x = c" by (cases xs) (auto simp: starts_with_def)
    then show ?thesis
      using length_replace_pair [of c ys] by (simp add: starts_with_def)
  qed (use 2 in auto)
qed simp

function collapse :: "nat \<Rightarrow> pystr \<Rightarrow> pystr" where
  "collapse c s = (if has_sub [c, c] s then collapse c (replace [c, c] [c] s) else s)"
  by pat_completeness auto
termination
  by (relation "measure (length \<circ> snd)") (auto intro: replace_pair_shrinks)

declare collapse.simps [simp del]

section \<open>Runs of characters other than the separator\<close>

function runs :: "nat \<Rightarrow> pystr \<Rightarrow> pystr list" where
  "runs c [] = []"
| "runs c (x # xs) = (if x = c then runs c xs
     else (x # takeWhile (\<lambda>y. y \<noteq> c) xs) # runs c (dropWhile (\<lambda>y. y \<noteq> c) xs))"
  by pat_completeness auto
termination
  by (relation "measure (length \<circ> snd)") (auto simp: less_Suc_eq_le length_dropWhile_le)

lemma runs_nonempty: "w \<in> set (runs c s) \<Longrightarrow> w \<noteq> []"
  by (induction c s rule: runs.induct) (auto split: if_splits)

lemma runs_no_sep: "w \<in> set (runs c s) \<Longrightarrow> c \<notin> set w"
  by (induction c s rule: runs.induct) (auto split: if_splits dest: set_takeWhileD)

lemma runs_subset: "w \<in> set (runs c s) \<Longrightarrow> set w \<subseteq> set s"
  by (induction c s rule: runs.induct)
    (fastforce split: if_splits dest: set_takeWhileD set_dropWhileD)+

lemma takeWhile_replace_pair:
  "takeWhile (\<lambda>y. y \<noteq> c) (replace [c, c] [c] s) = takeWhile (\<lambda>y. y \<noteq> c) s"
  by (induction "[c, c]" "[c]" s rule: replace.induct) (auto simp: starts_with_def)

lemma dropWhile_replace_pair:
  "dropWhile (\<lambda>y. y \<noteq> c) (replace [c, c] [c] s) = replace [c, c] [c] (dropWhile (\<lambda>y. y \<noteq> c) s)"
  by (induction "[c, c]" "[c]" s rule: replace.induct) (auto simp: starts_with_def)

lemma runs_replace_pair: "runs c (replace [c, c] [c] s) = runs c s"
proof (induction s rule: length_induct)
  case (1 s)
  show ?case
  proof (cases s)
    case (Cons x xs)
    show ?thesis
    proof (cases "starts_with [c, c] s")
      case True
      then obtain ys where s: "s = c # c # ys"
        using Cons by (cases xs) (auto simp: starts_with_def)
      have "runs c (replace [c, c] [c] ys) = runs c ys" using 1 s by simp
      then show ?thesis using s by (simp add: starts_with_def)
    next
      case False
      have r: "replace [c, c] [c] s = x # replace [c, c] [c] xs" using False Cons by simp
      have "runs c (replace [c, c] [c] xs) = runs c xs" using 1 Cons by simp
      moreover have "runs c (replace [c, c] [c] (dropWhile (\<lambda>y. y \<noteq> c) xs)) =
          runs c (dropWhile (\<lambda>y. y \<noteq> c) xs)"
        using 1 Cons length_dropWhile_le [of "\<lambda>y. y \<noteq> c" xs] by (simp add: less_Suc_eq_le)
      ultimately show ?thesis
        using r Cons by (simp add: takeWhile_replace_pair dropWhile_replace_pair)
    qed
  qed simp
qed

lemma runs_collapse: "runs c (collapse c s) = runs c s"
  by (induction c s rule: collapse.induct) (simp add: collapse.simps runs_replace_pair)

lemma collapse_no_pair: "\<not> has_sub [c, c] (collapse c s)"
  by (induction c s rule: collapse.induct) (simp add: collapse.simps)

lemma runs_append_sep: "runs c (s @ [c]) = runs c s"
proof (induction c s rule: runs.induct)
  case (2 c x xs)
  show ?case
  proof (cases "x = c")
    case False
    show ?thesis
    proof (cases "\<forall>y \<in> set xs. y \<noteq> c")
      case True
      then have t: "takeWhile (\<lambda>y. y \<noteq> c) xs = xs" and d: "dropWhile (\<lambda>y. y \<noteq> c) xs = []"
        by simp_all
      show ?thesis using False True
        by (simp add: takeWhile_append dropWhile_append t d)
    next
      case inner: False
      then show ?thesis using False 2 by (auto simp: takeWhile_append dropWhile_append)
    qed
  qed (use 2 in simp)
qed simp

lemma runs_strip: "runs c (strip_by (\<lambda>x. x = c) s) = runs c s"
proof -
  have lead: "runs c (dropWhile (\<lambda>x. x = c) t) = runs c t" for t
    by (induction t) auto
  have trail: "runs c (rev (dropWhile (\<lambda>x. x = c) t)) = runs c (rev t)" for t
    by (induction t) (auto simp: runs_append_sep)
  show ?thesis by (simp add: strip_by_def lead trail)
qed

lemma has_sub_pair_append: "has_sub [c, c] t \<Longrightarrow> has_sub [c, c] (u @ t)"
  by (induction u) auto

lemma has_sub_pair_Cons: "has_sub [c, c] (x # t) \<longleftrightarrow> (x = c \<and> t \<noteq> [] \<and> hd t = c) \<or> has_sub [c, c] t"
  by (cases t) (auto simp: starts_with_def)

text \<open>A string with no double separator and none at the ends is its runs, joined.\<close>

lemma join_runs:
  assumes "\<not> has_sub [c, c] s" "s = [] \<or> hd s \<noteq> c" "s = [] \<or> last s \<noteq> c"
  shows "join [c] (runs c s) = s"
  using assms
proof (induction s rule: length_induct)
  case (1 s)
  show ?case
  proof (cases s)
    case (Cons x xs)
    define w where "w = x # takeWhile (\<lambda>y. y \<noteq> c) xs"
    define r where "r = dropWhile (\<lambda>y. y \<noteq> c) xs"
    have s: "s = w @ r" by (simp add: Cons w_def r_def)
    have runs: "runs c s = w # runs c r" using "1.prems" Cons by (simp add: w_def r_def)
    show ?thesis
    proof (cases r)
      case Nil
      then show ?thesis using runs s by simp
    next
      case r': (Cons y t)
      have y: "y = c" using r' hd_dropWhile [of "\<lambda>y. y \<noteq> c" xs] by (simp add: r_def)
      have "\<not> has_sub [c, c] r" using "1.prems"(1) s has_sub_pair_append by auto
      then have t: "\<not> has_sub [c, c] t" "t = [] \<or> hd t \<noteq> c"
        using r' y has_sub_pair_Cons [of c c t] by auto
      have tne: "t \<noteq> []" using "1.prems"(3) s r' y by auto
      then have "last t \<noteq> c" using "1.prems"(3) s r' by simp
      then have jt: "join [c] (runs c t) = t" using 1 t s r' by (auto simp: w_def)
      then obtain z zs where "runs c t = z # zs" using tne by (cases "runs c t") auto
      then show ?thesis using runs s r' y jt by simp
    qed
  qed simp
qed

lemma strip_by_ends:
  "strip_by p s = [] \<or> (\<not> p (hd (strip_by p s)) \<and> \<not> p (last (strip_by p s)))"
proof -
  let ?d = "dropWhile p s"
  show ?thesis
  proof (cases "strip_by p s = []")
    case False
    then have ne: "dropWhile p (rev ?d) \<noteq> []" by (simp add: strip_by_def)
    then have l: "\<not> p (last (strip_by p s))"
      using hd_dropWhile [OF ne] by (simp add: strip_by_def last_rev)
    obtain u where u: "rev ?d = u @ dropWhile p (rev ?d)"
      by (metis takeWhile_dropWhile_id)
    then have d: "?d = strip_by p s @ rev u"
      by (metis rev_append rev_rev_ident strip_by_def)
    then have "?d \<noteq> []" using False by auto
    then have "\<not> p (hd ?d)" by (rule hd_dropWhile)
    then have "\<not> p (hd (strip_by p s))" using d False by (metis hd_append2)
    then show ?thesis using l by simp
  qed simp
qed

lemma strip_by_no_pair:
  assumes "\<not> has_sub [c, c] s"
  shows "\<not> has_sub [c, c] (strip_by p s)"
proof -
  have prefix: "has_sub [c, c] u \<Longrightarrow> has_sub [c, c] (u @ v)" for u v
    by (induction u) (auto simp: has_sub_pair_Cons simp del: has_sub.simps(2))
  obtain u where "s = u @ dropWhile p s" by (metis takeWhile_dropWhile_id)
  then have "\<not> has_sub [c, c] (dropWhile p s)" using assms by (metis has_sub_pair_append)
  moreover obtain v where "rev (dropWhile p s) = v @ dropWhile p (rev (dropWhile p s))"
    by (metis takeWhile_dropWhile_id)
  then have "dropWhile p s = strip_by p s @ rev v"
    by (metis rev_append rev_rev_ident strip_by_def)
  ultimately show ?thesis by (metis prefix)
qed

text \<open>Collapse and strip, whatever the input, leave exactly its runs joined by one separator.\<close>

lemma set_strip_by: "set (strip_by p s) \<subseteq> set s"
  by (auto simp: strip_by_def dest!: set_dropWhileD)

lemma strip_by_id: "s = [] \<or> \<not> p (hd s) \<and> \<not> p (last s) \<Longrightarrow> strip_by p s = s"
proof -
  assume ends: "s = [] \<or> \<not> p (hd s) \<and> \<not> p (last s)"
  then have "dropWhile p s = s" "dropWhile p (rev s) = rev s"
    by (auto simp: dropWhile_eq_self_iff hd_rev)
  then show ?thesis by (simp add: strip_by_def)
qed

lemma strip_collapse: "strip_by (\<lambda>x. x = c) (collapse c s) = join [c] (runs c s)"
proof -
  let ?t = "strip_by (\<lambda>x. x = c) (collapse c s)"
  have "join [c] (runs c ?t) = ?t"
    using strip_by_ends [of "\<lambda>x. x = c" "collapse c s"]
    by (intro join_runs strip_by_no_pair collapse_no_pair) auto
  then show ?thesis by (simp add: runs_strip runs_collapse)
qed

lemma runs_cons_run: "w \<noteq> [] \<Longrightarrow> c \<notin> set w \<Longrightarrow> runs c (w @ c # s) = w # runs c s"
proof -
  assume "w \<noteq> []" "c \<notin> set w"
  then obtain x xs where "w = x # xs" "x \<noteq> c" "\<forall>y \<in> set xs. y \<noteq> c"
    by (cases w) auto
  then show ?thesis by (simp add: takeWhile_append dropWhile_append)
qed

lemma runs_one_run: "w \<noteq> [] \<Longrightarrow> c \<notin> set w \<Longrightarrow> runs c w = [w]"
proof -
  assume "w \<noteq> []" "c \<notin> set w"
  then obtain x xs where "w = x # xs" "x \<noteq> c" "\<forall>y \<in> set xs. y \<noteq> c"
    by (cases w) auto
  then show ?thesis by (simp add: takeWhile_eq_all_conv [THEN iffD2] dropWhile_eq_Nil_conv [THEN iffD2])
qed

lemma runs_join:
  "(\<And>w. w \<in> set ws \<Longrightarrow> w \<noteq> [] \<and> c \<notin> set w) \<Longrightarrow> runs c (join [c] ws) = ws"
  by (induction "[c]" ws rule: join.induct) (auto simp: runs_cons_run runs_one_run)

section \<open>The three slugify functions\<close>

definition slugify_chars :: "nat list" where
  "slugify_chars = [32, 47, 35, 124, 61, 64]"

definition formula_slugify :: "pystr \<Rightarrow> pystr" where
  "formula_slugify s =
     (let chars = map (\<lambda>ch. if ch \<in> set slugify_chars then hyphen else ch) s
      in strip_by (\<lambda>x. x = hyphen) (collapse hyphen chars))"

fun replace_each :: "nat list \<Rightarrow> pystr \<Rightarrow> pystr" where
  "replace_each [] out = out"
| "replace_each (ch # chs) out = replace_each chs (replace [ch] [hyphen] out)"

definition measurements_slugify :: "pystr \<Rightarrow> pystr" where
  "measurements_slugify s =
     (let out = replace_each [32, 47, 35, 124, 61, 64] s
      in strip_by (\<lambda>x. x = hyphen) (collapse hyphen out))"

definition edges_slugify :: "pystr \<Rightarrow> pystr" where
  "edges_slugify s =
     (let out = replace_each [32, 47, 35, 124, 61, 64] s
      in strip_by (\<lambda>x. x = hyphen) (collapse hyphen out))"

lemma replace_char: "replace [a] [b] s = map (\<lambda>x. if x = a then b else x) s"
  by (induction s) (auto simp: starts_with_def)

lemma replace_each_map:
  "hyphen \<notin> set chs \<Longrightarrow> replace_each chs s = map (\<lambda>x. if x \<in> set chs then hyphen else x) s"
  by (induction chs arbitrary: s) (auto simp: replace_char)

definition slug_spec :: "pystr \<Rightarrow> pystr" where
  "slug_spec s = join [hyphen] (runs hyphen (map (\<lambda>ch. if ch \<in> set slugify_chars then hyphen else ch) s))"

lemma formula_slugify_spec: "formula_slugify s = slug_spec s"
  by (simp add: formula_slugify_def slug_spec_def strip_collapse)

lemma measurements_slugify_spec: "measurements_slugify s = slug_spec s"
  by (simp add: measurements_slugify_def slug_spec_def strip_collapse replace_each_map slugify_chars_def
      del: replace_each.simps)

lemma edges_slugify_spec: "edges_slugify s = slug_spec s"
  by (simp add: edges_slugify_def slug_spec_def strip_collapse replace_each_map slugify_chars_def
      del: replace_each.simps)

lemma set_join: "set (join sep ws) \<subseteq> set sep \<union> \<Union> (set ` set ws)"
  by (induction sep ws rule: join.induct) auto

lemma slug_spec_chars:
  assumes "x \<in> set (slug_spec s)"
  shows "x \<notin> set slugify_chars \<and> (x = hyphen \<or> x \<in> set s)"
proof -
  let ?m = "map (\<lambda>ch. if ch \<in> set slugify_chars then hyphen else ch) s"
  have "x = hyphen \<or> x \<in> set ?m"
    using assms set_join [of "[hyphen]" "runs hyphen ?m"] runs_subset [of _ hyphen ?m]
    by (fastforce simp: slug_spec_def)
  then show ?thesis by (auto simp: slugify_chars_def)
qed

lemma slug_spec_idem: "slug_spec (slug_spec s) = slug_spec s"
proof -
  let ?m = "\<lambda>ch. if ch \<in> set slugify_chars then hyphen else ch"
  have "map ?m (slug_spec s) = slug_spec s"
    using slug_spec_chars [of _ s] by (intro map_idI) auto
  then show ?thesis
    by (simp add: slug_spec_def runs_join runs_nonempty runs_no_sep)
qed

text \<open>The slug rule is one function: the three copies in the code compute the same slug on
  every string, and it is a fixed point of the rule, holds none of the six mapped characters
  and no empty run between hyphens.\<close>

theorem slugify_copies_agree:
  "measurements_slugify s = formula_slugify s \<and> edges_slugify s = formula_slugify s
   \<and> formula_slugify (formula_slugify s) = formula_slugify s
   \<and> set (formula_slugify s) \<inter> {32, 47, 35, 124, 61, 64} = {}
   \<and> \<not> has_sub [45, 45] (formula_slugify s)"
proof -
  have "set (slug_spec s) \<inter> set slugify_chars = {}" using slug_spec_chars [of _ s] by auto
  moreover have "\<not> has_sub [45, 45] (formula_slugify s)"
    by (simp add: formula_slugify_def strip_by_no_pair collapse_no_pair)
  ultimately show ?thesis
    by (simp add: formula_slugify_spec measurements_slugify_spec edges_slugify_spec
        slug_spec_idem slugify_chars_def)
qed

end
