(* ===== verification/PyFloat.thy ===== *)
theory PyFloat
  imports PyStr "HOL-Library.Log_Nat"
begin

text \<open>
  Python's \<open>float\<close>: IEEE 754 binary64 values as exact rationals with a negative zero, two
  infinities and a not-a-number; rounding to nearest, ties to even, as an executable function;
  \<open>float(s)\<close>, \<open>float(n)\<close> (which raises \<open>OverflowError\<close>), the comparisons, addition,
  \<open>format(v, '.1f')\<close>, \<open>format(v, 'f')\<close> and \<open>repr(v)\<close> (the shortest decimal that
  reads back as the same value).
\<close>

datatype pyfloat = Fin rat | NegZero | PosInf | NegInf | NaN

fun mag :: "pyfloat \<Rightarrow> rat" where
  "mag (Fin r) = r"
| "mag _ = 0"

fun is_finite :: "pyfloat \<Rightarrow> bool" where
  "is_finite (Fin r) = True"
| "is_finite NegZero = True"
| "is_finite _ = False"

section \<open>Comparisons\<close>

fun fl_lt :: "pyfloat \<Rightarrow> pyfloat \<Rightarrow> bool" where
  "fl_lt NaN y = False"
| "fl_lt x NaN = False"
| "fl_lt PosInf y = False"
| "fl_lt x NegInf = False"
| "fl_lt NegInf y = True"
| "fl_lt x PosInf = True"
| "fl_lt x y = (mag x < mag y)"

fun fl_eq :: "pyfloat \<Rightarrow> pyfloat \<Rightarrow> bool" where
  "fl_eq NaN y = False"
| "fl_eq x NaN = False"
| "fl_eq PosInf y = (y = PosInf)"
| "fl_eq x PosInf = False"
| "fl_eq NegInf y = (y = NegInf)"
| "fl_eq x NegInf = False"
| "fl_eq x y = (mag x = mag y)"

definition fl_le :: "pyfloat \<Rightarrow> pyfloat \<Rightarrow> bool" where
  "fl_le x y \<longleftrightarrow> fl_lt x y \<or> fl_eq x y"

lemma fl_lt_finite: "is_finite x \<Longrightarrow> is_finite y \<Longrightarrow> fl_lt x y \<longleftrightarrow> mag x < mag y"
  by (cases x; cases y) auto

lemma fl_eq_finite: "is_finite x \<Longrightarrow> is_finite y \<Longrightarrow> fl_eq x y \<longleftrightarrow> mag x = mag y"
  by (cases x; cases y) auto

lemma fl_le_finite: "is_finite x \<Longrightarrow> is_finite y \<Longrightarrow> fl_le x y \<longleftrightarrow> mag x \<le> mag y"
  by (auto simp: fl_le_def fl_lt_finite fl_eq_finite)

section \<open>Rounding\<close>

text \<open>Nearest integer, ties to even.\<close>

definition rne :: "rat \<Rightarrow> int" where
  "rne x = (let f = \<lfloor>x\<rfloor>; d = x - of_int f in
     if d < 1 / 2 then f else if 1 / 2 < d then f + 1 else if even f then f else f + 1)"

text \<open>The binary exponent of a positive rational: \<open>2\<^sup>e \<le> r < 2\<^sup>e\<^sup>+\<^sup>1\<close>.\<close>

definition exp2 :: "rat \<Rightarrow> int" where
  "exp2 r = (let (p, q) = quotient_of r; e = bitlen p - bitlen q in
     if 2 powi e \<le> r then e else e - 1)"

definition round_pos :: "rat \<Rightarrow> rat" where
  "round_pos r = (let u = 2 powi (max (exp2 r) (- 1022) - 52) in of_int (rne (r / u)) * u)"

definition round_rat :: "rat \<Rightarrow> rat" where
  "round_rat r = (if r = 0 then 0 else if r < 0 then - round_pos (- r) else round_pos r)"

definition fl_of_rat :: "rat \<Rightarrow> pyfloat" where
  "fl_of_rat r = (let v = round_rat r in
     if 2 ^ 1024 \<le> v then PosInf else if v \<le> - (2 ^ 1024) then NegInf else Fin v)"

text \<open>\<open>float(n)\<close> of an \<open>int\<close>.\<close>

definition fl_of_int :: "int \<Rightarrow> pyfloat result" where
  "fl_of_int n = (let v = round_rat (of_int n) in
     if 2 ^ 1024 \<le> \<bar>v\<bar> then Inl OverflowError else Inr (Fin v))"

section \<open>Arithmetic\<close>

fun fl_neg :: "pyfloat \<Rightarrow> pyfloat" where
  "fl_neg (Fin r) = (if r = 0 then NegZero else Fin (- r))"
| "fl_neg NegZero = Fin 0"
| "fl_neg PosInf = NegInf"
| "fl_neg NegInf = PosInf"
| "fl_neg NaN = NaN"

fun fl_add :: "pyfloat \<Rightarrow> pyfloat \<Rightarrow> pyfloat" where
  "fl_add NaN y = NaN"
| "fl_add x NaN = NaN"
| "fl_add PosInf NegInf = NaN"
| "fl_add NegInf PosInf = NaN"
| "fl_add PosInf y = PosInf"
| "fl_add x PosInf = PosInf"
| "fl_add NegInf y = NegInf"
| "fl_add x NegInf = NegInf"
| "fl_add NegZero NegZero = NegZero"
| "fl_add x y = fl_of_rat (mag x + mag y)"

definition fl_sub :: "pyfloat \<Rightarrow> pyfloat \<Rightarrow> pyfloat" where
  "fl_sub x y = fl_add x (fl_neg y)"

fun fl_abs :: "pyfloat \<Rightarrow> pyfloat" where
  "fl_abs (Fin r) = Fin \<bar>r\<bar>"
| "fl_abs NegZero = Fin 0"
| "fl_abs NegInf = PosInf"
| "fl_abs x = x"

section \<open>Reading: \<open>float(s)\<close>\<close>

fun dec_value :: "pystr \<Rightarrow> nat \<Rightarrow> nat" where
  "dec_value [] acc = acc"
| "dec_value (d # ds) acc = dec_value ds (10 * acc + (d - 48))"

text \<open>Non-ASCII white space becomes a space, a decimal digit its ASCII digit.\<close>

definition to_ascii_char :: "nat \<Rightarrow> nat" where
  "to_ascii_char c = (if c < 128 then c else if is_space c then 32
     else case digit_value c of Some d \<Rightarrow> 48 + d | None \<Rightarrow> 63)"

definition is_c_space :: "nat \<Rightarrow> bool" where
  "is_c_space c \<longleftrightarrow> c = 32 \<or> (9 \<le> c \<and> c \<le> 13)"

text \<open>An underscore must stand between two digits; it is then dropped.\<close>

fun drop_underscores :: "bool \<Rightarrow> pystr \<Rightarrow> pystr option" where
  "drop_underscores prev [] = Some []"
| "drop_underscores prev (c # cs) =
     (if c = 95 then
        (if prev \<and> cs \<noteq> [] \<and> is_ascii_digit (hd cs) then drop_underscores False cs else None)
      else map_option (\<lambda>r. c # r) (drop_underscores (is_ascii_digit c) cs))"

definition scale10 :: "nat \<Rightarrow> int \<Rightarrow> rat" where
  "scale10 m e = of_nat m * 10 powi e"

definition signed_float :: "bool \<Rightarrow> pyfloat \<Rightarrow> pyfloat" where
  "signed_float neg f = (if neg then fl_neg f else f)"

definition parse_exponent :: "pystr \<Rightarrow> int option" where
  "parse_exponent s = (case s of
       [] \<Rightarrow> Some 0
     | c # cs \<Rightarrow>
         if c \<noteq> 101 \<and> c \<noteq> 69 then None
         else let neg = (cs \<noteq> [] \<and> hd cs = 45);
                  ds = (if cs \<noteq> [] \<and> (hd cs = 45 \<or> hd cs = 43) then tl cs else cs)
              in if ds = [] \<or> \<not> list_all is_ascii_digit ds then None
                 else Some (if neg then - int (dec_value ds 0) else int (dec_value ds 0)))"

definition parse_unsigned :: "pystr \<Rightarrow> pyfloat option" where
  "parse_unsigned s =
     (let l = lower_ascii s in
      if l = lit ''inf'' \<or> l = lit ''infinity'' then Some PosInf
      else if l = lit ''nan'' then Some NaN
      else let ip = takeWhile is_ascii_digit s; r1 = dropWhile is_ascii_digit s;
               dot = (r1 \<noteq> [] \<and> hd r1 = 46);
               fp = (if dot then takeWhile is_ascii_digit (tl r1) else []);
               r2 = (if dot then dropWhile is_ascii_digit (tl r1) else r1)
           in if ip = [] \<and> fp = [] then None
              else case parse_exponent r2 of
                None \<Rightarrow> None
              | Some e \<Rightarrow> Some (fl_of_rat (scale10 (dec_value (ip @ fp) 0) (e - int (length fp)))))"

definition py_float :: "pystr \<Rightarrow> pyfloat option" where
  "py_float s = (case drop_underscores False (strip_by is_c_space (map to_ascii_char s)) of
       None \<Rightarrow> None
     | Some t \<Rightarrow>
         if t \<noteq> [] \<and> (hd t = 45 \<or> hd t = 43)
         then map_option (signed_float (hd t = 45)) (parse_unsigned (tl t))
         else parse_unsigned t)"

section \<open>Writing\<close>

text \<open>\<open>format(v, '.kf')\<close>: the exact value rounded to \<open>k\<close> decimals, ties to even.\<close>

definition pad_left :: "nat \<Rightarrow> pystr \<Rightarrow> pystr" where
  "pad_left k s = replicate (k - length s) 48 @ s"

definition fixed_digits :: "nat \<Rightarrow> rat \<Rightarrow> pystr" where
  "fixed_digits k r = (let n = nat (rne (r * 10 ^ k)) in
     show_nat (n div 10 ^ k) @ 46 # pad_left k (show_nat (n mod 10 ^ k)))"

fun format_fixed :: "nat \<Rightarrow> pyfloat \<Rightarrow> pystr" where
  "format_fixed k (Fin r) = (if r < 0 then 45 # fixed_digits k (- r) else fixed_digits k r)"
| "format_fixed k NegZero = 45 # fixed_digits k 0"
| "format_fixed k PosInf = lit ''inf''"
| "format_fixed k NegInf = lit ''-inf''"
| "format_fixed k NaN = lit ''nan''"

text \<open>
  \<open>repr\<close>: for the least number of significant digits \<open>n \<le> 17\<close> that suffices, the
  \<open>n\<close>-digit decimal nearest to the value among those that round back to it.
\<close>

definition exp10 :: "rat \<Rightarrow> int" where
  "exp10 r = (if 1 \<le> r then int (length (show_nat (nat \<lfloor>r\<rfloor>))) - 1
     else case find (\<lambda>k. 1 \<le> r * 10 ^ k) [1..<400] of Some k \<Rightarrow> - int k | None \<Rightarrow> - 400)"

definition digits_of_length :: "rat \<Rightarrow> nat \<Rightarrow> (nat \<times> int) option" where
  "digits_of_length r n =
     (let e = exp10 r - int n + 1; x = r / 10 powi e; lo = nat \<lfloor>x\<rfloor>;
          ok = (\<lambda>m. round_rat (scale10 m e) = r)
      in case filter ok [lo, lo + 1] of
           [] \<Rightarrow> None
         | [m] \<Rightarrow> Some (m, e)
         | _ \<Rightarrow> Some (nat (rne x), e))"

definition shortest_digits :: "rat \<Rightarrow> nat \<times> int" where
  "shortest_digits r = (case List.map_filter (digits_of_length r) [1..<18] of
       [] \<Rightarrow> (0, 0) | d # _ \<Rightarrow> d)"

definition strip_zeros :: "pystr \<Rightarrow> pystr" where
  "strip_zeros s = rev (dropWhile (\<lambda>c. c = 48) (rev s))"

definition repr_pos :: "rat \<Rightarrow> pystr" where
  "repr_pos r =
     (let (m, e) = shortest_digits r; all = show_nat m; ds = strip_zeros all;
          point = int (length all) + e
      in if - 4 < point \<and> point \<le> 16 then
           (if point \<le> 0 then lit ''0.'' @ replicate (nat (- point)) 48 @ ds
            else if int (length ds) \<le> point
              then ds @ replicate (nat point - length ds) 48 @ lit ''.0''
            else take (nat point) ds @ 46 # drop (nat point) ds)
         else (case ds of [] \<Rightarrow> [] | d # rest \<Rightarrow>
             d # (if rest = [] then [] else 46 # rest) @ lit ''e'' @
             (if point - 1 < 0 then lit ''-'' else lit ''+'') @
             pad_left 2 (show_nat (nat \<bar>point - 1\<bar>))))"

fun float_repr :: "pyfloat \<Rightarrow> pystr" where
  "float_repr (Fin r) = (if r = 0 then lit ''0.0'' else if r < 0 then 45 # repr_pos (- r) else repr_pos r)"
| "float_repr NegZero = lit ''-0.0''"
| "float_repr PosInf = lit ''inf''"
| "float_repr NegInf = lit ''-inf''"
| "float_repr NaN = lit ''nan''"

end
