(* ===== verification/PyJson.thy ===== *)
theory PyJson
  imports PyFloat
begin

text \<open>
  Parsed JSON as \<open>json.loads\<close> returns it: \<open>null\<close> is \<open>None\<close>, integers are unbounded,
  the tokens \<open>NaN\<close> and \<open>Infinity\<close> are floats, an object is a dictionary.
\<close>

datatype json =
    JNull
  | JBool bool
  | JInt int
  | JFloat pyfloat
  | JStr pystr
  | JArr "json list"
  | JObj "(pystr \<times> json) list"

text \<open>\<open>d.get(key)\<close>: a missing key and a \<open>null\<close> are both \<open>None\<close>.\<close>

definition get_field :: "(pystr \<times> json) list \<Rightarrow> string \<Rightarrow> json" where
  "get_field d k = (case map_of d (lit k) of None \<Rightarrow> JNull | Some v \<Rightarrow> v)"

fun as_str :: "json \<Rightarrow> pystr option" where
  "as_str (JStr s) = Some s"
| "as_str _ = None"

lemma as_str_Some: "as_str j = Some s \<longleftrightarrow> j = JStr s"
  by (cases j) auto

text \<open>An integer literal that \<open>float()\<close> refuses.\<close>

definition huge_int :: "int \<Rightarrow> bool" where
  "huge_int n \<longleftrightarrow> (\<exists>e. fl_of_int n = Inl e)"

lemma huge_int_code [code]:
  "huge_int n = (case fl_of_int n of Inl _ \<Rightarrow> True | Inr _ \<Rightarrow> False)"
  by (cases "fl_of_int n") (auto simp: huge_int_def)

lemma fl_of_int_cases:
  "fl_of_int n = Inl OverflowError \<and> huge_int n \<or> (\<exists>v. fl_of_int n = Inr (Fin v) \<and> \<not> huge_int n)"
  by (auto simp: fl_of_int_def huge_int_def Let_def)

lemma fl_of_int_Inl: "fl_of_int n = Inl e \<longleftrightarrow> e = OverflowError \<and> huge_int n"
  using fl_of_int_cases [of n] by auto

lemma fl_of_int_finite: "fl_of_int n = Inr f \<Longrightarrow> is_finite f"
  by (auto simp: fl_of_int_def Let_def split: if_splits)

end
