(* ===== verification/Equations.thy ===== *)
theory Equations
  imports PyFloat
begin

text \<open>
  \<open>equations.py\<close>: a normalized correlation (a form hint with coefficients, or a value at a
  temperature) becomes one of the ontology's equation forms with ordered coefficients, or
  is refused.
\<close>

section \<open>Forms\<close>

definition ARITY :: "(pystr \<times> nat) list" where
  "ARITY = [(lit ''Linear'', 2), (lit ''Polynomial2'', 3), (lit ''Polynomial3'', 4),
     (lit ''Arrhenius'', 2), (lit ''DiscretePoint'', 2)]"

definition FORM_SYNONYMS :: "(pystr \<times> pystr) list" where
  "FORM_SYNONYMS = [(lit ''linear'', lit ''Linear''),
     (lit ''polynomial2'', lit ''Polynomial2''), (lit ''poly2'', lit ''Polynomial2''),
     (lit ''polynomial3'', lit ''Polynomial3''), (lit ''poly3'', lit ''Polynomial3''),
     (lit ''arrhenius'', lit ''Arrhenius''),
     (lit ''discretepoint'', lit ''DiscretePoint''), (lit ''discrete'', lit ''DiscretePoint''),
     (lit ''point'', lit ''DiscretePoint'')]"

record equation_parse =
  form :: pystr
  coeffs :: "pyfloat list"
  t_min :: "pyfloat option"
  t_max :: "pyfloat option"

definition normalize_form_hint :: "pystr option \<Rightarrow> pystr option" where
  "normalize_form_hint form_hint = (case form_hint of
       None \<Rightarrow> None
     | Some h \<Rightarrow> map_of FORM_SYNONYMS (lower_ascii (strip h)))"

definition resolve_temp_range ::
    "pyfloat option \<Rightarrow> pyfloat option \<Rightarrow> pyfloat option \<times> pyfloat option" where
  "resolve_temp_range tmin tmax = (case (tmin, tmax) of
       (Some lo, Some hi) \<Rightarrow> if fl_le lo hi then (Some lo, Some hi) else (Some hi, Some lo)
     | _ \<Rightarrow> (None, None))"

definition parse_correlation ::
    "pystr option \<Rightarrow> pyfloat list option \<Rightarrow> pyfloat option \<Rightarrow> pyfloat option \<Rightarrow>
     pyfloat option \<Rightarrow> pyfloat option \<Rightarrow> equation_parse option" where
  "parse_correlation form_hint coefficients value temperature tmin tmax =
     (case normalize_form_hint form_hint of
        None \<Rightarrow> None
      | Some f \<Rightarrow>
          if f = lit ''DiscretePoint'' then
            (case (value, temperature) of
               (Some v, Some temp) \<Rightarrow>
                 Some \<lparr>form = f, coeffs = [v, temp], t_min = Some temp, t_max = Some temp\<rparr>
             | _ \<Rightarrow> None)
          else
            (case coefficients of
               None \<Rightarrow> None
             | Some cs \<Rightarrow>
                 if Some (length cs) \<noteq> map_of ARITY f then None
                 else let (lo, hi) = resolve_temp_range tmin tmax
                      in Some \<lparr>form = f, coeffs = cs, t_min = lo, t_max = hi\<rparr>))"

section \<open>Well-formed results\<close>

text \<open>What the writers downstream rely on: a known form, its arity, both bounds or none, in order.\<close>

definition range_ok :: "pyfloat option \<Rightarrow> pyfloat option \<Rightarrow> bool" where
  "range_ok lo hi = (case (lo, hi) of
      (None, None) \<Rightarrow> True
    | (Some a, Some b) \<Rightarrow> \<not> fl_lt b a
    | _ \<Rightarrow> False)"

definition wf_equation :: "equation_parse \<Rightarrow> bool" where
  "wf_equation e \<longleftrightarrow> map_of ARITY (form e) = Some (length (coeffs e)) \<and> range_ok (t_min e) (t_max e)"

lemma synonyms_have_arity: "map_of FORM_SYNONYMS h = Some f \<Longrightarrow> \<exists>n. map_of ARITY f = Some n"
  by (auto simp: FORM_SYNONYMS_def ARITY_def split: if_splits)

lemma arity_at_most_five: "map_of ARITY f = Some n \<Longrightarrow> n \<le> 4"
  by (auto simp: ARITY_def split: if_splits)

lemma fl_not_lt_flip: "\<not> fl_le x y \<Longrightarrow> \<not> fl_lt x y"
  by (simp add: fl_le_def)

lemma fl_le_not_lt: "fl_le x y \<Longrightarrow> \<not> fl_lt y x"
  by (cases x; cases y) (auto simp: fl_le_def)

lemma range_ok_resolve: "range_ok (fst (resolve_temp_range lo hi)) (snd (resolve_temp_range lo hi))"
  by (auto simp: resolve_temp_range_def range_ok_def fl_le_not_lt fl_not_lt_flip split: option.splits)

lemma fl_lt_irrefl [simp]: "\<not> fl_lt x x"
  by (cases x) auto

lemma parse_correlation_wf [gate_dests]:
  assumes "parse_correlation h cs v t lo hi = Some e"
  shows "wf_equation e"
proof -
  obtain f where f: "normalize_form_hint h = Some f"
    using assms by (auto simp: parse_correlation_def split: option.splits)
  show ?thesis
  proof (cases "f = lit ''DiscretePoint''")
    case True
    then show ?thesis using assms f
      by (auto simp: parse_correlation_def wf_equation_def range_ok_def ARITY_def split: option.splits)
  next
    case False
    then show ?thesis using assms f range_ok_resolve [of lo hi]
      by (auto simp: parse_correlation_def wf_equation_def split: option.splits if_splits prod.splits)
  qed
qed

text \<open>A correlation is accepted exactly when its hint names a form and the numbers fit it: a
  value and a temperature for a discrete point, as many coefficients as the form's arity
  otherwise. What is accepted is well formed: the form is one of the ontology's, the number
  of coefficients is its arity, and the temperature bounds are both present and in order or
  both absent.\<close>

theorem parse_correlation_accepts:
  "(parse_correlation h cs v t lo hi \<noteq> None) =
     (\<exists>f n. normalize_form_hint h = Some f \<and> map_of ARITY f = Some n \<and>
        (if f = lit ''DiscretePoint'' then v \<noteq> None \<and> t \<noteq> None
         else map_option length cs = Some n))
   \<and> pred_option (\<lambda>e. wf_equation e \<and> normalize_form_hint h = Some (form e))
       (parse_correlation h cs v t lo hi)"
  (is "?accepts \<and> ?wf")
proof
  have arity: "normalize_form_hint h = Some f \<Longrightarrow> \<exists>n. map_of ARITY f = Some n" for f
    by (auto simp: normalize_form_hint_def dest!: synonyms_have_arity split: option.splits)
  show ?accepts
    using arity by (auto simp: parse_correlation_def split: option.splits if_splits prod.splits)
  show ?wf
  proof (cases "parse_correlation h cs v t lo hi")
    case (Some e)
    then have "normalize_form_hint h = Some (form e)"
      by (auto simp: parse_correlation_def split: option.splits if_splits prod.splits)
    then show ?thesis using Some parse_correlation_wf [OF Some] by simp
  qed simp
qed

end
