(* ===== verification/Units.thy ===== *)
theory Units
  imports PyStr
begin

text \<open>
  \<open>units.py\<close>: a unit's surface form becomes the QUDT CURIE of the property it is a unit of,
  checked against the vendored allowlist and the property the value was extracted for. The
  catalog file is an argument: a property's \<open>unitCurie\<close>, the allowed IRIs and the prefix.
\<close>

section \<open>Surface forms\<close>

definition NORMALIZE_CHARS :: "(nat \<times> nat) list" where
  "NORMALIZE_CHARS = [(183, 46), (179, 51), (956, 117)]"

fun replace_chars :: "(nat \<times> nat) list \<Rightarrow> pystr \<Rightarrow> pystr" where
  "replace_chars [] s = s"
| "replace_chars ((a, b) # ps) s = replace_chars ps (replace [a] [b] s)"

definition SURFACE_FORM_TO_PROPERTY :: "(pystr \<times> pystr) list" where
  "SURFACE_FORM_TO_PROPERTY =
     [(lit ''cP'', lit ''viscosity''), (lit ''mPa.s'', lit ''viscosity''),
      (lit ''mPas'', lit ''viscosity''), (lit ''g/cm3'', lit ''density''),
      (lit ''g/cc'', lit ''density''), (lit ''mN/m'', lit ''surfaceTension''),
      (lit ''S/cm'', lit ''electricalConductivity'')]"

definition normalize_surface :: "pystr \<Rightarrow> pystr" where
  "normalize_surface surface_form = replace_chars NORMALIZE_CHARS (strip surface_form)"

section \<open>The mapper\<close>

datatype unit_reason = Unmappable | OutOfAllowlist | DimensionMismatch

fun reason_text :: "unit_reason \<Rightarrow> pystr" where
  "reason_text Unmappable = lit ''unmappable''"
| "reason_text OutOfAllowlist = lit ''out-of-allowlist''"
| "reason_text DimensionMismatch = lit ''dimension-mismatch''"

text \<open>A \<open>UnitResult\<close>: a CURIE when ok, else the reason.\<close>

type_synonym unit_result = "unit_reason + pystr"

record unit_mapper =
  properties :: "(pystr \<times> pystr option) list"
  allowed_curies :: "pystr list"

definition iri_to_curie :: "pystr \<Rightarrow> pystr \<Rightarrow> pystr" where
  "iri_to_curie iri unit_prefix =
     (if starts_with unit_prefix iri then lit ''unit:'' @ drop (length unit_prefix) iri else iri)"

definition make_unit_mapper ::
    "(pystr \<times> pystr option) list \<Rightarrow> pystr list \<Rightarrow> pystr option \<Rightarrow> unit_mapper" where
  "make_unit_mapper props allowed_units declared =
     (let unit_prefix = (case declared of None \<Rightarrow> lit ''http://qudt.org/vocab/unit/'' | Some p \<Rightarrow> p)
      in \<lparr>properties = props,
          allowed_curies = map (\<lambda>iri. iri_to_curie iri unit_prefix) allowed_units\<rparr>)"

definition canonical_unit_curie_for :: "unit_mapper \<Rightarrow> pystr \<Rightarrow> pystr option" where
  "canonical_unit_curie_for um property_name = (case map_of (properties um) property_name of
       None \<Rightarrow> None | Some entry \<Rightarrow> entry)"

definition is_allowed :: "unit_mapper \<Rightarrow> pystr \<Rightarrow> bool" where
  "is_allowed um unit_curie \<longleftrightarrow> unit_curie \<in> set (allowed_curies um)"

definition resolve :: "unit_mapper \<Rightarrow> pystr \<Rightarrow> pystr \<Rightarrow> unit_result" where
  "resolve um surface_form property_name =
     (case map_of SURFACE_FORM_TO_PROPERTY (normalize_surface surface_form) of
        None \<Rightarrow> Inl Unmappable
      | Some mapped_property \<Rightarrow>
          (case canonical_unit_curie_for um mapped_property of
             None \<Rightarrow> Inl Unmappable
           | Some unit_curie \<Rightarrow>
               if \<not> is_allowed um unit_curie then Inl OutOfAllowlist
               else (case canonical_unit_curie_for um property_name of
                  None \<Rightarrow> Inl DimensionMismatch
                | Some expected \<Rightarrow>
                    if unit_curie \<noteq> expected then Inl DimensionMismatch else Inr unit_curie)))"

section \<open>The contract other components use\<close>

locale unit_resolver =
  fixes res :: "pystr \<Rightarrow> pystr \<Rightarrow> unit_result"
    and canonical :: "pystr \<Rightarrow> pystr option"
    and allowed :: "pystr \<Rightarrow> bool"
  assumes resolved_canonical: "res u p = Inr c \<Longrightarrow> canonical p = Some c"
    and resolved_allowed: "res u p = Inr c \<Longrightarrow> allowed c"
begin

lemma resolved_unique: "res u p = Inr c \<Longrightarrow> res u' p = Inr c' \<Longrightarrow> c = c'"
  using resolved_canonical [of u p c] resolved_canonical [of u' p c'] by simp

lemma unresolvable: "canonical p = None \<Longrightarrow> \<exists>r. res u p = Inl r"
  using resolved_canonical [of u p] by (cases "res u p") auto

end

interpretation qudt: unit_resolver "resolve um" "canonical_unit_curie_for um" "is_allowed um" for um
  by unfold_locales (auto simp: resolve_def split: option.splits if_splits)

section \<open>Properties\<close>

definition surface_property :: "pystr \<Rightarrow> pystr option" where
  "surface_property s = map_of SURFACE_FORM_TO_PROPERTY (normalize_surface s)"

lemma resolve_Inr:
  "resolve um s p = Inr c \<longleftrightarrow>
     canonical_unit_curie_for um p = Some c \<and> is_allowed um c \<and>
     (\<exists>q. surface_property s = Some q \<and> canonical_unit_curie_for um q = Some c)"
  by (auto simp: resolve_def surface_property_def split: option.splits if_splits)

text \<open>Dimensional soundness: when no two properties of the catalog share a canonical unit, a
  surface form resolves for a property exactly when the form names a unit of that very property
  and its canonical unit is on the allowlist; so a viscosity unit given for a density is never
  accepted.\<close>

theorem resolve_dimension_sound:
  assumes "\<And>p q c. canonical_unit_curie_for um p = Some c \<Longrightarrow>
      canonical_unit_curie_for um q = Some c \<Longrightarrow> p = q"
  shows "resolve um s p = Inr c \<longleftrightarrow>
     surface_property s = Some p \<and> canonical_unit_curie_for um p = Some c \<and> is_allowed um c"
  using assms by (auto simp: resolve_Inr)

text \<open>The catalog vendored in \<open>ontology/qudt-units.json\<close>.\<close>

definition qudt_units :: unit_mapper where
  "qudt_units = make_unit_mapper
     [(lit ''density'', Some (lit ''unit:GM-PER-CentiM3'')),
      (lit ''viscosity'', Some (lit ''unit:MilliPA-SEC'')),
      (lit ''surfaceTension'', Some (lit ''unit:MilliN-PER-M'')),
      (lit ''electricalConductivity'', Some (lit ''unit:S-PER-CentiM''))]
     [lit ''http://qudt.org/vocab/unit/GM-PER-CentiM3'',
      lit ''http://qudt.org/vocab/unit/MilliPA-SEC'',
      lit ''http://qudt.org/vocab/unit/MilliN-PER-M'',
      lit ''http://qudt.org/vocab/unit/S-PER-CentiM'']
     (Some (lit ''http://qudt.org/vocab/unit/''))"

lemma qudt_units_injective:
  "canonical_unit_curie_for qudt_units p = Some c \<Longrightarrow>
   canonical_unit_curie_for qudt_units q = Some c \<Longrightarrow> p = q"
  by (auto simp: qudt_units_def make_unit_mapper_def canonical_unit_curie_for_def Let_def split: if_splits)

lemma normalize_middle_dot:
  "normalize_surface (lit '' mPa'' @ 183 # lit ''s '') = lit ''mPa.s''"
  by code_simp

theorem resolve_dimension_sound_witness:
  "resolve qudt_units (lit '' mPa'' @ 183 # lit ''s '') (lit ''viscosity'') = Inr (lit ''unit:MilliPA-SEC'')
   \<and> resolve qudt_units (lit '' mPa'' @ 183 # lit ''s '') (lit ''density'') \<noteq> Inr (lit ''unit:MilliPA-SEC'')"
proof -
  have s: "surface_property (lit '' mPa'' @ 183 # lit ''s '') = Some (lit ''viscosity'')"
    by (simp add: surface_property_def normalize_middle_dot SURFACE_FORM_TO_PROPERTY_def)
  have c: "canonical_unit_curie_for qudt_units (lit ''viscosity'') = Some (lit ''unit:MilliPA-SEC'')"
    by (simp add: qudt_units_def make_unit_mapper_def canonical_unit_curie_for_def Let_def)
  have a: "is_allowed qudt_units (lit ''unit:MilliPA-SEC'')"
    by code_simp
  show ?thesis
    using s c a by (simp add: resolve_dimension_sound [OF qudt_units_injective])
qed

end
