(* ===== verification/Relations.thy ===== *)
theory Relations
  imports PyJson Equations Units
begin

text \<open>
  \<open>relations.py\<close>, first half: the data of the extraction step and \<open>validate_relation\<close>,
  the gate every relation proposed by the language model passes before it can be written. The
  model's reply is a parsed JSON value; every field is checked here. The known sets come from
  the graph, the unit mapper is used through its \<open>resolve\<close>.
\<close>

section \<open>Reasons\<close>

definition REASON_BELOW_THRESHOLD :: pystr where "REASON_BELOW_THRESHOLD = lit ''below-threshold''"
definition REASON_SALT_NOT_COMPOSED :: pystr where "REASON_SALT_NOT_COMPOSED = lit ''salt-not-composed''"
definition REASON_UNKNOWN_PROPERTY :: pystr where "REASON_UNKNOWN_PROPERTY = lit ''unknown-property''"
definition REASON_UNKNOWN_SALT :: pystr where "REASON_UNKNOWN_SALT = lit ''unknown-salt''"
definition REASON_UNKNOWN_ROLE :: pystr where "REASON_UNKNOWN_ROLE = lit ''unknown-role''"
definition REASON_EQUATION_PARSE :: pystr where "REASON_EQUATION_PARSE = lit ''equation-parse''"
definition REASON_REACTOR_NOT_GROUNDED :: pystr where
  "REASON_REACTOR_NOT_GROUNDED = lit ''reactor-not-grounded''"
definition REASON_MALFORMED_RELATION :: pystr where
  "REASON_MALFORMED_RELATION = lit ''malformed-relation''"
definition REASON_DUPLICATE_LOCATOR :: pystr where
  "REASON_DUPLICATE_LOCATOR = lit ''duplicate-locator''"
definition REASON_UNKNOWN_SAFETY_FUNCTION :: pystr where
  "REASON_UNKNOWN_SAFETY_FUNCTION = lit ''unknown-safety-function''"
definition REASON_UNKNOWN_REQUIREMENT :: pystr where
  "REASON_UNKNOWN_REQUIREMENT = lit ''unknown-requirement''"

lemmas reason_defs =
  REASON_BELOW_THRESHOLD_def REASON_SALT_NOT_COMPOSED_def REASON_UNKNOWN_PROPERTY_def
  REASON_UNKNOWN_SALT_def REASON_UNKNOWN_ROLE_def REASON_EQUATION_PARSE_def
  REASON_REACTOR_NOT_GROUNDED_def REASON_MALFORMED_RELATION_def REASON_DUPLICATE_LOCATOR_def
  REASON_UNKNOWN_SAFETY_FUNCTION_def REASON_UNKNOWN_REQUIREMENT_def

section \<open>Data\<close>

text \<open>Where a relation was read: shared by sentences, payloads and trace records.\<close>

record site =
  report :: pystr
  seg_index :: int
  char_start :: int
  char_end :: int

record linked_mention =
  surface_form :: pystr
  target_iri :: pystr
  target_kind :: pystr

record selected_sentence = site +
  sentence_text :: pystr
  linked_mentions :: "linked_mention list"

record known_sets =
  molten_salts :: "pystr set"
  physical_properties :: "pystr set"
  salt_roles :: "pystr set"
  reactor_concepts :: "pystr set"
  safety_functions :: "pystr set"
  requirements :: "pystr set"

record validated = site +
  confidence :: pyfloat
  rationale :: pystr

record validated_measurement = validated +
  vm_salt_iri :: pystr
  vm_property_iri :: pystr
  vm_property_name :: pystr
  vm_unit_curie :: pystr
  vm_equation :: equation_parse
  vm_uncertainty :: "pystr option"

record validated_role = validated +
  vr_salt_iri :: pystr
  vr_role_iri :: pystr

record validated_reactor = validated +
  vx_salt_iri :: pystr
  vx_reactor_concept_iri :: pystr
  vx_reactor_label :: pystr

record validated_served_by = validated +
  vs_safety_function_iri :: pystr
  vs_property_iri :: pystr
  vs_standard_name :: "pystr option"

record validated_addresses = validated +
  va_requirement_iri :: pystr
  va_safety_function_iri :: pystr
  va_standard_name :: "pystr option"
  va_threshold_value :: "pyfloat option"
  va_threshold_comparator :: "pystr option"
  va_threshold_unit :: "pystr option"

datatype payload =
    PMeasurement validated_measurement
  | PRole validated_role
  | PReactor validated_reactor
  | PServedBy validated_served_by
  | PAddresses validated_addresses

datatype disposition = Written | Rejected | Skipped

record relation_record = site +
  relation_kind :: pystr
  rr_salt_iri :: "pystr option"
  rr_property_iri :: "pystr option"
  rr_role_iri :: "pystr option"
  rr_reactor_iri :: "pystr option"
  rr_unit_iri :: "pystr option"
  rr_confidence :: pyfloat
  rr_rationale :: pystr
  disposition :: disposition
  reason :: pystr
  rr_safety_function_iri :: "pystr option"
  rr_requirement_iri :: "pystr option"

section \<open>Reading fields of a proposed relation\<close>

text \<open>
  \<open>float(n)\<close> of an integer literal beyond the range of a double raises; the code does not
  catch it, so these readers are fallible.
\<close>

definition finite_or_none :: "pyfloat \<Rightarrow> pyfloat option" where
  "finite_or_none f = (if is_finite f then Some f else None)"

fun to_float :: "json \<Rightarrow> pyfloat option result" where
  "to_float (JInt n) = bind_result (fl_of_int n) (\<lambda>f. Inr (finite_or_none f))"
| "to_float (JFloat f) = Inr (finite_or_none f)"
| "to_float (JStr s) = (case py_float s of None \<Rightarrow> Inr None | Some f \<Rightarrow> Inr (finite_or_none f))"
| "to_float _ = Inr None"

fun to_floats :: "json list \<Rightarrow> pyfloat list option result" where
  "to_floats [] = Inr (Some [])"
| "to_floats (j # js) = bind_result (to_float j) (\<lambda>f. case f of
     None \<Rightarrow> Inr None
   | Some x \<Rightarrow> bind_result (to_floats js) (\<lambda>r. Inr (map_option (\<lambda>xs. x # xs) r)))"

fun to_float_list :: "json \<Rightarrow> pyfloat list option result" where
  "to_float_list (JArr js) = to_floats js"
| "to_float_list _ = Inr None"

definition local_name :: "pystr \<Rightarrow> pystr" where
  "local_name iri = (if 35 \<in> set iri then after_last 35 iri else iri)"

definition VALID_THRESHOLD_COMPARATORS :: "pystr list" where
  "VALID_THRESHOLD_COMPARATORS = [lit ''lt'', lit ''lte'', lit ''gt'', lit ''gte'']"

definition to_standard_name :: "json \<Rightarrow> pystr option" where
  "to_standard_name value = (case value of
       JStr s \<Rightarrow> if strip s \<noteq> [] then Some (strip s) else None
     | _ \<Rightarrow> None)"

definition to_threshold :: "(pystr \<times> json) list \<Rightarrow>
    (pyfloat option \<times> pystr option \<times> pystr option) result" where
  "to_threshold raw = bind_result (to_float (get_field raw ''threshold_value'')) (\<lambda>threshold_value.
     let threshold_comparator = (case get_field raw ''threshold_comparator'' of
           JStr c \<Rightarrow> if c \<in> set VALID_THRESHOLD_COMPARATORS then Some c else None
         | _ \<Rightarrow> None)
     in if threshold_value = None \<or> threshold_comparator = None then Inr (None, None, None)
        else Inr (threshold_value, threshold_comparator,
          (case get_field raw ''threshold_unit'' of
             JStr u \<Rightarrow> if strip u \<noteq> [] then Some u else None
           | _ \<Rightarrow> None)))"

text \<open>A confidence that is no number, not finite or outside the unit interval counts as zero.\<close>

definition clamp_confidence :: "pyfloat \<Rightarrow> pyfloat" where
  "clamp_confidence c =
     (if \<not> is_finite c \<or> fl_lt c (Fin 0) \<or> fl_lt (Fin 1) c then Fin 0 else c)"

fun read_confidence :: "json \<Rightarrow> pyfloat result" where
  "read_confidence (JInt n) = bind_result (fl_of_int n) (\<lambda>c. Inr (clamp_confidence c))"
| "read_confidence (JFloat c) = Inr (clamp_confidence c)"
| "read_confidence _ = Inr (Fin 0)"

text \<open>A string field that counts only when it is not empty.\<close>

definition nonempty :: "pystr option \<Rightarrow> pystr option" where
  "nonempty s = (case s of Some w \<Rightarrow> if w \<noteq> [] then Some w else None | None \<Rightarrow> None)"

section \<open>The gate\<close>

definition make_record ::
    "'a site_scheme \<Rightarrow> pystr \<Rightarrow> disposition \<Rightarrow> pystr \<Rightarrow> pyfloat \<Rightarrow> pystr \<Rightarrow> relation_record" where
  "make_record s k d r c t =
     \<lparr>report = report s, seg_index = seg_index s, char_start = char_start s, char_end = char_end s,
      relation_kind = k, rr_salt_iri = None, rr_property_iri = None, rr_role_iri = None,
      rr_reactor_iri = None, rr_unit_iri = None, rr_confidence = c, rr_rationale = t,
      disposition = d, reason = r, rr_safety_function_iri = None, rr_requirement_iri = None\<rparr>"

type_synonym verdict = "payload option \<times> relation_record"

definition malformed :: "selected_sentence \<Rightarrow> pyfloat \<Rightarrow> pystr \<Rightarrow> verdict" where
  "malformed s c t = (None, make_record s (lit ''unknown'') Rejected REASON_MALFORMED_RELATION c t)"

definition validate_measurement ::
    "(pystr \<Rightarrow> pystr \<Rightarrow> unit_result) \<Rightarrow> known_sets \<Rightarrow> selected_sentence \<Rightarrow> pyfloat \<Rightarrow> pystr \<Rightarrow>
     (pystr \<times> json) list \<Rightarrow> verdict result" where
  "validate_measurement unit_resolve known s c t raw =
     (case (as_str (get_field raw ''salt''), as_str (get_field raw ''property''),
            as_str (get_field raw ''unit'')) of
        (Some salt, Some prop, Some u) \<Rightarrow>
          (let rec = (\<lambda>d r. (make_record s (lit ''measurement'') d r c t)
                 \<lparr>rr_salt_iri := Some salt, rr_property_iri := Some prop\<rparr>)
           in if salt \<notin> molten_salts known then Inr (None, rec Skipped REASON_SALT_NOT_COMPOSED)
              else if prop \<notin> physical_properties known
                then Inr (None, rec Rejected REASON_UNKNOWN_PROPERTY)
              else (case unit_resolve u (local_name prop) of
                  Inl why \<Rightarrow> Inr (None, rec Rejected (lit ''unit-'' @ reason_text why))
                | Inr curie \<Rightarrow>
                    bind_result (to_float_list (get_field raw ''coefficients'')) (\<lambda>cs.
                    bind_result (to_float (get_field raw ''value'')) (\<lambda>v.
                    bind_result (to_float (get_field raw ''temperature'')) (\<lambda>temp.
                    bind_result (to_float (get_field raw ''t_min'')) (\<lambda>lo.
                    bind_result (to_float (get_field raw ''t_max'')) (\<lambda>hi.
                      case parse_correlation (as_str (get_field raw ''form_hint'')) cs v temp lo hi of
                        None \<Rightarrow> Inr (None,
                          (rec Rejected REASON_EQUATION_PARSE)\<lparr>rr_unit_iri := Some curie\<rparr>)
                      | Some eq \<Rightarrow>
                          Inr (Some (PMeasurement
                            \<lparr>report = report s, seg_index = seg_index s, char_start = char_start s,
                             char_end = char_end s, confidence = c, rationale = t,
                             vm_salt_iri = salt, vm_property_iri = prop,
                             vm_property_name = local_name prop, vm_unit_curie = curie,
                             vm_equation = eq,
                             vm_uncertainty = nonempty (as_str (get_field raw ''uncertainty''))\<rparr>),
                            (rec Written [])\<lparr>rr_unit_iri := Some curie\<rparr>))))))))
      | _ \<Rightarrow> Inr (malformed s c t))"

definition validate_role ::
    "known_sets \<Rightarrow> selected_sentence \<Rightarrow> pyfloat \<Rightarrow> pystr \<Rightarrow> (pystr \<times> json) list \<Rightarrow> verdict" where
  "validate_role known s c t raw =
     (case (as_str (get_field raw ''salt''), as_str (get_field raw ''role'')) of
        (Some salt, Some role) \<Rightarrow>
          (let rec = (\<lambda>d r. (make_record s (lit ''role'') d r c t)
                 \<lparr>rr_salt_iri := Some salt, rr_role_iri := Some role\<rparr>)
           in if salt \<notin> molten_salts known then (None, rec Rejected REASON_UNKNOWN_SALT)
              else if role \<notin> salt_roles known then (None, rec Rejected REASON_UNKNOWN_ROLE)
              else (Some (PRole
                \<lparr>report = report s, seg_index = seg_index s, char_start = char_start s,
                 char_end = char_end s, confidence = c, rationale = t,
                 vr_salt_iri = salt, vr_role_iri = role\<rparr>), rec Written []))
      | _ \<Rightarrow> malformed s c t)"

definition validate_reactor ::
    "known_sets \<Rightarrow> selected_sentence \<Rightarrow> pyfloat \<Rightarrow> pystr \<Rightarrow> (pystr \<times> json) list \<Rightarrow> verdict" where
  "validate_reactor known s c t raw =
     (case (as_str (get_field raw ''salt''), as_str (get_field raw ''reactor'')) of
        (Some salt, Some reactor) \<Rightarrow>
          (let rec = (\<lambda>d r. (make_record s (lit ''reactor'') d r c t)
                 \<lparr>rr_salt_iri := Some salt, rr_reactor_iri := Some reactor\<rparr>)
           in if salt \<notin> molten_salts known then (None, rec Rejected REASON_UNKNOWN_SALT)
              else (case find (\<lambda>m. target_iri m = reactor) (linked_mentions s) of
                  None \<Rightarrow> (None, rec Rejected REASON_REACTOR_NOT_GROUNDED)
                | Some grounding_mention \<Rightarrow>
                    if reactor \<notin> reactor_concepts known
                    then (None, rec Rejected REASON_REACTOR_NOT_GROUNDED)
                    else (Some (PReactor
                      \<lparr>report = report s, seg_index = seg_index s, char_start = char_start s,
                       char_end = char_end s, confidence = c, rationale = t,
                       vx_salt_iri = salt, vx_reactor_concept_iri = reactor,
                       vx_reactor_label = surface_form grounding_mention\<rparr>), rec Written [])))
      | _ \<Rightarrow> malformed s c t)"

definition validate_served_by ::
    "known_sets \<Rightarrow> selected_sentence \<Rightarrow> pyfloat \<Rightarrow> pystr \<Rightarrow> (pystr \<times> json) list \<Rightarrow> verdict" where
  "validate_served_by known s c t raw =
     (case (as_str (get_field raw ''safety_function''), as_str (get_field raw ''property'')) of
        (Some sf, Some prop) \<Rightarrow>
          (let rec = (\<lambda>d r. (make_record s (lit ''servedByProperty'') d r c t)
                 \<lparr>rr_safety_function_iri := Some sf, rr_property_iri := Some prop\<rparr>)
           in if sf \<notin> safety_functions known
                then (None, rec Rejected REASON_UNKNOWN_SAFETY_FUNCTION)
              else if prop \<notin> physical_properties known
                then (None, rec Rejected REASON_UNKNOWN_PROPERTY)
              else (Some (PServedBy
                \<lparr>report = report s, seg_index = seg_index s, char_start = char_start s,
                 char_end = char_end s, confidence = c, rationale = t,
                 vs_safety_function_iri = sf, vs_property_iri = prop,
                 vs_standard_name = to_standard_name (get_field raw ''standard'')\<rparr>), rec Written []))
      | _ \<Rightarrow> malformed s c t)"

definition validate_addresses ::
    "known_sets \<Rightarrow> selected_sentence \<Rightarrow> pyfloat \<Rightarrow> pystr \<Rightarrow> (pystr \<times> json) list \<Rightarrow> verdict result" where
  "validate_addresses known s c t raw =
     (case (as_str (get_field raw ''requirement''), as_str (get_field raw ''safety_function'')) of
        (Some req, Some sf) \<Rightarrow>
          (let rec = (\<lambda>d r. (make_record s (lit ''addressesFunction'') d r c t)
                 \<lparr>rr_requirement_iri := Some req, rr_safety_function_iri := Some sf\<rparr>)
           in if req \<notin> requirements known
                then Inr (None, rec Rejected REASON_UNKNOWN_REQUIREMENT)
              else if sf \<notin> safety_functions known
                then Inr (None, rec Rejected REASON_UNKNOWN_SAFETY_FUNCTION)
              else bind_result (to_threshold raw) (\<lambda>(tv, tc, tu).
                Inr (Some (PAddresses
                  \<lparr>report = report s, seg_index = seg_index s, char_start = char_start s,
                   char_end = char_end s, confidence = c, rationale = t,
                   va_requirement_iri = req, va_safety_function_iri = sf,
                   va_standard_name = to_standard_name (get_field raw ''standard''),
                   va_threshold_value = tv, va_threshold_comparator = tc,
                   va_threshold_unit = tu\<rparr>), rec Written [])))
      | _ \<Rightarrow> Inr (malformed s c t))"

definition validate_relation ::
    "(pystr \<Rightarrow> pystr \<Rightarrow> unit_result) \<Rightarrow> known_sets \<Rightarrow> pyfloat \<Rightarrow> selected_sentence \<Rightarrow> json \<Rightarrow>
     verdict result" where
  "validate_relation unit_resolve known threshold s j =
     (case j of
        JObj raw \<Rightarrow>
          bind_result (read_confidence (get_field raw ''confidence'')) (\<lambda>c.
            let t = (case as_str (get_field raw ''rationale'') of Some r \<Rightarrow> r | None \<Rightarrow> []);
                kind = as_str (get_field raw ''kind'')
            in if fl_lt c threshold then
                 Inr (None, make_record s (case kind of Some k \<Rightarrow> k | None \<Rightarrow> lit ''unknown'')
                   Skipped REASON_BELOW_THRESHOLD c t)
               else if kind = Some (lit ''measurement'') then
                 validate_measurement unit_resolve known s c t raw
               else if kind = Some (lit ''role'') then Inr (validate_role known s c t raw)
               else if kind = Some (lit ''reactor'') then Inr (validate_reactor known s c t raw)
               else if kind = Some (lit ''servedByProperty'') then
                 Inr (validate_served_by known s c t raw)
               else if kind = Some (lit ''addressesFunction'') then
                 validate_addresses known s c t raw
               else Inr (malformed s c t))
      | _ \<Rightarrow> Inr (malformed s (Fin 0) []))"

end
