(* ===== verification/Relation_Gate.thy ===== *)
theory Relation_Gate
  imports Relations PyFloat_Facts
begin

text \<open>
  What the gate of \<open>validate_relation\<close> guarantees: an accepted payload is admissible (closed
  vocabulary, canonical unit, well-formed equation, finite numbers, confidence above the
  threshold), its trace record mirrors it, everything else is traced with a reason, and the
  only exception is the integer overflow the docstring rules out.
\<close>

section \<open>Admissible payloads\<close>

definition finite_equation :: "equation_parse \<Rightarrow> bool" where
  "finite_equation e \<longleftrightarrow> list_all is_finite (coeffs e) \<and> pred_option is_finite (t_min e) \<and>
     pred_option is_finite (t_max e)"

definition confident :: "pyfloat \<Rightarrow> pyfloat \<Rightarrow> bool" where
  "confident threshold c \<longleftrightarrow> is_finite c \<and> 0 \<le> mag c \<and> mag c \<le> 1 \<and> \<not> fl_lt c threshold"

fun base :: "payload \<Rightarrow> validated" where
  "base (PMeasurement m) = validated.truncate m"
| "base (PRole r) = validated.truncate r"
| "base (PReactor r) = validated.truncate r"
| "base (PServedBy r) = validated.truncate r"
| "base (PAddresses r) = validated.truncate r"

fun closed :: "(pystr \<Rightarrow> pystr option) \<Rightarrow> (pystr \<Rightarrow> bool) \<Rightarrow> known_sets \<Rightarrow> linked_mention list \<Rightarrow>
    payload \<Rightarrow> bool" where
  "closed canonical allowed known ms (PMeasurement m) \<longleftrightarrow>
     vm_salt_iri m \<in> molten_salts known \<and> vm_property_iri m \<in> physical_properties known \<and>
     vm_property_name m = local_name (vm_property_iri m) \<and>
     canonical (vm_property_name m) = Some (vm_unit_curie m) \<and> allowed (vm_unit_curie m) \<and>
     wf_equation (vm_equation m) \<and> finite_equation (vm_equation m) \<and> vm_uncertainty m \<noteq> Some []"
| "closed canonical allowed known ms (PRole r) \<longleftrightarrow>
     vr_salt_iri r \<in> molten_salts known \<and> vr_role_iri r \<in> salt_roles known"
| "closed canonical allowed known ms (PReactor r) \<longleftrightarrow>
     vx_salt_iri r \<in> molten_salts known \<and> vx_reactor_concept_iri r \<in> reactor_concepts known \<and>
     list_ex (\<lambda>m. target_iri m = vx_reactor_concept_iri r \<and> surface_form m = vx_reactor_label r) ms"
| "closed canonical allowed known ms (PServedBy r) \<longleftrightarrow>
     vs_safety_function_iri r \<in> safety_functions known \<and>
     vs_property_iri r \<in> physical_properties known \<and> vs_standard_name r \<noteq> Some []"
| "closed canonical allowed known ms (PAddresses r) \<longleftrightarrow>
     va_requirement_iri r \<in> requirements known \<and> va_safety_function_iri r \<in> safety_functions known \<and>
     va_standard_name r \<noteq> Some [] \<and> pred_option is_finite (va_threshold_value r) \<and>
     pred_option (\<lambda>c. c \<in> set VALID_THRESHOLD_COMPARATORS) (va_threshold_comparator r) \<and>
     (va_threshold_value r = None \<longleftrightarrow> va_threshold_comparator r = None) \<and>
     (va_threshold_value r = None \<longrightarrow> va_threshold_unit r = None)"

definition admissible :: "(pystr \<Rightarrow> pystr option) \<Rightarrow> (pystr \<Rightarrow> bool) \<Rightarrow> known_sets \<Rightarrow> pyfloat \<Rightarrow>
    selected_sentence \<Rightarrow> payload \<Rightarrow> bool" where
  "admissible canonical allowed known threshold s p \<longleftrightarrow>
     site.truncate (base p) = site.truncate s \<and> confident threshold (confidence (base p)) \<and>
     closed canonical allowed known (linked_mentions s) p"

text \<open>The record an accepted payload leaves in the trace.\<close>

fun trace :: "payload \<Rightarrow> relation_record" where
  "trace (PMeasurement m) =
     (make_record m (lit ''measurement'') Written [] (confidence m) (rationale m))
       \<lparr>rr_salt_iri := Some (vm_salt_iri m), rr_property_iri := Some (vm_property_iri m),
        rr_unit_iri := Some (vm_unit_curie m)\<rparr>"
| "trace (PRole r) = (make_record r (lit ''role'') Written [] (confidence r) (rationale r))
       \<lparr>rr_salt_iri := Some (vr_salt_iri r), rr_role_iri := Some (vr_role_iri r)\<rparr>"
| "trace (PReactor r) = (make_record r (lit ''reactor'') Written [] (confidence r) (rationale r))
       \<lparr>rr_salt_iri := Some (vx_salt_iri r), rr_reactor_iri := Some (vx_reactor_concept_iri r)\<rparr>"
| "trace (PServedBy r) =
     (make_record r (lit ''servedByProperty'') Written [] (confidence r) (rationale r))
       \<lparr>rr_safety_function_iri := Some (vs_safety_function_iri r),
        rr_property_iri := Some (vs_property_iri r)\<rparr>"
| "trace (PAddresses r) =
     (make_record r (lit ''addressesFunction'') Written [] (confidence r) (rationale r))
       \<lparr>rr_requirement_iri := Some (va_requirement_iri r),
        rr_safety_function_iri := Some (va_safety_function_iri r)\<rparr>"

text \<open>Everything else is traced: a weak or ungrounded proposal is skipped, a wrong one rejected.\<close>

definition refused :: "relation_record \<Rightarrow> bool" where
  "refused r \<longleftrightarrow> (case disposition r of
      Written \<Rightarrow> False
    | Skipped \<Rightarrow> reason r \<in> {REASON_BELOW_THRESHOLD, REASON_SALT_NOT_COMPOSED}
    | Rejected \<Rightarrow> reason r \<in> {REASON_UNKNOWN_PROPERTY, REASON_UNKNOWN_SALT, REASON_UNKNOWN_ROLE,
          REASON_EQUATION_PARSE, REASON_REACTOR_NOT_GROUNDED, REASON_MALFORMED_RELATION,
          REASON_UNKNOWN_SAFETY_FUNCTION, REASON_UNKNOWN_REQUIREMENT} \<or>
        (\<exists>w. reason r = lit ''unit-'' @ reason_text w))"

lemma trace_simps [simp]:
  "disposition (trace p) = Written" "reason (trace p) = []"
  "site.truncate (trace p) = site.truncate (base p)"
  by (cases p; simp add: make_record_def site.truncate_def validated.truncate_def)+

lemma not_refused_trace [simp]: "\<not> refused (trace p)"
  by (simp add: refused_def)

section \<open>The readers\<close>

lemma to_float_finite [gate_dests]: "to_float j = Inr (Some f) \<Longrightarrow> is_finite f"
  by (induction j rule: to_float.induct)
    (auto simp: bind_result_eq_Inr finite_or_none_def split: if_splits option.splits)

lemma to_floats_finite: "to_floats js = Inr (Some fs) \<Longrightarrow> list_all is_finite fs"
  by (induction js arbitrary: fs)
    (simp, auto simp: bind_result_eq_Inr split: option.splits, rule to_float_finite)

lemma to_float_list_finite [gate_dests]: "to_float_list j = Inr (Some fs) \<Longrightarrow> list_all is_finite fs"
  by (cases j) (auto dest: to_floats_finite)

lemma clamp_confidence_unit:
  "is_finite (clamp_confidence c) \<and> 0 \<le> mag (clamp_confidence c) \<and> mag (clamp_confidence c) \<le> 1"
  by (cases c) (auto simp: clamp_confidence_def)

lemma read_confidence_unit:
  "read_confidence j = Inr c \<Longrightarrow> is_finite c \<and> 0 \<le> mag c \<and> mag c \<le> 1"
  using clamp_confidence_unit
  by (induction j rule: read_confidence.induct) (auto simp: bind_result_eq_Inr)

lemma to_standard_name_nonempty [simp]: "to_standard_name j \<noteq> Some []"
  by (simp add: to_standard_name_def split: json.splits)

lemma resolve_temp_range_cases:
  "resolve_temp_range lo hi \<in> {(lo, hi), (hi, lo), (None, None)}"
  by (auto simp: resolve_temp_range_def split: option.splits)

lemma parse_correlation_finite:
  assumes "parse_correlation h cs v t lo hi = Some e"
    and "pred_option (list_all is_finite) cs" "pred_option is_finite v" "pred_option is_finite t"
    and "pred_option is_finite lo" "pred_option is_finite hi"
  shows "finite_equation e"
  using assms resolve_temp_range_cases [of lo hi]
  by (auto simp: parse_correlation_def finite_equation_def
      split: option.splits if_splits prod.splits)

lemma to_threshold_shape:
  assumes "to_threshold raw = Inr (v, c, u)"
  shows "pred_option is_finite v \<and> pred_option (\<lambda>c. c \<in> set VALID_THRESHOLD_COMPARATORS) c \<and>
    (v = None \<longleftrightarrow> c = None) \<and> (v = None \<longrightarrow> u = None)"
  using assms
  by (auto simp: to_threshold_def bind_result_eq_Inr Let_def dest: to_float_finite
      split: json.splits if_splits)

section \<open>Each kind of relation\<close>

lemma reason_nonempty [simp]:
  "REASON_BELOW_THRESHOLD \<noteq> []" "REASON_SALT_NOT_COMPOSED \<noteq> []" "REASON_UNKNOWN_PROPERTY \<noteq> []"
  "REASON_UNKNOWN_SALT \<noteq> []" "REASON_UNKNOWN_ROLE \<noteq> []" "REASON_EQUATION_PARSE \<noteq> []"
  "REASON_REACTOR_NOT_GROUNDED \<noteq> []" "REASON_MALFORMED_RELATION \<noteq> []"
  "REASON_DUPLICATE_LOCATOR \<noteq> []" "REASON_UNKNOWN_SAFETY_FUNCTION \<noteq> []"
  "REASON_UNKNOWN_REQUIREMENT \<noteq> []" "lit ''unit-'' @ r \<noteq> []"
  by (simp_all add: reason_defs lit_def)

definition verdict_ok :: "(pystr \<Rightarrow> pystr option) \<Rightarrow> (pystr \<Rightarrow> bool) \<Rightarrow> known_sets \<Rightarrow> selected_sentence \<Rightarrow>
    pyfloat \<Rightarrow> verdict \<Rightarrow> bool" where
  "verdict_ok canonical allowed known s c v = (site.truncate (snd v) = site.truncate s \<and>
     (case fst v of
       None \<Rightarrow> refused (snd v)
     | Some p \<Rightarrow> snd v = trace p \<and> confidence (base p) = c \<and>
         site.truncate (base p) = site.truncate s \<and>
         closed canonical allowed known (linked_mentions s) p))"

lemmas verdict_unfold =
  verdict_ok_def malformed_def refused_def make_record_def site.truncate_def validated.truncate_def

lemma malformed_ok: "verdict_ok canonical allowed known s c (malformed s c' t)"
  by (simp add: verdict_unfold)

lemma validate_role_ok: "verdict_ok canonical allowed known s c (validate_role known s c t raw)"
  by (auto simp: validate_role_def Let_def verdict_unfold split: option.splits)

lemma validate_reactor_ok:
  "verdict_ok canonical allowed known s c (validate_reactor known s c t raw)"
  by (auto simp: validate_reactor_def Let_def verdict_unfold find_Some_iff list_ex_iff
      split: option.splits)

lemma validate_served_by_ok:
  "verdict_ok canonical allowed known s c (validate_served_by known s c t raw)"
  by (auto simp: validate_served_by_def Let_def verdict_unfold split: option.splits)

lemma validate_addresses_ok:
  assumes "validate_addresses known s c t raw = Inr v"
  shows "verdict_ok canonical allowed known s c v"
proof (cases "to_threshold raw")
  case (Inl e)
  then show ?thesis using assms
    by (auto simp: validate_addresses_def Let_def verdict_unfold split: option.splits if_splits)
next
  case (Inr b)
  obtain tv tc tu where b: "b = (tv, tc, tu)" by (cases b) auto
  note shape = to_threshold_shape [OF Inr [unfolded b]]
  show ?thesis using assms shape Inr b
    by (auto simp: validate_addresses_def Let_def verdict_unfold split: option.splits if_splits)
qed

context unit_resolver begin

lemma accepted_measurement_ok:
  assumes res: "res u (local_name pr) = Inr curie"
    and known: "salt \<in> molten_salts known" "pr \<in> physical_properties known"
    and floats: "to_float_list jc = Inr cs" "to_float jv = Inr v" "to_float jt = Inr temp"
      "to_float jl = Inr lo" "to_float jh = Inr hi"
    and eq: "parse_correlation h cs v temp lo hi = Some eq"
    and m: "site.truncate m = site.truncate s" "confidence m = c"
      "vm_salt_iri m = salt" "vm_property_iri m = pr" "vm_property_name m = local_name pr"
      "vm_unit_curie m = curie" "vm_equation m = eq" "vm_uncertainty m \<noteq> Some []"
  shows "verdict_ok canonical allowed known s c (Some (PMeasurement m), trace (PMeasurement m))"
proof -
  have fin: "to_float j = Inr x \<Longrightarrow> pred_option is_finite x" for j x
    by (cases x) (auto intro: to_float_finite)
  have "pred_option (list_all is_finite) cs"
    using floats(1) by (cases cs) (auto intro: to_float_list_finite)
  then have "finite_equation eq"
    using parse_correlation_finite [OF eq] fin floats(2-5) by blast
  then show ?thesis
    using resolved_canonical [OF res] resolved_allowed [OF res] parse_correlation_wf [OF eq] known m
    by (auto simp: verdict_ok_def validated.truncate_def site.truncate_def make_record_def)
qed

lemma validate_measurement_ok:
  assumes v: "validate_measurement res known s c t raw = Inr v"
  shows "verdict_ok canonical allowed known s c v"
proof (cases "fst v")
  case None
  then show ?thesis using assms
    by (auto simp: validate_measurement_def Let_def bind_result_eq_Inr verdict_unfold
        split: option.splits if_splits sum.splits)
next
  case (Some p)
  obtain salt pr u where strs: "as_str (get_field raw ''salt'') = Some salt"
      "as_str (get_field raw ''property'') = Some pr" "as_str (get_field raw ''unit'') = Some u"
    using v Some by (auto simp: validate_measurement_def malformed_def split: option.splits)
  then have known: "salt \<in> molten_salts known" "pr \<in> physical_properties known"
    using v Some by (auto simp: validate_measurement_def Let_def split: if_splits)
  obtain curie where res: "res u (local_name pr) = Inr curie"
    using v Some strs known by (auto simp: validate_measurement_def Let_def split: sum.splits)
  obtain cs x temp lo hi where floats: "to_float_list (get_field raw ''coefficients'') = Inr cs"
      "to_float (get_field raw ''value'') = Inr x" "to_float (get_field raw ''temperature'') = Inr temp"
      "to_float (get_field raw ''t_min'') = Inr lo" "to_float (get_field raw ''t_max'') = Inr hi"
    using v strs known res by (auto simp: validate_measurement_def Let_def bind_result_eq_Inr)
  obtain eq where eq: "parse_correlation (as_str (get_field raw ''form_hint'')) cs x temp lo hi = Some eq"
    using v Some strs known res floats
    by (auto simp: validate_measurement_def Let_def split: option.splits)
  let ?m = "\<lparr>report = report s, seg_index = seg_index s, char_start = char_start s,
    char_end = char_end s, confidence = c, rationale = t, vm_salt_iri = salt, vm_property_iri = pr,
    vm_property_name = local_name pr, vm_unit_curie = curie, vm_equation = eq,
    vm_uncertainty = nonempty (as_str (get_field raw ''uncertainty''))\<rparr> :: validated_measurement"
  have "v = (Some (PMeasurement ?m), trace (PMeasurement ?m))"
    using v strs known res floats eq
    by (simp add: validate_measurement_def Let_def make_record_def)
  moreover have "verdict_ok canonical allowed known s c (Some (PMeasurement ?m), trace (PMeasurement ?m))"
    by (rule accepted_measurement_ok [OF res known floats eq])
      (simp_all add: site.truncate_def nonempty_def split: option.splits)
  ultimately show ?thesis by simp
qed

theorem gate_ok:
  assumes "validate_relation res known threshold s j = Inr (p, r)"
  shows "(case p of None \<Rightarrow> refused r
    | Some q \<Rightarrow> r = trace q \<and> admissible canonical allowed known threshold s q) \<and>
    site.truncate r = site.truncate s"
proof -
  have "verdict_ok canonical allowed known s c (p, r) \<and> (p \<noteq> None \<longrightarrow> confident threshold c) \<Longrightarrow>
      ?thesis" for c
    by (auto simp: verdict_ok_def admissible_def split: option.splits)
  moreover have "\<exists>c. verdict_ok canonical allowed known s c (p, r) \<and>
      (p \<noteq> None \<longrightarrow> confident threshold c)"
  proof (cases j)
    case (JObj raw)
    obtain c where c: "read_confidence (get_field raw ''confidence'') = Inr c"
      using assms JObj by (auto simp: validate_relation_def bind_result_eq_Inr)
    note unit = read_confidence_unit [OF c]
    show ?thesis
    proof (cases "fl_lt c threshold")
      case True
      then have "verdict_ok canonical allowed known s c (p, r) \<and> p = None"
        using assms JObj c by (auto simp: validate_relation_def Let_def verdict_unfold)
      then show ?thesis by blast
    next
      case False
      then have "verdict_ok canonical allowed known s c (p, r)"
        using assms JObj c validate_measurement_ok validate_addresses_ok
        by (auto simp: validate_relation_def Let_def malformed_ok split: if_splits)
          (metis malformed_ok validate_role_ok validate_reactor_ok validate_served_by_ok)+
      then show ?thesis using False unit by (auto simp: confident_def)
    qed
  qed (use assms in \<open>auto simp: validate_relation_def verdict_unfold\<close>)
  ultimately show ?thesis by blast
qed

end

section \<open>Errors\<close>

fun json_has_huge :: "json \<Rightarrow> bool" where
  "json_has_huge (JInt n) \<longleftrightarrow> huge_int n"
| "json_has_huge (JArr js) \<longleftrightarrow> list_ex json_has_huge js"
| "json_has_huge (JObj d) \<longleftrightarrow> list_ex (\<lambda>kv. json_has_huge (snd kv)) d"
| "json_has_huge _ \<longleftrightarrow> False"

lemma get_field_huge: "json_has_huge (get_field raw k) \<Longrightarrow> json_has_huge (JObj raw)"
  by (force simp: get_field_def list_ex_iff split: option.splits dest!: map_of_SomeD)

lemma to_float_Inl: "to_float j = Inl e \<Longrightarrow> e = OverflowError \<and> json_has_huge j"
  by (induction j rule: to_float.induct) (auto simp: bind_result_eq_Inl fl_of_int_Inl split: option.splits)

lemma to_floats_Inl: "to_floats js = Inl e \<Longrightarrow> e = OverflowError \<and> list_ex json_has_huge js"
  by (induction js) (auto simp: bind_result_eq_Inl split: option.splits dest: to_float_Inl)

lemma to_float_list_Inl: "to_float_list j = Inl e \<Longrightarrow> e = OverflowError \<and> json_has_huge j"
  by (cases j) (auto dest: to_floats_Inl)

lemma read_confidence_Inl: "read_confidence j = Inl e \<Longrightarrow> e = OverflowError \<and> json_has_huge j"
  by (induction j rule: read_confidence.induct) (auto simp: bind_result_eq_Inl fl_of_int_Inl)

lemmas reader_Inl = to_float_Inl to_float_list_Inl read_confidence_Inl

lemma validate_relation_Inl:
  assumes "validate_relation ur known threshold s j = Inl e"
  shows "e = OverflowError \<and> json_has_huge j"
proof (cases j)
  case (JObj raw)
  have read: "to_float (get_field raw k) = Inl e \<or> to_float_list (get_field raw k) = Inl e \<or>
      read_confidence (get_field raw k) = Inl e \<Longrightarrow> ?thesis" for k
    unfolding JObj by (meson reader_Inl get_field_huge)
  have threshold: "to_threshold raw = Inl e \<Longrightarrow> ?thesis"
    by (rule read [of "''threshold_value''"]) (auto simp: to_threshold_def bind_result_eq_Inl Let_def split: if_splits)
  have addresses: "validate_addresses known s c t raw = Inl e \<Longrightarrow> ?thesis" for c t
    by (rule threshold)
      (auto simp: validate_addresses_def Let_def bind_result_eq_Inl split: option.splits if_splits prod.splits)
  have measurement: "validate_measurement ur known s c t raw = Inl e \<Longrightarrow> ?thesis" for c t
  proof (rule exE [where P = "\<lambda>k. to_float (get_field raw k) = Inl e \<or>
      to_float_list (get_field raw k) = Inl e \<or> read_confidence (get_field raw k) = Inl e"])
    assume "validate_measurement ur known s c t raw = Inl e"
    then show "\<exists>k. to_float (get_field raw k) = Inl e \<or> to_float_list (get_field raw k) = Inl e \<or>
        read_confidence (get_field raw k) = Inl e"
      by (auto simp: validate_measurement_def Let_def bind_result_eq_Inl
          split: option.splits if_splits sum.splits)
  qed (rule read)
  show ?thesis using assms read [of "''confidence''"] addresses measurement
    unfolding validate_relation_def JObj json.simps Let_def
    by (fastforce simp: bind_result_eq_Inl split: if_splits)
qed (use assms in \<open>auto simp: validate_relation_def\<close>)

section \<open>Properties\<close>

text \<open>C2. Soundness of the extraction gate: a relation that the model proposed and the gate
  accepted is admissible. Its confidence is a finite number of the unit interval not below the
  threshold; every IRI it names is in the closed set of its kind, read from the graph; a
  measurement's unit is the canonical unit of its property and on the allowlist, its equation
  has a known form with the right number of finite coefficients and ordered bounds; a
  reactor is grounded in a mention linked in the same sentence; a threshold has a value and a
  valid comparator or neither. The trace record is marked written and mirrors the payload.\<close>

theorem validate_relation_sound:
  assumes "validate_relation (resolve um) known threshold s j = Inr (Some p, r)"
  shows "admissible (canonical_unit_curie_for um) (is_allowed um) known threshold s p
    \<and> r = trace p \<and> disposition r = Written \<and> reason r = []"
  using qudt.gate_ok [OF assms] by simp

definition sample_known :: known_sets where
  "sample_known = \<lparr>molten_salts = {lit ''m#FLiBe''}, physical_properties = {lit ''m#density''},
     salt_roles = {}, reactor_concepts = {}, safety_functions = {}, requirements = {}\<rparr>"

definition sample_sentence :: selected_sentence where
  "sample_sentence = \<lparr>report = lit ''ORNL-1'', seg_index = 3, char_start = 10, char_end = 42,
     sentence_text = lit ''rho = 2.25'',
     linked_mentions = [\<lparr>surface_form = lit ''FLiBe'', target_iri = lit ''m#FLiBe'',
       target_kind = lit ''salt''\<rparr>]\<rparr>"

definition sample_json :: json where
  "sample_json = JObj [(lit ''kind'', JStr (lit ''measurement'')), (lit ''salt'', JStr (lit ''m#FLiBe'')),
     (lit ''property'', JStr (lit ''m#density'')), (lit ''unit'', JStr (lit ''g/cm3'')),
     (lit ''form_hint'', JStr (lit '' Discrete'')), (lit ''value'', JFloat (Fin (9 / 4))),
     (lit ''temperature'', JFloat (Fin 900)), (lit ''confidence'', JFloat (Fin (15 / 16)))]"

lemma sample_accepted:
  "\<exists>p r. validate_relation (resolve qudt_units) sample_known (Fin (3 / 4)) sample_sentence sample_json =
     Inr (Some p, r)"
proof -
  have a: "normalize_surface (lit ''g/cm3'') = lit ''g/cm3''" by code_simp
  have b: "local_name (lit ''m#density'') = lit ''density''" by code_simp
  have "lower_ascii (strip (lit '' Discrete'')) = lit ''discrete''" 
    by (simp add: lower_ascii_def lower_char_def lit_def strip_def strip_by_def is_space_def is_upper_def)
  then have c: "normalize_form_hint (Some (lit '' Discrete'')) = Some (lit ''DiscretePoint'')"
    by (simp add: normalize_form_hint_def FORM_SYNONYMS_def)
  have d: "resolve qudt_units (lit ''g/cm3'') (lit ''density'') = Inr (lit ''unit:GM-PER-CentiM3'')"
  proof -
    have "is_allowed qudt_units (lit ''unit:GM-PER-CentiM3'')" by code_simp
    moreover have "canonical_unit_curie_for qudt_units (lit ''density'') = Some (lit ''unit:GM-PER-CentiM3'')"
      by (simp add: qudt_units_def make_unit_mapper_def canonical_unit_curie_for_def Let_def)
    ultimately show ?thesis
      using a by (simp add: resolve_Inr surface_property_def SURFACE_FORM_TO_PROPERTY_def)
  qed
  show ?thesis
   by (simp add: sample_json_def validate_relation_def sample_known_def sample_sentence_def get_field_def
     validate_measurement_def Let_def b c d parse_correlation_def finite_or_none_def clamp_confidence_def)
qed

theorem validate_relation_sound_witness:
  "\<exists>p. admissible (canonical_unit_curie_for qudt_units) (is_allowed qudt_units) sample_known
      (Fin (3 / 4)) sample_sentence p \<and>
     validate_relation (resolve qudt_units) sample_known (Fin (3 / 4)) sample_sentence sample_json
       = Inr (Some p, trace p)"
  using sample_accepted validate_relation_sound by blast

text \<open>C6. Nothing is dropped silently: every proposal gets exactly one trace record at the
  sentence's location. Without a payload the record is skipped (weak confidence, salt not
  composed) or rejected with one of the documented reasons, with a payload it is written. The
  only exception is an overflow, and it takes an integer beyond the range of a double
  somewhere in the model's reply.\<close>

theorem validate_relation_total:
  "case validate_relation (resolve um) known threshold s j of
     Inl e \<Rightarrow> e = OverflowError \<and> json_has_huge j
   | Inr (p, r) \<Rightarrow> site.truncate r = site.truncate s \<and> (p = None) = refused r \<and>
       (p = None) = (disposition r \<noteq> Written)"
proof (cases "validate_relation (resolve um) known threshold s j")
  case (Inl e)
  then show ?thesis using validate_relation_Inl by fastforce
next
  case (Inr v)
  obtain p r where v: "v = (p, r)" by (cases v)
  show ?thesis using qudt.gate_ok [OF Inr [unfolded v]] unfolding Inr v
    by (auto simp: refused_def split: option.splits)
qed

text \<open>The docstring's "never raises" does not hold: a reply whose confidence is the integer
  \<open>2\<^sup>1\<^sup>0\<^sup>2\<^sup>4\<close>, valid JSON, makes \<open>float()\<close> raise \<open>OverflowError\<close> out of the gate,
  whatever the sentence, the known sets and the threshold.\<close>

theorem validate_relation_overflow:
  "validate_relation ur known threshold s (JObj [(lit ''confidence'', JInt (2 ^ 1024))])
     = Inl OverflowError"
proof -
  have "(2::rat) ^ 1024 \<le> round_rat (2 ^ 1024)"
    using round_rat_ge_power [of 1024 "2 ^ 1024"] by simp
  then have "fl_of_int (2 ^ 1024) = Inl OverflowError"
    by (simp add: fl_of_int_def Let_def)
  then show ?thesis by (simp add: validate_relation_def get_field_def)
qed

lemma nonempty_cases: "nonempty s \<noteq> Some []"
  by (simp add: nonempty_def split: option.splits)

text \<open>Completeness for measurements: a proposal that passes the threshold is accepted exactly
  when its salt is a composed salt of the graph, its property a known property, its unit
  resolves for that property, all its numbers are readable and they fit the equation form;
  the payload then carries the resolved unit and the parsed equation.\<close>

theorem validate_measurement_accepts:
  "(\<exists>r. validate_measurement ur known s c t raw = Inr (Some p, r)) =
   (\<exists>salt pr u curie cs v temp lo hi eq.
      as_str (get_field raw ''salt'') = Some salt \<and> salt \<in> molten_salts known \<and>
      as_str (get_field raw ''property'') = Some pr \<and> pr \<in> physical_properties known \<and>
      as_str (get_field raw ''unit'') = Some u \<and> ur u (local_name pr) = Inr curie \<and>
      to_float_list (get_field raw ''coefficients'') = Inr cs \<and>
      to_float (get_field raw ''value'') = Inr v \<and>
      to_float (get_field raw ''temperature'') = Inr temp \<and>
      to_float (get_field raw ''t_min'') = Inr lo \<and> to_float (get_field raw ''t_max'') = Inr hi \<and>
      parse_correlation (as_str (get_field raw ''form_hint'')) cs v temp lo hi = Some eq \<and>
      p = PMeasurement \<lparr>report = report s, seg_index = seg_index s, char_start = char_start s,
        char_end = char_end s, confidence = c, rationale = t, vm_salt_iri = salt,
        vm_property_iri = pr, vm_property_name = local_name pr, vm_unit_curie = curie,
        vm_equation = eq, vm_uncertainty = nonempty (as_str (get_field raw ''uncertainty''))\<rparr>)"
  (is "?accepted = ?ok")
proof
  assume ?ok
  then show ?accepted by (auto simp: validate_measurement_def Let_def)
next
  assume ?accepted
  then show ?ok
    by (auto simp: validate_measurement_def malformed_def Let_def bind_result_eq_Inr
        split: option.splits if_splits sum.splits)
qed

end
