(* ===== verification/Relation_Prompt.thy ===== *)
theory Relation_Prompt
  imports Relations
begin

text \<open>
  \<open>relations.py\<close>, the side that talks to the model: which sentences are sent
  (\<open>select_sentences\<close>), the prompt of one sentence (\<open>build_user_prompt\<close>) and how the
  reply is read (\<open>extract_relations\<close>). The model client and \<open>json.loads\<close> are
  arguments; a \<open>None\<close> is the exception either of them raises.
\<close>

section \<open>Sentence selection\<close>

text \<open>
  The rows of \<open>mentions.jsonl\<close> and \<open>segments.jsonl\<close>, with the fields read here. A mention
  that is not linked has no target; its target fields are never read.
\<close>

record mention_row =
  status :: pystr
  mr_seg_index :: int
  mr_surface_form :: pystr
  mr_target_iri :: pystr
  mr_target_kind :: pystr

record segment_row =
  sr_report :: pystr
  sr_index :: int
  sr_char_start :: int
  sr_char_end :: int
  sr_text :: pystr

fun add_linked :: "mention_row \<Rightarrow> (int \<rightharpoonup> linked_mention list) \<Rightarrow> (int \<rightharpoonup> linked_mention list)" where
  "add_linked m linked_by_seg =
     (if status m \<noteq> lit ''linked'' then linked_by_seg
      else linked_by_seg(mr_seg_index m \<mapsto>
        (case linked_by_seg (mr_seg_index m) of None \<Rightarrow> [] | Some ms \<Rightarrow> ms) @
        [\<lparr>surface_form = mr_surface_form m, target_iri = mr_target_iri m,
          target_kind = mr_target_kind m\<rparr>]))"

fun select_segments :: "(int \<rightharpoonup> linked_mention list) \<Rightarrow> segment_row list \<Rightarrow> selected_sentence list" where
  "select_segments linked_by_seg [] = []"
| "select_segments linked_by_seg (seg # segs) =
     (case linked_by_seg (sr_index seg) of
        None \<Rightarrow> select_segments linked_by_seg segs
      | Some [] \<Rightarrow> select_segments linked_by_seg segs
      | Some ms \<Rightarrow>
          \<lparr>report = sr_report seg, seg_index = sr_index seg, char_start = sr_char_start seg,
           char_end = sr_char_end seg, sentence_text = sr_text seg, linked_mentions = ms\<rparr>
          # select_segments linked_by_seg segs)"

definition select_sentences :: "segment_row list \<Rightarrow> mention_row list \<Rightarrow> selected_sentence list" where
  "select_sentences segments mentions =
     sort_key seg_index (select_segments (fold add_linked mentions Map.empty) segments)"

section \<open>The prompt\<close>

definition quoted :: "pystr \<Rightarrow> pystr" where
  "quoted s = 34 # s @ [34]"

definition mentions_block :: "linked_mention list \<Rightarrow> pystr" where
  "mentions_block ms = join nl (map (\<lambda>m. lit ''  - '' @ quoted (surface_form m) @ lit '' -> '' @
     target_iri m @ lit '' ('' @ target_kind m @ lit '')'') ms)"

definition iri_lines :: "pystr list \<Rightarrow> pystr" where
  "iri_lines iris = join nl (map (\<lambda>iri. lit ''  - '' @ iri) iris)"

definition roles_block :: "pystr list \<Rightarrow> pystr" where
  \<open>roles_block roles_sorted =
     (if roles_sorted = [] then []
      else concat [lit ''Valid salt-role IRIs (a "role" relation's "role" value MUST be '',
        lit ''exactly one of these -- they are seed individuals, NOT in the '',
        lit ''mention list above):'', nl, iri_lines roles_sorted, nl, nl])\<close>

definition safety_block :: "pystr list \<Rightarrow> pystr list \<Rightarrow> pystr" where
  \<open>safety_block safety_functions_sorted requirements_sorted =
     (if safety_functions_sorted = [] \<and> requirements_sorted = [] then []
      else join nl
        ((if safety_functions_sorted = [] then []
          else [concat [lit ''Valid msr:SafetyFunction IRIs (a "servedByProperty" relation's '',
            lit ''"safety_function" value, or an "addressesFunction" relation's '',
            lit ''"safety_function" value, MUST be exactly one of these):'', nl,
            iri_lines safety_functions_sorted]]) @
         (if requirements_sorted = [] then []
          else [concat [lit ''Valid msr:Requirement IRIs (an "addressesFunction" relation's '',
            lit ''"requirement" value MUST be exactly one of these):'', nl,
            iri_lines requirements_sorted]])) @ nl @ nl)\<close>

definition PROMPT_TASK :: pystr where
  \<open>PROMPT_TASK = concat [
      lit ''Extract property-measurement, salt-role, salt-reactor, '',
      lit ''safety-function-served-by-property, and requirement-addresses-function '',
      lit ''relations from the following sentence, using only IRIs from the known entities '',
      lit ''and this sentence's already-linked mentions above -- never invent a new IRI.'', nl, nl,
      lit ''Only propose a "servedByProperty" relation when the sentence explicitly states '',
      lit ''that the safety function depends on, is served by, or requires the property -- '',
      lit ''a sentence that merely names both a safety function and a property in the same '',
      lit ''breath, with no stated dependency between them, asserts NO relation for that '',
      lit ''pair (co-mention is not a dependency). The same rule applies to '',
      lit ''"addressesFunction": only propose it when the sentence states that the '',
      lit ''requirement addresses/serves the safety function.'', nl, nl]\<close>

definition PROMPT_SHAPE :: pystr where
  \<open>PROMPT_SHAPE = concat [
      nl, nl,
      lit ''Respond with a single json object of the shape:'', nl,
      lit ''  {"relations": ['', nl,
      lit ''    {"kind": "measurement", "salt": "<IRI>", "property": "<IRI>", "unit": "cP", '',
      lit ''"form_hint": "Arrhenius", "coefficients": [0.084, 4340], "value": null, '',
      lit ''"temperature": null, "t_min": null, "t_max": null, "uncertainty": "", '',
      lit ''"confidence": 0.92, "rationale": "..."},'', nl,
      lit ''    {"kind": "role", "salt": "<IRI>", "role": "<IRI>", "confidence": 0.8, '',
      lit ''"rationale": "..."},'', nl,
      lit ''    {"kind": "reactor", "salt": "<IRI>", "reactor": "<IRI>", "confidence": 0.9, '',
      lit ''"rationale": "..."},'', nl,
      lit ''    {"kind": "servedByProperty", "safety_function": "<IRI>", "property": '',
      lit ''"<IRI>", "confidence": 0.9, "rationale": "...", "standard": null},'', nl,
      lit ''    {"kind": "addressesFunction", "requirement": "<IRI>", "safety_function": '',
      lit ''"<IRI>", "confidence": 0.85, "rationale": "...", "standard": null, '',
      lit ''"threshold_value": null, "threshold_comparator": null, "threshold_unit": null}'', nl,
      lit ''  ]}'', nl, nl,
      lit ''"standard" is the named IAEA standard identifier (e.g. "IAEA SSR-2/1") backing '',
      lit ''a servedByProperty/addressesFunction relation's subject, only when the sentence '',
      lit ''names one, else null. "threshold_value"/"threshold_comparator" (one of '',
      lit ''"lt"/"lte"/"gt"/"gte")/"threshold_unit" are only set on an addressesFunction '',
      lit ''relation when the sentence states a numeric threshold for the requirement, else '',
      lit ''null.'', nl, nl,
      lit ''If the sentence asserts no relation, return {"relations": []}. Return only the '',
      lit ''json object, no other text.'']\<close>

definition build_user_prompt ::
    "selected_sentence \<Rightarrow> pystr list \<Rightarrow> pystr list \<Rightarrow> pystr list \<Rightarrow> pystr" where
  "build_user_prompt s role_iris safety_function_iris requirement_iris =
     PROMPT_TASK @ roles_block (sort role_iris) @
     safety_block (sort safety_function_iris) (sort requirement_iris) @
     lit ''Sentence: '' @ quoted (sentence_text s) @ nl @ nl @
     lit ''Linked mentions in this sentence:'' @ nl @ mentions_block (linked_mentions s) @ PROMPT_SHAPE"

section \<open>One call\<close>

type_synonym completer = "pystr \<Rightarrow> pystr \<Rightarrow> pystr option"
type_synonym json_loads = "pystr \<Rightarrow> json option"

definition extract_relations ::
    "json_loads \<Rightarrow> completer \<Rightarrow> pystr \<Rightarrow> selected_sentence \<Rightarrow> pystr list \<Rightarrow> pystr list \<Rightarrow> pystr list \<Rightarrow>
     json list \<times> bool" where
  "extract_relations loads ask prompt_prefix s role_iris safety_function_iris requirement_iris =
     (case ask prompt_prefix
         (build_user_prompt s role_iris safety_function_iris requirement_iris) of
        None \<Rightarrow> ([], False)
      | Some raw \<Rightarrow>
          (case loads raw of
             Some (JObj parsed) \<Rightarrow>
               (case get_field parsed ''relations'' of JArr relations \<Rightarrow> (relations, True)
                | _ \<Rightarrow> ([], False))
           | _ \<Rightarrow> ([], False)))"

section \<open>Properties\<close>

definition to_linked :: "mention_row \<Rightarrow> linked_mention" where
  "to_linked m = \<lparr>surface_form = mr_surface_form m, target_iri = mr_target_iri m,
     target_kind = mr_target_kind m\<rparr>"

definition sentence_of :: "mention_row list \<Rightarrow> segment_row \<Rightarrow> selected_sentence" where
  "sentence_of ms seg = \<lparr>report = sr_report seg, seg_index = sr_index seg,
     char_start = sr_char_start seg, char_end = sr_char_end seg, sentence_text = sr_text seg,
     linked_mentions = map to_linked
       (filter (\<lambda>m. status m = lit ''linked'' \<and> mr_seg_index m = sr_index seg) ms)\<rparr>"

definition mentions_at :: "(int \<rightharpoonup> linked_mention list) \<Rightarrow> int \<Rightarrow> linked_mention list" where
  "mentions_at d i = (case d i of None \<Rightarrow> [] | Some ms \<Rightarrow> ms)"

lemma mentions_at_fold:
  "mentions_at (fold add_linked ms d) i = mentions_at d i @ map to_linked
     (filter (\<lambda>m. status m = lit ''linked'' \<and> mr_seg_index m = i) ms)"
proof (induction ms arbitrary: d)
  case (Cons m ms)
  have "mentions_at (add_linked m d) i = mentions_at d i @
      (if status m = lit ''linked'' \<and> mr_seg_index m = i then [to_linked m] else [])"
    by (auto simp: mentions_at_def to_linked_def split: option.splits)
  then show ?case using Cons.IH [of "add_linked m d"] by (simp del: add_linked.simps)
qed (simp add: mentions_at_def)

lemma select_segments_filter:
  "(\<And>i. mentions_at d i = map to_linked
      (filter (\<lambda>m. status m = lit ''linked'' \<and> mr_seg_index m = i) ms)) \<Longrightarrow>
   select_segments d segs = filter (\<lambda>s. linked_mentions s \<noteq> []) (map (sentence_of ms) segs)"
proof (induction segs)
  case (Cons seg segs)
  then show ?case using Cons.prems [of "sr_index seg", unfolded mentions_at_def]
    by (auto simp: sentence_of_def split: option.splits list.splits)
qed simp

text \<open>Sentence selection: the sentences sent to the model are the segments with at least one
  linked mention, each with its own linked mentions in file order, and sorted by segment
  index, ties in file order. A segment without a linked mention costs no call.\<close>

theorem select_sentences_spec:
  "select_sentences segs ms =
     sort_key seg_index (filter (\<lambda>s. linked_mentions s \<noteq> []) (map (sentence_of ms) segs))
   \<and> sorted (map seg_index (select_sentences segs ms))"
proof
  show "select_sentences segs ms =
      sort_key seg_index (filter (\<lambda>s. linked_mentions s \<noteq> []) (map (sentence_of ms) segs))"
    unfolding select_sentences_def
    by (subst select_segments_filter [of _ ms]) (simp_all add: mentions_at_fold, simp add: mentions_at_def)
qed (simp add: select_sentences_def)

lemma sort_mset_eq: "mset xs = mset ys \<Longrightarrow> sort xs = sort ys"
  by (metis mset_sort properties_for_sort sorted_sort)

text \<open>The prompt does not depend on the order in which the IRI sets are enumerated, so runs
  over equal graphs send identical prompts; and without any IRI to list it is the plain
  chemistry prompt, with neither the role block nor the safety block.\<close>

theorem build_user_prompt_deterministic:
  assumes "mset roles = mset roles'" "mset sfs = mset sfs'" "mset reqs = mset reqs'"
  shows "build_user_prompt s roles sfs reqs = build_user_prompt s roles' sfs' reqs'
    \<and> build_user_prompt s [] [] [] = PROMPT_TASK @ lit ''Sentence: '' @ quoted (sentence_text s) @
        nl @ nl @ lit ''Linked mentions in this sentence:'' @ nl @
        mentions_block (linked_mentions s) @ PROMPT_SHAPE"
  using assms by (simp add: build_user_prompt_def roles_block_def safety_block_def
      sort_mset_eq [of roles roles'] sort_mset_eq [of sfs sfs'] sort_mset_eq [of reqs reqs'])

theorem build_user_prompt_deterministic_witness:
  "\<forall>s. build_user_prompt s [[2], [1]] [] [[5], [4]] = build_user_prompt s [[1], [2]] [] [[4], [5]]"
  by (intro allI build_user_prompt_deterministic [THEN conjunct1]) (simp_all add: add_mset_commute)

end
