(* ===== verification/Relation_Dedupe.thy ===== *)
theory Relation_Dedupe
  imports Relations
begin

text \<open>
  \<open>_dedupe_by_key\<close> of \<open>relations.py\<close>: payloads that would be written to the same subject are
  grouped by key and only the one of highest confidence is kept, ties going to the earliest
  sentence and then to the earliest offset. The order used is a locale, so that what a minimum
  guarantees is proved once.
\<close>

section \<open>The contract of a ranking\<close>

locale ranked =
  fixes lt :: "'a \<Rightarrow> 'a \<Rightarrow> bool" and A :: "'a set"
  assumes irrefl: "x \<in> A \<Longrightarrow> \<not> lt x x"
    and asym: "x \<in> A \<Longrightarrow> y \<in> A \<Longrightarrow> lt x y \<Longrightarrow> \<not> lt y x"
    and ntrans: "x \<in> A \<Longrightarrow> y \<in> A \<Longrightarrow> z \<in> A \<Longrightarrow> \<not> lt x y \<Longrightarrow> \<not> lt y z \<Longrightarrow> \<not> lt x z"
begin

lemma best_position_least:
  assumes "is \<noteq> []" "\<And>i. i \<in> set is \<Longrightarrow> f i \<in> A" "j \<in> set is"
  shows "\<not> lt (f j) (f (py_min (\<lambda>i j. lt (f i) (f j)) is))"
proof -
  have "\<not> (\<lambda>i j. lt (f i) (f j)) j (min_scan (\<lambda>i j. lt (f i) (f j)) (hd is) (tl is))"
  proof (rule min_scan_least [where A = "{i. f i \<in> A}"])
    show "x \<in> {i. f i \<in> A} \<Longrightarrow> \<not> lt (f x) (f x)" for x using irrefl by simp
    show "\<And>x y. x \<in> {i. f i \<in> A} \<Longrightarrow> y \<in> {i. f i \<in> A} \<Longrightarrow> lt (f x) (f y) \<Longrightarrow> \<not> lt (f y) (f x)"
      using asym by simp
    show "\<And>x y z. x \<in> {i. f i \<in> A} \<Longrightarrow> y \<in> {i. f i \<in> A} \<Longrightarrow> z \<in> {i. f i \<in> A} \<Longrightarrow>
        \<not> lt (f x) (f y) \<Longrightarrow> \<not> lt (f y) (f z) \<Longrightarrow> \<not> lt (f x) (f z)"
      using ntrans by blast
  qed (use assms in \<open>cases "is"; auto\<close>)+
  then show ?thesis by (simp add: py_min_def)
qed

end

section \<open>The order of payloads\<close>

text \<open>The tuple \<open>(-confidence, seg_index, char_start)\<close> compared as Python compares tuples.\<close>

definition rank_lt :: "'a validated_scheme \<Rightarrow> 'a validated_scheme \<Rightarrow> bool" where
  "rank_lt p q \<longleftrightarrow>
     (let a = fl_neg (confidence p); b = fl_neg (confidence q) in
      if \<not> fl_eq a b then fl_lt a b
      else if seg_index p \<noteq> seg_index q then seg_index p < seg_index q
      else char_start p < char_start q)"

lemma fl_neg_finite [simp]: "is_finite (fl_neg x) = is_finite x"
  by (cases x) auto

lemma mag_fl_neg: "mag (fl_neg x) = - mag x"
  by (cases x) auto

lemma rank_lt_finite:
  assumes "is_finite (confidence p)" "is_finite (confidence q)"
  shows "rank_lt p q \<longleftrightarrow> mag (confidence q) < mag (confidence p) \<or>
    mag (confidence p) = mag (confidence q) \<and> (seg_index p < seg_index q \<or>
      seg_index p = seg_index q \<and> char_start p < char_start q)"
  using assms by (auto simp: rank_lt_def Let_def fl_eq_finite fl_lt_finite mag_fl_neg)

interpretation payload_rank: ranked rank_lt "{p. is_finite (confidence p)}"
  by unfold_locales (auto simp: rank_lt_finite)

section \<open>Grouping\<close>

text \<open>\<open>groups.setdefault(key, []).append(i)\<close>; a dictionary keeps insertion order.\<close>

fun add_position :: "('k \<times> nat list) list \<Rightarrow> 'k \<Rightarrow> nat \<Rightarrow> ('k \<times> nat list) list" where
  "add_position [] k i = [(k, [i])]"
| "add_position ((k', is) # g) k i =
     (if k' = k then (k', is @ [i]) # g else (k', is) # add_position g k i)"

definition group_positions :: "('p \<Rightarrow> 'k) \<Rightarrow> 'p list \<Rightarrow> ('k \<times> nat list) list" where
  "group_positions key_fn ps =
     foldl (\<lambda>g i. add_position g (key_fn (ps ! i)) i) [] [0..<length ps]"

definition best_position :: "'a validated_scheme list \<Rightarrow> nat list \<Rightarrow> nat" where
  "best_position ps positions = py_min (\<lambda>i j. rank_lt (ps ! i) (ps ! j)) positions"

definition dedupe_by_key ::
    "('a validated_scheme \<Rightarrow> 'k) \<Rightarrow> 'a validated_scheme list \<Rightarrow> nat list \<Rightarrow>
     'a validated_scheme list \<times> nat list" where
  "dedupe_by_key key_fn payloads record_indices =
     (let groups = map snd (group_positions key_fn payloads);
          keep_positions = map (best_position payloads) groups;
          dropped = concat (map (\<lambda>positions. map (\<lambda>i. record_indices ! i)
            (filter (\<lambda>i. i \<noteq> best_position payloads positions) positions)) groups)
      in (nths_in payloads (set keep_positions), dropped))"

definition positions :: "('p \<Rightarrow> 'k) \<Rightarrow> 'p list \<Rightarrow> 'k \<Rightarrow> nat list" where
  "positions key ps k = filter (\<lambda>i. key (ps ! i) = k) [0..<length ps]"

lemma set_positions [simp]: "set (positions key ps k) = {i. i < length ps \<and> key (ps ! i) = k}"
  by (auto simp: positions_def)

lemma map_of_add_position:
  "map_of (add_position g k i) k' = (if k' = k
     then Some ((case map_of g k of None \<Rightarrow> [] | Some is \<Rightarrow> is) @ [i]) else map_of g k')"
  by (induction g k i rule: add_position.induct) auto

lemma keys_add_position:
  "distinct (map fst g) \<Longrightarrow> distinct (map fst (add_position g k i)) \<and>
     set (map fst (add_position g k i)) = insert k (set (map fst g))"
  by (induction g k i rule: add_position.induct) auto

lemma groups_upto:
  assumes "g = foldl (\<lambda>g i. add_position g (key (ps ! i)) i) [] [0..<n]"
  shows "distinct (map fst g) \<and>
    map_of g k = (let is = filter (\<lambda>i. key (ps ! i) = k) [0..<n] in if is = [] then None else Some is)"
  using assms
proof (induction n arbitrary: g)
  case (Suc n)
  let ?g = "foldl (\<lambda>g i. add_position g (key (ps ! i)) i) [] [0..<n]"
  show ?case
    using Suc.IH [OF refl] keys_add_position [of ?g "key (ps ! n)" n] Suc.prems
    by (auto simp: map_of_add_position Let_def)
qed simp

lemma set_groups:
  "snd ` set (group_positions key ps) = {positions key ps (key (ps ! i)) | i. i < length ps}"
proof -
  let ?g = "group_positions key ps"
  note upto = groups_upto [OF refl, of key ps "length ps", folded group_positions_def]
  have iff: "(k, is) \<in> set ?g \<longleftrightarrow> is = positions key ps k \<and> (\<exists>i < length ps. key (ps ! i) = k)" for k "is"
  proof -
    have "(k, is) \<in> set ?g \<longleftrightarrow> map_of ?g k = Some is" using upto [THEN conjunct1] by simp
    also have "\<dots> \<longleftrightarrow> is = positions key ps k \<and> positions key ps k \<noteq> []"
      using upto [THEN conjunct2, of k] by (auto simp: positions_def Let_def)
    finally show ?thesis by (auto simp: positions_def filter_empty_conv)
  qed
  show ?thesis
  proof (rule set_eqI, rule iffI)
    fix "is" assume "is \<in> snd ` set ?g"
    then obtain k where "(k, is) \<in> set ?g" by auto
    then show "is \<in> {positions key ps (key (ps ! i)) | i. i < length ps}" unfolding iff by blast
  next
    fix "is" assume "is \<in> {positions key ps (key (ps ! i)) | i. i < length ps}"
    then obtain i where "i < length ps" "is = positions key ps (key (ps ! i))" by blast
    then have "(key (ps ! i), is) \<in> set ?g" unfolding iff by blast
    then show "is \<in> snd ` set ?g" by force
  qed
qed

section \<open>What is kept\<close>

definition keeper :: "('a validated_scheme \<Rightarrow> 'k) \<Rightarrow> 'a validated_scheme list \<Rightarrow> nat \<Rightarrow> bool" where
  "keeper key ps i \<longleftrightarrow> i < length ps \<and> i = best_position ps (positions key ps (key (ps ! i)))"

lemma best_position_in: "is \<noteq> [] \<Longrightarrow> best_position ps is \<in> set is"
  by (simp add: best_position_def py_min_in)

lemma best_of_key:
  fixes key :: "'a validated_scheme \<Rightarrow> 'k"
  assumes "i < length ps"
  defines "b \<equiv> best_position ps (positions key ps (key (ps ! i)))"
  shows "b < length ps \<and> key (ps ! b) = key (ps ! i) \<and> keeper key ps b"
proof -
  have "i \<in> set (positions key ps (key (ps ! i)))" using assms(1) by simp
  then have "positions key ps (key (ps ! i)) \<noteq> []" by force
  from best_position_in [OF this, of ps] show ?thesis by (simp add: b_def keeper_def)
qed

lemma dedupe_keeps: "fst (dedupe_by_key key ps idxs) = nths_in ps {i. keeper key ps i}"
proof -
  have "best_position ps ` snd ` set (group_positions key ps) = {i. keeper key ps i}"
    unfolding set_groups using best_of_key [of _ ps key] by (auto simp: keeper_def)
  then show ?thesis by (simp add: dedupe_by_key_def Let_def image_image)
qed

lemma dedupe_drops:
  "set (snd (dedupe_by_key key ps idxs)) = {idxs ! i | i. i < length ps \<and> \<not> keeper key ps i}"
proof -
  have "set (snd (dedupe_by_key key ps idxs)) =
      (\<Union>is \<in> snd ` set (group_positions key ps). {idxs ! i | i. i \<in> set is \<and> i \<noteq> best_position ps is})"
    by (auto simp: dedupe_by_key_def Let_def)
  also have "\<dots> = {idxs ! i | i. i < length ps \<and> \<not> keeper key ps i}"
    unfolding set_groups
  proof (rule set_eqI, rule iffI)
    fix x
    assume "x \<in> (\<Union>is \<in> {positions key ps (key (ps ! i)) | i. i < length ps}.
      {idxs ! i | i. i \<in> set is \<and> i \<noteq> best_position ps is})"
    then show "x \<in> {idxs ! i | i. i < length ps \<and> \<not> keeper key ps i}"
      by (auto simp: keeper_def)
  next
    fix x
    assume "x \<in> {idxs ! i | i. i < length ps \<and> \<not> keeper key ps i}"
    then obtain i where "x = idxs ! i" "i < length ps" "i \<noteq> best_position ps (positions key ps (key (ps ! i)))"
      by (auto simp: keeper_def)
    then show "x \<in> (\<Union>is \<in> {positions key ps (key (ps ! i)) | i. i < length ps}.
      {idxs ! i | i. i \<in> set is \<and> i \<noteq> best_position ps is})"
      by (intro UN_I [of "positions key ps (key (ps ! i))"]) auto
  qed
  finally show ?thesis .
qed

lemma keeper_unique: "keeper key ps i \<Longrightarrow> keeper key ps j \<Longrightarrow> key (ps ! i) = key (ps ! j) \<Longrightarrow> i = j"
  by (simp add: keeper_def)

lemma dedupe_distinct: "distinct (map key (fst (dedupe_by_key key ps idxs)))"
  unfolding dedupe_keeps by (rule distinct_map_nths_in) (auto intro: keeper_unique)

lemma dedupe_same_keys: "key ` set (fst (dedupe_by_key key ps idxs)) = key ` set ps"
proof
  show "key ` set ps \<subseteq> key ` set (fst (dedupe_by_key key ps idxs))"
  proof
    fix k assume "k \<in> key ` set ps"
    then obtain i where "i < length ps" "k = key (ps ! i)" by (auto simp: in_set_conv_nth)
    then have "k = key (ps ! best_position ps (positions key ps k))"
        "keeper key ps (best_position ps (positions key ps k))"
        "best_position ps (positions key ps k) < length ps"
      using best_of_key [of i ps key] by simp_all
    then show "k \<in> key ` set (fst (dedupe_by_key key ps idxs))"
      unfolding dedupe_keeps set_nths_in by blast
  qed
qed (auto simp: dedupe_keeps set_nths_in)

text \<open>C5. Deduplication keeps one payload per key, in the original order, and it is the best of
  its key: no payload with the same key has a higher confidence, or the same confidence and an
  earlier position. The keys written are exactly the keys that were proposed, so a duplicate
  never costs a subject.\<close>

theorem dedupe_by_key_keeps_best:
  assumes "list_all (\<lambda>p. is_finite (confidence p)) ps"
    and "dedupe_by_key key ps idxs = (kept, dropped)"
  shows "subseq kept ps \<and> distinct (map key kept) \<and> key ` set kept = key ` set ps
    \<and> list_all (\<lambda>p. list_all (\<lambda>q. key q = key p \<longrightarrow> \<not> rank_lt q p) ps) kept"
proof -
  have kept: "kept = fst (dedupe_by_key key ps idxs)" using assms(2) by simp
  have "\<not> rank_lt q p" if "p \<in> set kept" "q \<in> set ps" "key q = key p" for p q
  proof -
    obtain i j where i: "p = ps ! i" "keeper key ps i" "i < length ps"
      and j: "q = ps ! j" "j < length ps"
      using \<open>p \<in> set kept\<close> \<open>q \<in> set ps\<close> unfolding kept dedupe_keeps set_nths_in
      by (auto simp: in_set_conv_nth)
    let ?is = "positions key ps (key (ps ! i))"
    have "j \<in> set ?is" using i j that by simp
    moreover from this have "?is \<noteq> []" by force
    ultimately have "\<not> rank_lt (ps ! j) (ps ! best_position ps ?is)"
      unfolding best_position_def using assms(1)
      by (intro payload_rank.best_position_least) (auto simp: list_all_length)
    then show ?thesis using i j by (simp add: keeper_def)
  qed
  then show ?thesis
    using dedupe_distinct dedupe_same_keys subseq_nths_in unfolding kept dedupe_keeps list_all_iff
    by (metis dedupe_distinct dedupe_keeps dedupe_same_keys subseq_nths_in)
qed

definition sample_payload :: "int \<Rightarrow> rat \<Rightarrow> validated" where
  "sample_payload i c = \<lparr>report = lit ''ORNL-1'', seg_index = i, char_start = 0, char_end = 9,
     confidence = Fin c, rationale = []\<rparr>"

lemma dedupe_by_key_keeps_best_witness:
  "dedupe_by_key report [sample_payload 1 (1 / 2), sample_payload 2 (3 / 4)] [5, 8]
     = ([sample_payload 2 (3 / 4)], [5])
   \<and> \<not> rank_lt (sample_payload 1 (1 / 2)) (sample_payload 2 (3 / 4))"
proof -
  have lt: "rank_lt (sample_payload 2 (3 / 4)) (sample_payload 1 (1 / 2))"
    by (simp add: rank_lt_def sample_payload_def)
  have eval: "dedupe_by_key report [sample_payload 1 (1 / 2), sample_payload 2 (3 / 4)] [5, 8]
      = ([sample_payload 2 (3 / 4)], [5])"
    using lt by (simp add: dedupe_by_key_def group_positions_def best_position_def py_min_def
        nths_in_def upt_rec) (simp add: sample_payload_def)
  then show ?thesis
    using dedupe_by_key_keeps_best [OF _ eval] by (simp add: sample_payload_def)
qed

end
