(* ===== verification/Relation_Trace.thy ===== *)
theory Relation_Trace
  imports Relation_Gate Relation_Dedupe
begin

text \<open>
  The invariant that ties the trace of a report to its payloads: the records marked written
  are exactly the traces of the live payloads. Accepting, refusing and deduplicating keep it.
\<close>

definition flip_duplicate :: "relation_record \<Rightarrow> relation_record" where
  "flip_duplicate r = r\<lparr>disposition := Skipped, reason := REASON_DUPLICATE_LOCATOR\<rparr>"

lemma flip_duplicate_simps [simp]:
  "disposition (flip_duplicate r) = Skipped" "reason (flip_duplicate r) = REASON_DUPLICATE_LOCATOR"
  "flip_duplicate (flip_duplicate r) = flip_duplicate r"
  "site.truncate (flip_duplicate r) = site.truncate r"
  by (simp_all add: flip_duplicate_def site.truncate_def)

text \<open>
  \<open>W\<close> lists live payloads with the position of their record: positions are distinct, they are
  exactly the records marked written, and each such record mirrors its payload.
\<close>

definition written_at :: "relation_record list \<Rightarrow> nat set" where
  "written_at rs = {i. i < length rs \<and> disposition (rs ! i) = Written}"

definition traced :: "relation_record list \<Rightarrow> (payload \<times> nat) list \<Rightarrow> bool" where
  "traced rs W \<longleftrightarrow> distinct (map snd W) \<and> set (map snd W) = written_at rs \<and>
     list_all (\<lambda>w. rs ! snd w = trace (fst w)) W"

lemma traced_cong_mset:
  assumes "mset W = mset W'"
  shows "traced rs W = traced rs W'"
proof -
  have m: "mset (map snd W) = mset (map snd W')" using assms by simp
  have "set W = set W'" using assms by (rule mset_eq_setD)
  then show ?thesis
    unfolding traced_def list_all_iff mset_eq_imp_distinct_iff [OF m] mset_eq_setD [OF m] by simp
qed

lemma written_at_snoc:
  "written_at (rs @ [r]) = (if disposition r = Written then insert (length rs) (written_at rs)
     else written_at rs)"
  by (auto simp: written_at_def nth_append less_Suc_eq)

lemma traced_bound: "traced rs W \<Longrightarrow> w \<in> set W \<Longrightarrow> snd w < length rs"
  by (auto simp: traced_def written_at_def)

lemma traced_old:
  assumes "traced rs W"
  shows "list_all (\<lambda>w. (rs @ [r]) ! snd w = trace (fst w)) W"
  using assms traced_bound [OF assms] by (auto simp: traced_def list_all_iff nth_append)

lemma traced_refused:
  assumes "traced rs W" "disposition r \<noteq> Written"
  shows "traced (rs @ [r]) W"
  using assms traced_old [OF assms(1), of r] by (simp add: traced_def written_at_snoc)

lemma traced_accepted:
  assumes "traced rs W"
  shows "traced (rs @ [trace p]) ((p, length rs) # W)"
proof -
  have "length rs \<notin> set (map snd W)" using traced_bound [OF assms] by fastforce
  then show ?thesis using assms traced_old [OF assms, of "trace p"]
    by (simp add: traced_def written_at_snoc)
qed

lemma filter_as_nths: "filter P rs = map (\<lambda>i. rs ! i) (filter (\<lambda>i. P (rs ! i)) [0..<length rs])"
  by (metis (mono_tags, lifting) filter_map map_nth comp_def filter_cong)

lemma traced_written_records:
  assumes "traced rs W"
  shows "mset (filter (\<lambda>r. disposition r = Written) rs) = mset (map (\<lambda>w. trace (fst w)) W)"
proof -
  let ?is = "filter (\<lambda>i. disposition (rs ! i) = Written) [0..<length rs]"
  have "set ?is = set (map snd W)"
    using assms by (auto simp: traced_def written_at_def)
  then have "mset ?is = mset (map snd W)"
    using assms set_eq_iff_mset_eq_distinct [of ?is "map snd W"] by (simp add: traced_def)
  then have "mset (map (\<lambda>i. rs ! i) ?is) = mset (map (\<lambda>i. rs ! i) (map snd W))"
    by (metis mset_map)
  also have "map (\<lambda>i. rs ! i) (map snd W) = map (\<lambda>w. trace (fst w)) W"
    using assms by (simp add: traced_def list_all_iff)
  finally show ?thesis by (subst filter_as_nths)
qed

section \<open>A deduplication pass\<close>

lemma zip_nths_in:
  assumes "length xs = length ys"
  shows "zip (nths_in xs P) (nths_in ys P) = nths_in (zip xs ys) P"
proof -
  have "zip (map f is) (map g is) = map (\<lambda>i. (f i, g i)) is" for f :: "nat \<Rightarrow> 'a" and g :: "nat \<Rightarrow> 'b" and "is"
    by (induction "is") auto
  then show ?thesis using assms by (auto simp: nths_in_def)
qed

lemma map_nths_in: "map f (nths_in xs P) = nths_in (map f xs) P"
  by (simp add: nths_in_def)

lemma traced_drop:
  assumes tr: "traced rs W" and sub: "subseq W' W"
    and drop: "set D = set (map snd W) - set (map snd W')"
  shows "traced (update_at flip_duplicate D rs) W'"
proof -
  have W'W: "set W' \<subseteq> set W" using list_emb_set [OF sub] by blast
  have D: "set D \<subseteq> {..<length rs}" using drop tr by (auto simp: traced_def written_at_def)
  note nth = nth_update_at [OF _ D, of flip_duplicate]
  have "distinct (map snd W')"
    using tr sub by (metis traced_def subseq_map subseq_distinct)
  moreover have "written_at (update_at flip_duplicate D rs) = written_at rs - set D"
    by (auto simp: written_at_def nth split: if_splits)
  moreover have "set (map snd W') = written_at rs - set D"
    using drop tr W'W by (auto simp: traced_def)
  moreover have "update_at flip_duplicate D rs ! snd w = trace (fst w)" if "w \<in> set W'" for w
  proof -
    have "w \<in> set W" "snd w \<notin> set D" using that W'W drop by auto
    then show ?thesis using tr traced_bound [OF tr] nth by (auto simp: traced_def list_all_iff)
  qed
  ultimately show ?thesis by (simp add: traced_def list_all_iff)
qed

lemma traced_dedupe:
  assumes tr: "traced rs (A @ map (map_prod c id) (zip ps idxs) @ B)"
    and len: "length ps = length idxs"
    and dd: "dedupe_by_key key ps idxs = (kept, dropped)"
  shows "\<exists>kept_idx. length kept = length kept_idx \<and>
    traced (update_at flip_duplicate dropped rs) (A @ map (map_prod c id) (zip kept kept_idx) @ B)"
proof -
  let ?P = "{i. keeper key ps i}"
  have kept: "kept = nths_in ps ?P" using dedupe_keeps [of key ps idxs] dd by simp
  let ?k = "nths_in idxs ?P"
  have zip: "zip kept ?k = nths_in (zip ps idxs) ?P" using zip_nths_in [OF len] kept by simp
  have snd_old: "map snd (map (map_prod c id) (zip ps idxs)) = idxs" using len by simp
  have snd_new: "map snd (map (map_prod c id) (zip kept ?k)) = ?k"
    using len by (simp add: kept nths_in_def)
  have dist: "distinct (map snd A @ idxs @ map snd B)" using tr unfolding traced_def map_append snd_old by blast
  have drop: "set dropped = {idxs ! i | i. i < length ps \<and> \<not> keeper key ps i}"
    using dedupe_drops [of key ps idxs] dd by simp
  have split: "set idxs - set dropped = set ?k" "set dropped \<subseteq> set idxs"
    using dist unfolding drop set_nths_in
    by (auto simp: in_set_conv_nth len nth_eq_iff_index_eq) (use len in blast)
  have "subseq (A @ map (map_prod c id) (zip kept ?k) @ B) (A @ map (map_prod c id) (zip ps idxs) @ B)"
    by (simp add: zip list_emb_append_mono subseq_map subseq_nths_in)
  moreover have "set dropped = set (map snd (A @ map (map_prod c id) (zip ps idxs) @ B))
      - set (map snd (A @ map (map_prod c id) (zip kept ?k) @ B))"
    using split dist by (simp only: map_append set_append snd_old snd_new) auto
  ultimately have "traced (update_at flip_duplicate dropped rs) (A @ map (map_prod c id) (zip kept ?k) @ B)"
    using tr by (intro traced_drop)
  moreover have "length kept = length ?k" using len by (simp add: kept nths_in_def)
  ultimately show ?thesis by blast
qed

end
