(* ===== verification/Relation_Report.thy ===== *)
theory Relation_Report
  imports Slug Relation_Prompt Relation_Trace
begin

text \<open>
  \<open>extract_report\<close> of \<open>relations.py\<close>: one call per selected sentence (sequentially or on
  a thread pool), the gate on every proposed relation, a trace of every verdict, and the
  deduplication that marks the records of the payloads it drops. The trace file itself is
  written from \<open>records\<close> in order.
\<close>

section \<open>State\<close>

record collected =
  measurements :: "validated_measurement list"
  roles :: "validated_role list"
  reactors :: "validated_reactor list"
  served_by_property :: "validated_served_by list"
  addresses_function :: "validated_addresses list"
  measurement_record_idx :: "nat list"
  role_record_idx :: "nat list"
  reactor_record_idx :: "nat list"
  served_by_property_record_idx :: "nat list"
  addresses_function_record_idx :: "nat list"
  records :: "relation_record list"
  malformed_calls :: nat

definition nothing_collected :: collected where
  "nothing_collected = \<lparr>measurements = [], roles = [], reactors = [], served_by_property = [],
     addresses_function = [], measurement_record_idx = [], role_record_idx = [],
     reactor_record_idx = [], served_by_property_record_idx = [],
     addresses_function_record_idx = [], records = [], malformed_calls = 0\<rparr>"

record report_extraction =
  x_measurements :: "validated_measurement list"
  x_roles :: "validated_role list"
  x_reactors :: "validated_reactor list"
  x_records :: "relation_record list"
  sentences_seen :: nat
  x_malformed_calls :: nat
  x_served_by_property :: "validated_served_by list"
  x_addresses_function :: "validated_addresses list"

section \<open>The calls\<close>

text \<open>With one worker, or nothing to do, the loop runs in the calling thread.\<close>

definition call_all :: "nat \<Rightarrow> nat list \<Rightarrow> ('a \<Rightarrow> 'b) \<Rightarrow> 'a list \<Rightarrow> 'b list" where
  "call_all concurrency schedule f xs =
     (if 1 < concurrency \<and> xs \<noteq> [] then pool_map schedule f xs else map f xs)"

section \<open>Collecting verdicts\<close>

fun collect :: "verdict \<Rightarrow> collected \<Rightarrow> collected" where
  "collect (p, r) st =
     (let i = length (records st); st = st\<lparr>records := records st @ [r]\<rparr>
      in case p of
        None \<Rightarrow> st
      | Some (PMeasurement m) \<Rightarrow> st\<lparr>measurements := measurements st @ [m],
          measurement_record_idx := measurement_record_idx st @ [i]\<rparr>
      | Some (PRole m) \<Rightarrow> st\<lparr>roles := roles st @ [m],
          role_record_idx := role_record_idx st @ [i]\<rparr>
      | Some (PReactor m) \<Rightarrow> st\<lparr>reactors := reactors st @ [m],
          reactor_record_idx := reactor_record_idx st @ [i]\<rparr>
      | Some (PServedBy m) \<Rightarrow> st\<lparr>served_by_property := served_by_property st @ [m],
          served_by_property_record_idx := served_by_property_record_idx st @ [i]\<rparr>
      | Some (PAddresses m) \<Rightarrow> st\<lparr>addresses_function := addresses_function st @ [m],
          addresses_function_record_idx := addresses_function_record_idx st @ [i]\<rparr>)"

fun collect_relations ::
    "(json \<Rightarrow> verdict result) \<Rightarrow> json list \<Rightarrow> collected \<Rightarrow> collected result" where
  "collect_relations gate [] st = Inr st"
| "collect_relations gate (raw # raws) st =
     bind_result (gate raw) (\<lambda>v. collect_relations gate raws (collect v st))"

fun collect_sentences ::
    "(selected_sentence \<Rightarrow> json \<Rightarrow> verdict result) \<Rightarrow>
     (selected_sentence \<times> json list \<times> bool) list \<Rightarrow> collected \<Rightarrow> collected result" where
  "collect_sentences gate [] st = Inr st"
| "collect_sentences gate ((s, raw_relations, ok) # rest) st =
     (if \<not> ok then collect_sentences gate rest (st\<lparr>malformed_calls := malformed_calls st + 1\<rparr>)
      else bind_result (collect_relations (gate s) raw_relations st)
        (\<lambda>st. collect_sentences gate rest st))"

section \<open>Deduplication and the result\<close>

definition reactor_key :: "(pystr \<Rightarrow> pystr) \<Rightarrow> validated_reactor \<Rightarrow> pystr \<times> pystr \<times> pystr" where
  "reactor_key lower r = (report r, vx_salt_iri r, lower (edges_slugify (vx_reactor_label r)))"

definition finish :: "(pystr \<Rightarrow> pystr) \<Rightarrow> nat \<Rightarrow> collected \<Rightarrow> report_extraction" where
  "finish lower n st =
     (let (ms, d1) = dedupe_by_key (\<lambda>m. (report m, vm_property_name m, vm_salt_iri m))
            (measurements st) (measurement_record_idx st);
          rs1 = update_at flip_duplicate d1 (records st);
          (ros, d2) = dedupe_by_key (\<lambda>r. (report r, vr_salt_iri r, vr_role_iri r))
            (roles st) (role_record_idx st);
          rs2 = update_at flip_duplicate d2 rs1;
          (res, d3) = dedupe_by_key (reactor_key lower) (reactors st) (reactor_record_idx st);
          rs3 = update_at flip_duplicate d3 rs2;
          (ses, d4) = dedupe_by_key (\<lambda>r. (report r, vs_safety_function_iri r, vs_property_iri r))
            (served_by_property st) (served_by_property_record_idx st);
          rs4 = update_at flip_duplicate d4 rs3;
          (ads, d5) = dedupe_by_key (\<lambda>r. (report r, va_requirement_iri r, va_safety_function_iri r))
            (addresses_function st) (addresses_function_record_idx st);
          rs5 = update_at flip_duplicate d5 rs4
      in \<lparr>x_measurements = ms, x_roles = ros, x_reactors = res, x_records = rs5,
          sentences_seen = n, x_malformed_calls = malformed_calls st,
          x_served_by_property = ses, x_addresses_function = ads\<rparr>)"

definition extract_report ::
    "(pystr \<Rightarrow> pystr) \<Rightarrow> json_loads \<Rightarrow> completer \<Rightarrow> nat list \<Rightarrow> nat \<Rightarrow> unit_mapper \<Rightarrow> known_sets \<Rightarrow>
     pyfloat \<Rightarrow> pystr \<Rightarrow> segment_row list \<Rightarrow> mention_row list \<Rightarrow> report_extraction result" where
  "extract_report lower loads ask schedule concurrency um known threshold prompt_prefix segments mentions =
     (let sentences = select_sentences segments mentions;
          call = (\<lambda>s. extract_relations loads ask prompt_prefix s
            (sorted_list_of_set (salt_roles known)) (sorted_list_of_set (safety_functions known))
            (sorted_list_of_set (requirements known)));
          call_results = call_all concurrency schedule call sentences
      in bind_result
           (collect_sentences (\<lambda>s raw. validate_relation (resolve um) known threshold s raw)
              (zip sentences call_results) nothing_collected)
           (\<lambda>st. Inr (finish lower (length sentences) st)))"

section \<open>The thread pool does not matter\<close>



section \<open>The trace agrees with the payloads\<close>

abbreviation live_list :: "('p \<Rightarrow> payload) \<Rightarrow> 'p list \<Rightarrow> nat list \<Rightarrow> (payload \<times> nat) list" where
  "live_list c ps idxs \<equiv> map (map_prod c id) (zip ps idxs)"

definition live :: "collected \<Rightarrow> (payload \<times> nat) list" where
  "live st = live_list PMeasurement (measurements st) (measurement_record_idx st) @
     live_list PRole (roles st) (role_record_idx st) @
     live_list PReactor (reactors st) (reactor_record_idx st) @
     live_list PServedBy (served_by_property st) (served_by_property_record_idx st) @
     live_list PAddresses (addresses_function st) (addresses_function_record_idx st)"

definition parallel :: "collected \<Rightarrow> bool" where
  "parallel st \<longleftrightarrow> length (measurements st) = length (measurement_record_idx st) \<and>
     length (roles st) = length (role_record_idx st) \<and>
     length (reactors st) = length (reactor_record_idx st) \<and>
     length (served_by_property st) = length (served_by_property_record_idx st) \<and>
     length (addresses_function st) = length (addresses_function_record_idx st)"

definition collected_ok :: "(payload \<Rightarrow> bool) \<Rightarrow> collected \<Rightarrow> bool" where
  "collected_ok P st \<longleftrightarrow> parallel st \<and> traced (records st) (live st) \<and>
     list_all (\<lambda>w. P (fst w)) (live st) \<and>
     list_all (\<lambda>r. disposition r = Written \<or> refused r) (records st)"

lemma mset_live_collect:
  assumes "parallel st"
  shows "mset (live (collect (Some p, r) st)) = add_mset (p, length (records st)) (mset (live st))
    \<and> parallel (collect (Some p, r) st) \<and> records (collect (Some p, r) st) = records st @ [r]"
  using assms by (cases p) (simp_all add: live_def parallel_def Let_def)

lemma collect_ok:
  assumes ok: "collected_ok P st"
    and v: "case p of None \<Rightarrow> refused r | Some q \<Rightarrow> r = trace q \<and> P q"
  shows "collected_ok P (collect (p, r) st)"
proof (cases p)
  case None
  then have "disposition r \<noteq> Written" using v by (auto simp: refused_def)
  then show ?thesis using ok v None traced_refused
    by (auto simp: collected_ok_def live_def parallel_def Let_def)
next
  case (Some q)
  then have r: "r = trace q" "P q" using v by simp_all
  let ?st = "collect (Some q, trace q) st"
  have m: "mset (live ?st) = mset ((q, length (records st)) # live st)" "parallel ?st"
      "records ?st = records st @ [trace q]"
    using mset_live_collect [of st q "trace q"] ok by (simp_all add: collected_ok_def)
  have "traced (records ?st) (live ?st)"
    using traced_accepted [of "records st" "live st" q] ok traced_cong_mset [OF m(1)] m(3)
    by (simp add: collected_ok_def)
  moreover have "set (live ?st) = insert (q, length (records st)) (set (live st))"
    using mset_eq_setD [OF m(1)] by simp
  ultimately show ?thesis unfolding Some r(1) using ok m(2,3) r(2)
    unfolding collected_ok_def list_all_iff by simp
qed

lemma collect_relations_ok:
  assumes "collect_relations gate raws st = Inr st'" "collected_ok P st"
    and "\<And>raw p r. gate raw = Inr (p, r) \<Longrightarrow> case p of None \<Rightarrow> refused r | Some q \<Rightarrow> r = trace q \<and> P q"
  shows "collected_ok P st'"
  using assms(1,2)
proof (induction raws arbitrary: st)
  case (Cons raw raws)
  then obtain p r where g: "gate raw = Inr (p, r)"
      "collect_relations gate raws (collect (p, r) st) = Inr st'"
    by (auto simp: bind_result_eq_Inr)
  show ?case by (rule Cons.IH [OF g(2) collect_ok [OF Cons.prems(2) assms(3) [OF g(1)]]])
qed simp

lemma collect_sentences_ok:
  assumes "collect_sentences gate calls st = Inr st'" "collected_ok P st"
    and "\<And>s raw p r. s \<in> fst ` set calls \<Longrightarrow> gate s raw = Inr (p, r) \<Longrightarrow>
      case p of None \<Rightarrow> refused r | Some q \<Rightarrow> r = trace q \<and> P q"
  shows "collected_ok P st'"
  using assms
proof (induction gate calls st rule: collect_sentences.induct)
  case (2 gate s raw_relations ok rest st)
  have gate: "\<And>raw p r. gate s raw = Inr (p, r) \<Longrightarrow>
      case p of None \<Rightarrow> refused r | Some q \<Rightarrow> r = trace q \<and> P q"
    by (rule "2.prems"(3)) auto
  have later: "\<And>s' raw p r. s' \<in> fst ` set rest \<Longrightarrow> gate s' raw = Inr (p, r) \<Longrightarrow>
      case p of None \<Rightarrow> refused r | Some q \<Rightarrow> r = trace q \<and> P q"
    by (rule "2.prems"(3)) auto
  show ?case
  proof (cases ok)
    case True
    then obtain st1 where st1: "collect_relations (gate s) raw_relations st = Inr st1"
        "collect_sentences gate rest st1 = Inr st'"
      using "2.prems"(1) by (auto simp: bind_result_eq_Inr)
    have "collected_ok P st1" by (rule collect_relations_ok [OF st1(1) "2.prems"(2) gate])
    show ?thesis by (rule "2.IH"(2) [OF _ st1 \<open>collected_ok P st1\<close> later]) (simp_all add: True)
  next
    case False
    moreover have "collected_ok P (st\<lparr>malformed_calls := malformed_calls st + 1\<rparr>)"
      using "2.prems"(2) by (simp add: collected_ok_def live_def parallel_def)
    ultimately show ?thesis using "2.IH"(1) [OF _ _ _ later] "2.prems"(1) by simp
  qed
qed simp

definition payloads :: "report_extraction \<Rightarrow> payload list" where
  "payloads x = map PMeasurement (x_measurements x) @ map PRole (x_roles x) @
     map PReactor (x_reactors x) @ map PServedBy (x_served_by_property x) @
     map PAddresses (x_addresses_function x)"

lemma finish_ok:
  assumes ok: "collected_ok P st"
  shows "mset (filter (\<lambda>r. disposition r = Written) (x_records (finish lower n st)))
      = mset (map trace (payloads (finish lower n st)))"
proof -
  obtain ms d1 where 1: "dedupe_by_key (\<lambda>m. (report m, vm_property_name m, vm_salt_iri m))
      (measurements st) (measurement_record_idx st) = (ms, d1)" by fastforce
  obtain ros d2 where 2: "dedupe_by_key (\<lambda>r. (report r, vr_salt_iri r, vr_role_iri r))
      (roles st) (role_record_idx st) = (ros, d2)" by fastforce
  obtain res d3 where 3: "dedupe_by_key (reactor_key lower) (reactors st) (reactor_record_idx st)
      = (res, d3)" by fastforce
  obtain ses d4 where 4: "dedupe_by_key (\<lambda>r. (report r, vs_safety_function_iri r, vs_property_iri r))
      (served_by_property st) (served_by_property_record_idx st) = (ses, d4)" by fastforce
  obtain ads d5 where 5: "dedupe_by_key (\<lambda>r. (report r, va_requirement_iri r, va_safety_function_iri r))
      (addresses_function st) (addresses_function_record_idx st) = (ads, d5)" by fastforce
  note par = ok [unfolded collected_ok_def parallel_def]
  have "traced (records st) ([] @ live_list PMeasurement (measurements st) (measurement_record_idx st)
      @ live_list PRole (roles st) (role_record_idx st) @
     live_list PReactor (reactors st) (reactor_record_idx st) @
     live_list PServedBy (served_by_property st) (served_by_property_record_idx st) @
     live_list PAddresses (addresses_function st) (addresses_function_record_idx st))"
    using ok by (simp add: collected_ok_def live_def)
  from traced_dedupe [OF this _ 1] par obtain k1 where k1: "length ms = length k1"
    and t1: "traced (update_at flip_duplicate d1 (records st)) (live_list PMeasurement ms k1 @
      live_list PRole (roles st) (role_record_idx st) @
      live_list PReactor (reactors st) (reactor_record_idx st) @
      live_list PServedBy (served_by_property st) (served_by_property_record_idx st) @
      live_list PAddresses (addresses_function st) (addresses_function_record_idx st))"
      (is "traced ?r1 _") by auto
  from traced_dedupe [OF t1 _ 2] par obtain k2 where k2: "length ros = length k2"
    and t2: "traced (update_at flip_duplicate d2 ?r1) ((live_list PMeasurement ms k1 @
      live_list PRole ros k2) @ live_list PReactor (reactors st) (reactor_record_idx st) @
      live_list PServedBy (served_by_property st) (served_by_property_record_idx st) @
      live_list PAddresses (addresses_function st) (addresses_function_record_idx st))"
      (is "traced ?r2 _") by auto
  from traced_dedupe [OF t2 _ 3] par obtain k3 where k3: "length res = length k3"
    and t3: "traced (update_at flip_duplicate d3 ?r2) ((live_list PMeasurement ms k1 @
      live_list PRole ros k2 @ live_list PReactor res k3) @
      live_list PServedBy (served_by_property st) (served_by_property_record_idx st) @
      live_list PAddresses (addresses_function st) (addresses_function_record_idx st))"
      (is "traced ?r3 _") by auto
  from traced_dedupe [OF t3 _ 4] par obtain k4 where k4: "length ses = length k4"
    and t4: "traced (update_at flip_duplicate d4 ?r3) ((live_list PMeasurement ms k1 @
      live_list PRole ros k2 @ live_list PReactor res k3 @ live_list PServedBy ses k4) @
      live_list PAddresses (addresses_function st) (addresses_function_record_idx st) @ [])"
      (is "traced ?r4 _") by auto
  from traced_dedupe [OF t4 _ 5] par obtain k5 where k5: "length ads = length k5"
    and t5: "traced (update_at flip_duplicate d5 ?r4) (live_list PMeasurement ms k1 @
      live_list PRole ros k2 @ live_list PReactor res k3 @ live_list PServedBy ses k4 @
      live_list PAddresses ads k5)" by auto
  have fst: "map (\<lambda>w. trace (fst w)) (live_list c ps k) = map trace (map c ps)"
    if "length ps = length k" for c :: "'z \<Rightarrow> payload" and ps and k :: "nat list"
    using that by (induction ps k rule: list_induct2) auto
  show ?thesis
    using traced_written_records [OF t5] unfolding map_append fst [OF k1] fst [OF k2] fst [OF k3]
      fst [OF k4] fst [OF k5]
    by (simp add: finish_def 1 2 3 4 5 Let_def payloads_def)
qed

lemma dedupe_subset: "dedupe_by_key key ps idxs = (kept, d) \<Longrightarrow> set kept \<subseteq> set ps"
  using dedupe_keeps [of key ps idxs] by (auto simp: set_nths_in)

lemma update_at_flip: "set (update_at flip_duplicate d rs) \<subseteq> set rs \<union> range flip_duplicate"
proof (induction d arbitrary: rs)
  case (Cons i d)
  have "set (rs[i := flip_duplicate (rs ! i)]) \<subseteq> set rs \<union> range flip_duplicate"
    using set_update_subset_insert [of rs i "flip_duplicate (rs ! i)"] by auto
  then show ?case using Cons.IH [of "rs[i := flip_duplicate (rs ! i)]"] by auto
qed simp

definition duplicate :: "relation_record \<Rightarrow> bool" where
  "duplicate r \<longleftrightarrow> disposition r = Skipped \<and> reason r = REASON_DUPLICATE_LOCATOR"

definition keys_distinct :: "(pystr \<Rightarrow> pystr) \<Rightarrow> report_extraction \<Rightarrow> bool" where
  "keys_distinct lower x \<longleftrightarrow>
     distinct (map (\<lambda>m. (report m, vm_property_name m, vm_salt_iri m)) (x_measurements x)) \<and>
     distinct (map (\<lambda>r. (report r, vr_salt_iri r, vr_role_iri r)) (x_roles x)) \<and>
     distinct (map (reactor_key lower) (x_reactors x)) \<and>
     distinct (map (\<lambda>r. (report r, vs_safety_function_iri r, vs_property_iri r)) (x_served_by_property x)) \<and>
     distinct (map (\<lambda>r. (report r, va_requirement_iri r, va_safety_function_iri r))
       (x_addresses_function x))"

lemma finish_keys_distinct: "keys_distinct lower (finish lower n st)"
  by (simp add: keys_distinct_def finish_def Let_def split_beta dedupe_distinct)

lemma finish_payloads:
  assumes "collected_ok P st"
  shows "list_all P (payloads (finish lower n st))"
proof -
  have fst: "map fst (live_list c ps k) = map c ps" if "length ps = length k"
    for c :: "'z \<Rightarrow> payload" and ps and k :: "nat list"
    using that by (induction ps k rule: list_induct2) auto
  have "list_all P (map fst (live st))"
    using assms by (simp add: collected_ok_def list_all_iff)
  then have "list_all P (map PMeasurement (measurements st) @ map PRole (roles st) @
      map PReactor (reactors st) @ map PServedBy (served_by_property st) @
      map PAddresses (addresses_function st))"
    using assms unfolding live_def map_append by (simp only: fst collected_ok_def parallel_def)
  then show ?thesis
    by (auto simp: payloads_def finish_def Let_def list_all_iff split: prod.split dest!: dedupe_subset)
qed

lemma finish_records:
  assumes "collected_ok P st"
  shows "list_all (\<lambda>r. disposition r = Written \<or> refused r \<or> duplicate r) (x_records (finish lower n st))"
proof -
  have step: "list_all (\<lambda>r. disposition r = Written \<or> refused r \<or> duplicate r) (update_at flip_duplicate d rs)"
    if "list_all (\<lambda>r. disposition r = Written \<or> refused r \<or> duplicate r) rs" for d rs
    using update_at_flip [of d rs] that by (fastforce simp: list_all_iff duplicate_def)
  have "list_all (\<lambda>r. disposition r = Written \<or> refused r \<or> duplicate r) (records st)"
    using assms by (auto simp: collected_ok_def list_all_iff)
  then show ?thesis by (simp add: finish_def Let_def step split: prod.split)
qed

lemma nothing_collected_ok: "collected_ok P nothing_collected"
  by (simp add: collected_ok_def nothing_collected_def parallel_def live_def traced_def written_at_def)

lemma fst_set_zip: "fst ` set (zip xs ys) \<subseteq> set xs"
  by (auto dest: set_zip_leftD)

lemma extract_report_facts:
  assumes "extract_report lower loads ask schedule concurrency um known threshold prefix_text
      segments mentions = Inr x"
  shows "mset (filter (\<lambda>r. disposition r = Written) (x_records x)) = mset (map trace (payloads x))
    \<and> list_all (\<lambda>p. list_ex (\<lambda>s. admissible (canonical_unit_curie_for um) (is_allowed um) known
          threshold s p) (select_sentences segments mentions)) (payloads x)
    \<and> keys_distinct lower x
    \<and> list_all (\<lambda>r. disposition r = Written \<or> refused r \<or> duplicate r) (x_records x)"
proof -
  let ?P = "\<lambda>p. list_ex (\<lambda>s. admissible (canonical_unit_curie_for um) (is_allowed um) known
    threshold s p) (select_sentences segments mentions)"
  obtain st calls where st: "collect_sentences (\<lambda>s raw. validate_relation (resolve um) known threshold s raw)
      (zip (select_sentences segments mentions) calls) nothing_collected = Inr st"
    and x: "x = finish lower (length (select_sentences segments mentions)) st"
    using assms by (auto simp: extract_report_def Let_def bind_result_eq_Inr)
  have "collected_ok ?P st"
  proof (rule collect_sentences_ok [OF st nothing_collected_ok])
    fix s raw p r
    assume m: "s \<in> fst ` set (zip (select_sentences segments mentions) calls)"
      and v: "validate_relation (resolve um) known threshold s raw = Inr (p, r)"
    from m have s: "s \<in> set (select_sentences segments mentions)" by (rule subsetD [OF fst_set_zip])
    show "case p of None \<Rightarrow> refused r | Some q \<Rightarrow> r = trace q \<and> ?P q"
    proof (cases p)
      case None
      then show ?thesis using qudt.gate_ok [OF v] by simp
    next
      case (Some q)
      then have "r = trace q" "admissible (canonical_unit_curie_for um) (is_allowed um) known threshold s q"
        using qudt.gate_ok [OF v] by simp_all
      then show ?thesis using s unfolding Some list_ex_iff by auto
    qed
  qed
  from finish_ok [OF this] finish_payloads [OF this] finish_records [OF this] finish_keys_distinct
  show ?thesis by (simp add: x)
qed


definition sample_segment :: segment_row where
  "sample_segment = \<lparr>sr_report = lit ''ORNL-1'', sr_index = 3, sr_char_start = 10, sr_char_end = 42,
     sr_text = lit ''rho = 2.25''\<rparr>"

definition sample_mention :: mention_row where
  "sample_mention = \<lparr>status = lit ''linked'', mr_seg_index = 3, mr_surface_form = lit ''FLiBe'',
     mr_target_iri = lit ''m#FLiBe'', mr_target_kind = lit ''salt''\<rparr>"

definition sample_loads :: json_loads where
  "sample_loads raw = Some (JObj [(lit ''relations'', JArr [sample_json])])"

lemma sample_selected: "select_sentences [sample_segment] [sample_mention] = [sample_sentence]"
  by (simp add: select_sentences_def sample_segment_def sample_mention_def sample_sentence_def)

lemma sample_reply: "extract_relations sample_loads (\<lambda>p u. Some []) pre s r f q = ([sample_json], True)"
  by (simp add: extract_relations_def sample_loads_def get_field_def)


section \<open>Errors\<close>

lemma collect_relations_Inl:
  "collect_relations (validate_relation ur known threshold s) raws st = Inl e \<Longrightarrow>
   e = OverflowError \<and> list_ex json_has_huge raws"
  by (induction raws arbitrary: st) (auto simp: bind_result_eq_Inl dest: validate_relation_Inl)

lemma collect_sentences_Inl:
  "collect_sentences (\<lambda>s raw. validate_relation ur known threshold s raw) calls st = Inl e \<Longrightarrow>
   e = OverflowError \<and> list_ex (\<lambda>(s, raws, ok). ok \<and> list_ex json_has_huge raws) calls"
proof (induction "\<lambda>s raw. validate_relation ur known threshold s raw" calls st rule: collect_sentences.induct)
  case (2 s raws ok rest st)
  then show ?case by (auto simp: bind_result_eq_Inl split: if_splits dest: collect_relations_Inl)
qed simp



end
