(* ===== verification/Turtle.thy ===== *)
theory Turtle
  imports PyStr PyFloat
begin

text \<open>
  The Turtle and SPARQL text the writers emit: string literals (\<open>_escape_literal\<close>), terms
  and local names of IRIs, decimal literals, and the indentation of a block with
  \<open>str.splitlines\<close> in \<open>insert_data\<close>. The reader of a quoted literal is the grammar's
  (\<open>STRING_LITERAL2\<close> of SPARQL 1.1); it states what the escaping has to guarantee.
\<close>

section \<open>Lines\<close>

definition is_line_break :: "nat \<Rightarrow> bool" where
  "is_line_break c \<longleftrightarrow> (10 \<le> c \<and> c \<le> 13) \<or> (28 \<le> c \<and> c \<le> 30) \<or> c = 133 \<or> c = 8232 \<or> c = 8233"

function splitlines :: "pystr \<Rightarrow> pystr list" where
  "splitlines [] = []"
| "splitlines (c # cs) =
     (if c = 13 \<and> cs \<noteq> [] \<and> hd cs = 10 then [] # splitlines (tl cs)
      else if is_line_break c then [] # splitlines cs
      else case splitlines cs of [] \<Rightarrow> [[c]] | l # ls \<Rightarrow> (c # l) # ls)"
  by pat_completeness auto
termination by (relation "measure length") auto

definition one_line :: "pystr \<Rightarrow> bool" where
  "one_line s \<longleftrightarrow> list_all (\<lambda>c. \<not> is_line_break c) s"

lemma one_line_simps [simp]:
  "one_line []" "one_line (c # s) \<longleftrightarrow> \<not> is_line_break c \<and> one_line s"
  "one_line (s @ t) \<longleftrightarrow> one_line s \<and> one_line t"
  by (auto simp: one_line_def)

lemma not_break_13: "\<not> is_line_break c \<Longrightarrow> c \<noteq> 13"
  by (auto simp: is_line_break_def)

lemma splitlines_one_line:
  "one_line s \<Longrightarrow> s \<noteq> [] \<Longrightarrow> splitlines s = [s]"
proof (induction s)
  case (Cons c s)
  then show ?case by (cases "s = []") (auto dest: not_break_13)
qed simp

lemma splitlines_append_nl:
  "one_line s \<Longrightarrow> splitlines (s @ 10 # t) = s # splitlines t"
proof (induction s)
  case Nil
  then show ?case by (simp add: is_line_break_def)
qed (auto dest: not_break_13)

lemma splitlines_join:
  "list_all one_line ls \<Longrightarrow> ls \<noteq> [] \<Longrightarrow> last ls \<noteq> [] \<Longrightarrow> splitlines (join nl ls) = ls"
proof (induction "nl" ls rule: join.induct)
  case (3 x y zs)
  then show ?case using splitlines_append_nl [of x "join nl (y # zs)"] by (simp add: nl_def)
qed (simp_all add: splitlines_one_line)

text \<open>Every line of the result is free of breaks, so only \<open>\n\<close> separates lines once joined.\<close>

lemma splitlines_all_one_line: "list_all one_line (splitlines s)"
  by (induction s rule: splitlines.induct) (auto split: list.splits)

section \<open>String literals\<close>

definition escape_literal :: "pystr \<Rightarrow> pystr" where
  "escape_literal s =
     replace [13] [92, 114] (replace [9] [92, 116] (replace [10] [92, 110]
       (replace [34] [92, 34] (replace [92] [92, 92] s))))"

definition esc :: "nat \<Rightarrow> pystr" where
  "esc c = (if c = 92 then [92, 92] else if c = 34 then [92, 34] else if c = 10 then [92, 110]
     else if c = 9 then [92, 116] else if c = 13 then [92, 114] else [c])"

lemma replace_one: "replace [a] w s = concat (map (\<lambda>x. if x = a then w else [x]) s)"
  by (induction s) (auto simp: starts_with_def)

lemma concat_map_concat: "concat (map f (concat (map g xs))) = concat (map (\<lambda>x. concat (map f (g x))) xs)"
  by (induction xs) auto

lemma escape_literal_esc: "escape_literal s = concat (map esc s)"
  unfolding escape_literal_def replace_one concat_map_concat
  by (rule arg_cong [where f = concat]) (auto simp: esc_def)

text \<open>Reading after the opening quote: the content and what follows the closing quote.\<close>

definition echar :: "nat \<Rightarrow> nat option" where
  "echar d = map_of [(116, 9), (98, 8), (110, 10), (114, 13), (102, 12), (34, 34), (39, 39), (92, 92)] d"

fun read_literal :: "pystr \<Rightarrow> (pystr \<times> pystr) option" where
  "read_literal [] = None"
| "read_literal (c # cs) =
     (if c = 34 then Some ([], cs)
      else if c = 92 then (case cs of
          [] \<Rightarrow> None
        | d # ds \<Rightarrow> (case echar d of None \<Rightarrow> None
            | Some e \<Rightarrow> map_option (\<lambda>(s, r). (e # s, r)) (read_literal ds)))
      else if c = 10 \<or> c = 13 then None
      else map_option (\<lambda>(s, r). (c # s, r)) (read_literal cs))"

locale literal_codec =
  fixes enc :: "pystr \<Rightarrow> pystr" and dec :: "pystr \<Rightarrow> (pystr \<times> pystr) option"
  assumes dec_enc: "dec (enc s @ 34 # rest) = Some (s, rest)"
begin

lemma enc_inj: "enc s = enc t \<Longrightarrow> s = t"
  by (metis dec_enc option.inject prod.inject)

text \<open>Two literals in a row are read as two literals, whatever they contain.\<close>

lemma no_injection: "enc s @ 34 # u = enc t @ 34 # v \<Longrightarrow> s = t \<and> u = v"
  by (metis dec_enc option.inject prod.inject)

end

lemma read_escaped: "read_literal (escape_literal s @ 34 # rest) = Some (s, rest)"
proof -
  have step: "read_literal (esc c @ t) = map_option (\<lambda>(s, r). (c # s, r)) (read_literal t)" for c t
    by (simp add: esc_def echar_def)
  show ?thesis unfolding escape_literal_esc
    by (induction s) (simp_all add: step)
qed

interpretation turtle_literal: literal_codec escape_literal read_literal
  by unfold_locales (rule read_escaped)

section \<open>Terms\<close>

definition MSR :: pystr where "MSR = lit ''https://w3id.org/msr-kg/ontology#''"
definition MSRD :: pystr where "MSRD = lit ''https://w3id.org/msr-kg/data#''"
definition VOC :: pystr where "VOC = lit ''https://w3id.org/msr-kg/vocab#''"

definition measurements_term :: "pystr \<Rightarrow> pystr" where
  "measurements_term iri =
     (if starts_with (lit ''msr:'') iri \<or> starts_with (lit ''msrd:'') iri then iri
      else if starts_with MSR iri then lit ''msr:'' @ drop (length MSR) iri
      else if starts_with MSRD iri then lit ''msrd:'' @ drop (length MSRD) iri
      else lit ''<'' @ iri @ lit ''>'')"

definition edges_term :: "pystr \<Rightarrow> pystr" where
  "edges_term iri =
     (if starts_with (lit ''msr:'') iri \<or> starts_with (lit ''msrd:'') iri \<or> starts_with (lit ''voc:'') iri
      then iri
      else if starts_with MSR iri then lit ''msr:'' @ drop (length MSR) iri
      else if starts_with MSRD iri then lit ''msrd:'' @ drop (length MSRD) iri
      else if starts_with VOC iri then lit ''voc:'' @ drop (length VOC) iri
      else lit ''<'' @ iri @ lit ''>'')"

definition local_part :: "pystr \<Rightarrow> pystr" where
  "local_part iri = (if 35 \<in> set iri then after_last 35 iri
     else if 58 \<in> set iri then after_last 58 iri else iri)"

section \<open>Decimal literals\<close>

definition format_number :: "pyfloat \<Rightarrow> pystr" where
  "format_number v =
     (let s = float_repr v;
          s = (if 101 \<in> set s \<or> 69 \<in> set s then format_fixed 6 v else s)
      in if 46 \<in> set s then s else s @ lit ''.0'')"

definition format_confidence :: "pyfloat \<Rightarrow> pystr" where
  "format_confidence v = format_number (if is_finite v then v else Fin 0)"

section \<open>Updates\<close>

definition indent_block :: "pystr \<Rightarrow> pystr" where
  "indent_block triples_block = join nl (map (\<lambda>line. lit ''    '' @ line) (splitlines triples_block))"

definition insert_data_in :: "pystr \<Rightarrow> pystr \<Rightarrow> pystr \<Rightarrow> pystr" where
  "insert_data_in header graph body = concat [header, nl, lit ''INSERT DATA {'', nl,
     lit ''  GRAPH <'', graph, lit ''> {'', nl, body, nl, lit ''  }'', nl, lit ''}'']"

section \<open>Properties\<close>

text \<open>C17. Escaping is complete: a reader of the grammar's string literals that starts after the
  opening quote gets back exactly the text, and stops at the quote the writer put; so no text
  from a document or a model can close its literal early and inject a triple, and different
  texts are different literals.\<close>

theorem escape_literal_round_trip:
  "read_literal (escape_literal s @ 34 # rest) = Some (s, rest)
   \<and> (escape_literal s = escape_literal s') = (s = s')"
  using turtle_literal.dec_enc turtle_literal.enc_inj by blast

text \<open>The escaping is undone by the indentation: \<open>splitlines\<close> also breaks at form feeds, NEL
  and the Unicode line and paragraph separators, which \<open>_escape_literal\<close> leaves alone. A text
  with U+2028 ends up with a raw newline inside its literal, which no reader accepts, so the
  update is refused as a whole.\<close>

theorem indent_block_breaks_literal:
  "\<exists>s body. indent_block (34 # escape_literal s @ [34]) = lit ''    '' @ 34 # body
     \<and> read_literal (escape_literal s @ [34]) = Some (s, []) \<and> read_literal body = None"
proof -
  have e: "escape_literal [97, 8232, 98] = [97, 8232, 98]"
    by (simp add: escape_literal_esc esc_def)
  have "indent_block (34 # escape_literal [97, 8232, 98] @ [34])
      = lit ''    '' @ 34 # (97 # 10 # lit ''    '' @ [98, 34])"
    unfolding e by (simp add: indent_block_def is_line_break_def nl_def)
  moreover have "read_literal (97 # 10 # lit ''    '' @ [98, 34]) = None" by simp
  ultimately show ?thesis using read_escaped [of "[97, 8232, 98]" "[]"] by blast
qed

lemma set_show_nat: "set (show_nat n) \<subseteq> {48..57}"
proof (induction n rule: show_nat.induct)
  case (1 n)
  then show ?case by (subst show_nat.simps) auto
qed

lemma set_fixed_digits: "set (fixed_digits k r) \<subseteq> {48..57} \<union> {46} \<and> 46 \<in> set (fixed_digits k r)"
  using set_show_nat by (auto simp: fixed_digits_def Let_def pad_left_def)

lemma set_format_fixed:
  "is_finite v \<Longrightarrow> set (format_fixed k v) \<subseteq> {45, 46} \<union> {48..57} \<and> 46 \<in> set (format_fixed k v)"
proof (cases v)
  case (Fin r)
  then show ?thesis using set_fixed_digits [of k r] set_fixed_digits [of k "- r"] by auto
next
  case NegZero
  then show ?thesis using set_fixed_digits [of k 0] by auto
qed simp_all

lemma set_strip_zeros: "set (strip_zeros s) \<subseteq> set s"
  by (auto simp: strip_zeros_def dest: set_dropWhileD)

lemma set_repr_pos:
  assumes "101 \<notin> set (repr_pos r)"
  shows "set (repr_pos r) \<subseteq> {46} \<union> {48..57}"
proof -
  obtain m e where me: "shortest_digits r = (m, e)" by (cases "shortest_digits r")
  let ?all = "show_nat m" and ?ds = "strip_zeros (show_nat m)"
  let ?point = "int (length ?all) + e"
  have ds: "set ?ds \<subseteq> {48..57}" using set_strip_zeros set_show_nat by blast
  then have parts: "set (take k ?ds) \<subseteq> {48..57}" "set (drop k ?ds) \<subseteq> {48..57}" for k
    using set_take_subset set_drop_subset by fastforce+
  show ?thesis
  proof (cases "- 4 < ?point \<and> ?point \<le> 16")
    case True
    then have "repr_pos r = (if ?point \<le> 0 then lit ''0.'' @ replicate (nat (- ?point)) 48 @ ?ds
        else if int (length ?ds) \<le> ?point
          then ?ds @ replicate (nat ?point - length ?ds) 48 @ lit ''.0''
        else take (nat ?point) ?ds @ 46 # drop (nat ?point) ?ds)"
      by (simp only: repr_pos_def me Let_def prod.case if_True simp_thms)
    moreover have "set (replicate k (48 :: nat)) \<subseteq> {48..57}" for k by auto
    moreover have "set (lit ''0.'') \<subseteq> {46} \<union> {48..57}" "set (lit ''.0'') \<subseteq> {46} \<union> {48..57}"
      by (simp_all add: lit_def)
    ultimately show ?thesis using ds parts by (simp split: if_splits) blast+
  next
    case False
    have "?ds = []"
    proof (rule ccontr)
      assume "?ds \<noteq> []"
      then have "101 \<in> set (repr_pos r)"
        using False by (cases ?ds) (auto simp: repr_pos_def me Let_def lit_def)
      then show False using assms by simp
    qed
    then have "repr_pos r = []"
      using False by (auto simp: repr_pos_def me Let_def)
    then show ?thesis by simp
  qed
qed

text \<open>A number is always written as a plain decimal: digits, an optional sign and exactly what
  makes it an \<open>xsd:decimal\<close>, a point; never an exponent, \<open>nan\<close> or \<open>inf\<close>.\<close>

theorem format_confidence_plain_decimal:
  "set (format_confidence v) \<subseteq> {45, 46} \<union> {48..57} \<and> 46 \<in> set (format_confidence v)"
proof -
  have "set (format_number w) \<subseteq> {45, 46} \<union> {48..57} \<and> 46 \<in> set (format_number w)"
    if fin: "is_finite w" for w
  proof (cases "101 \<in> set (float_repr w) \<or> 69 \<in> set (float_repr w)")
    case True
    then show ?thesis using set_format_fixed [OF fin, of 6] by (simp add: format_number_def)
  next
    case False
    then have "set (float_repr w) \<subseteq> {45, 46} \<union> {48..57}"
      using set_repr_pos fin by (cases w) (auto simp: lit_def split: if_splits)
    then show ?thesis using False by (auto simp: format_number_def Let_def lit_def)
  qed
  then show ?thesis by (simp add: format_confidence_def)
qed

end
