(* ===== verification/Sparql.thy ===== *)
theory Sparql
  imports PyStr
begin

text \<open>
  \<open>sparql.py\<close> and the activity records of \<open>provenance.py\<close>. The endpoint is an argument:
  given the updates accepted so far and a new one it answers, or fails in transport
  (\<open>None\<close>). The client turns an answer into success, \<open>ValidationError\<close> or
  \<open>HTTPError\<close>; an update that is not accepted leaves the store as it was.
\<close>

section \<open>The client\<close>

record http_response =
  is_error :: bool
  response_text :: pystr

type_synonym endpoint = "pystr list \<Rightarrow> pystr \<Rightarrow> http_response option"

definition VALIDATION_REPORT_MARKERS :: "pystr list" where
  \<open>VALIDATION_REPORT_MARKERS =
     [lit ''validationreport'', lit ''sh:result'', lit ''"conforms"'', lit ''shacl'']\<close>

definition update_outcome :: "http_response option \<Rightarrow> unit result" where
  "update_outcome response = (case response of
       None \<Rightarrow> Inl HTTPError
     | Some r \<Rightarrow>
         if is_error r then
           (if list_ex (\<lambda>marker. has_sub marker (lower_ascii (response_text r)))
                VALIDATION_REPORT_MARKERS
            then Inl ValidationError else Inl HTTPError)
         else Inr ())"

text \<open>\<open>client.update\<close> on the log of accepted updates.\<close>

definition update :: "endpoint \<Rightarrow> pystr \<Rightarrow> pystr list \<Rightarrow> pystr list \<times> unit result" where
  "update post sparql_update accepted =
     (case update_outcome (post accepted sparql_update) of
        Inl e \<Rightarrow> (accepted, Inl e)
      | Inr _ \<Rightarrow> (accepted @ [sparql_update], Inr ()))"

lemma update_cases:
  "update post u acc = (acc @ [u], Inr ()) \<or> (\<exists>e \<in> {ValidationError, HTTPError}. update post u acc = (acc, Inl e))"
  by (auto simp: update_def update_outcome_def split: option.splits)

section \<open>Sending several updates\<close>

text \<open>Statements \<open>client.update(u1); client.update(u2)\<close>: the first exception ends the sequence.\<close>

fun send_all :: "endpoint \<Rightarrow> pystr list \<Rightarrow> pystr list \<Rightarrow> pystr list \<times> unit result" where
  "send_all post [] acc = (acc, Inr ())"
| "send_all post (u # us) acc =
     (case update post u acc of
        (acc', Inl e) \<Rightarrow> (acc', Inl e)
      | (acc', Inr _) \<Rightarrow> send_all post us acc')"

lemma send_all_prefix:
  "\<exists>k \<le> length us. fst (send_all post us acc) = acc @ take k us \<and>
     (snd (send_all post us acc) = Inr () \<longleftrightarrow> k = length us)"
proof (induction us arbitrary: acc)
  case (Cons u us)
  show ?case using update_cases [of post u acc]
  proof
    assume ok: "update post u acc = (acc @ [u], Inr ())"
    obtain k where "k \<le> length us" "fst (send_all post us (acc @ [u])) = (acc @ [u]) @ take k us"
        "snd (send_all post us (acc @ [u])) = Inr () \<longleftrightarrow> k = length us"
      using Cons.IH by blast
    then show ?thesis using ok by (intro exI [of _ "Suc k"]) simp
  qed (auto intro!: exI [of _ 0])
qed simp

lemma send_all_append:
  "send_all post (us @ vs) acc = (case send_all post us acc of
     (acc', Inl e) \<Rightarrow> (acc', Inl e) | (acc', Inr _) \<Rightarrow> send_all post vs acc')"
  by (induction us arbitrary: acc) (auto split: prod.splits sum.splits)

section \<open>Provenance\<close>

definition ACTIVITY_IRI :: pystr where "ACTIVITY_IRI = lit ''msrd:activity-extraction''"
definition EXTRACTION_VERSION :: pystr where "EXTRACTION_VERSION = lit ''0.4.0''"
definition AGENT_IRI :: pystr where
  "AGENT_IRI = lit ''<agent:extraction@'' @ EXTRACTION_VERSION @ lit ''>''"

definition ACTIVITY_PREFIXES :: pystr where
  "ACTIVITY_PREFIXES = join nl
     [lit ''PREFIX msr: <https://w3id.org/msr-kg/ontology#>'',
      lit ''PREFIX msrd: <https://w3id.org/msr-kg/data#>'',
      lit ''PREFIX prov: <http://www.w3.org/ns/prov#>'',
      lit ''PREFIX owl: <http://www.w3.org/2002/07/owl#>'',
      lit ''PREFIX xsd: <http://www.w3.org/2001/XMLSchema#>'']"

definition run_activity_iri :: "pystr \<Rightarrow> pystr" where
  "run_activity_iri run_ts = lit ''<urn:msr:run:extraction/'' @ run_ts @ lit ''>''"

definition activity_insert_data :: "pystr \<Rightarrow> pystr" where
  \<open>activity_insert_data run_ts = concat
     [ACTIVITY_PREFIXES, nl, lit ''INSERT DATA {'', nl, lit ''  GRAPH <urn:msr:provenance> {'', nl,
      lit ''    '', run_activity_iri run_ts, lit '' a prov:Activity ;'', nl,
      lit ''        prov:wasAssociatedWith '', AGENT_IRI, lit '' ;'', nl,
      lit ''        prov:startedAtTime "'', run_ts, lit ''"^^xsd:dateTime ;'', nl,
      lit ''        prov:endedAtTime   "'', run_ts, lit ''"^^xsd:dateTime ;'', nl,
      lit ''        owl:versionInfo "'', EXTRACTION_VERSION, lit ''" .'', nl,
      lit ''  }'', nl, lit ''}'']\<close>

definition write_activity :: "endpoint \<Rightarrow> pystr \<Rightarrow> pystr list \<Rightarrow> pystr list \<times> unit result" where
  "write_activity post run_ts acc = update post (activity_insert_data run_ts) acc"

definition stable_activity_insert_data :: pystr where
  \<open>stable_activity_insert_data = concat
     [ACTIVITY_PREFIXES, nl, lit ''INSERT DATA {'', nl, lit ''  GRAPH <urn:msr:data> {'', nl,
      lit ''    '', ACTIVITY_IRI, lit '' a prov:Activity ;'', nl,
      lit ''        prov:wasAssociatedWith '', AGENT_IRI, lit '' ;'', nl,
      lit ''        owl:versionInfo "'', EXTRACTION_VERSION, lit ''" .'', nl,
      lit ''  }'', nl, lit ''}'']\<close>

definition write_stable_activity :: "endpoint \<Rightarrow> pystr list \<Rightarrow> pystr list \<times> unit result" where
  "write_stable_activity post acc = update post stable_activity_insert_data acc"

section \<open>Properties\<close>

text \<open>The client classifies every answer: only a non-error answer is a success; an error whose
  body mentions a SHACL report, in any capitalisation, is a \<open>ValidationError\<close>, any other
  failure an HTTP error; and only a success changes the store, by exactly that update.\<close>

theorem update_classifies:
  "update post u acc = (acc @ [u], Inr ()) \<and> (\<exists>r. post acc u = Some r \<and> \<not> is_error r)
   \<or> update post u acc = (acc, Inl ValidationError) \<and>
       (\<exists>r. post acc u = Some r \<and> is_error r \<and>
         list_ex (\<lambda>m. has_sub m (lower_ascii (response_text r))) VALIDATION_REPORT_MARKERS)
   \<or> update post u acc = (acc, Inl HTTPError) \<and>
       (post acc u = None \<or> (\<exists>r. post acc u = Some r \<and> is_error r \<and>
         \<not> list_ex (\<lambda>m. has_sub m (lower_ascii (response_text r))) VALIDATION_REPORT_MARKERS))"
  by (auto simp: update_def update_outcome_def split: option.splits)

end
