(* ===== verification/Measurement_Store.thy ===== *)
theory Measurement_Store
  imports PyFloat
begin

text \<open>
  \<open>measurement_store.py\<close>: the SQLite table \<open>measurement_value\<close> with its primary key
  \<open>locator\<close> and its \<open>CHECK\<close> on \<open>source\<close>, and the upsert by locator. SQLite stores a
  not-a-number as \<open>NULL\<close>.
\<close>

section \<open>The table\<close>

record measurement_row =
  mr_locator :: pystr
  mr_salt :: pystr
  mr_property :: pystr
  mr_equation_form :: pystr
  c0 :: "pyfloat option"
  c1 :: "pyfloat option"
  c2 :: "pyfloat option"
  c3 :: "pyfloat option"
  c4 :: "pyfloat option"
  mr_t_min :: "pyfloat option"
  mr_t_max :: "pyfloat option"
  mr_uncertainty :: "pystr option"
  mr_doc_id :: "pystr option"
  mr_source :: pystr

type_synonym table = "pystr \<rightharpoonup> measurement_row"

definition sql_real :: "pyfloat option \<Rightarrow> pyfloat option" where
  "sql_real v = (if v = Some NaN then None else v)"

text \<open>The row as bound to the statement's parameters.\<close>

definition bound_row :: "measurement_row \<Rightarrow> measurement_row" where
  "bound_row r = r\<lparr>c0 := sql_real (c0 r), c1 := sql_real (c1 r), c2 := sql_real (c2 r),
     c3 := sql_real (c3 r), c4 := sql_real (c4 r), mr_t_min := sql_real (mr_t_min r),
     mr_t_max := sql_real (mr_t_max r)\<rparr>"

definition source_allowed :: "measurement_row \<Rightarrow> bool" where
  "source_allowed r \<longleftrightarrow> mr_source r \<in> {lit ''nist'', lit ''document''}"

text \<open>\<open>INSERT ... ON CONFLICT(locator) DO UPDATE SET\<close> every other column.\<close>

definition upsert_row :: "measurement_row \<Rightarrow> table \<Rightarrow> table" where
  "upsert_row row t =
     (let excluded = bound_row row in
      case t (mr_locator row) of
        None \<Rightarrow> t(mr_locator row \<mapsto> excluded)
      | Some old \<Rightarrow> t(mr_locator row \<mapsto> old\<lparr>mr_salt := mr_salt excluded,
          mr_property := mr_property excluded, c0 := c0 excluded, c1 := c1 excluded,
          c2 := c2 excluded, c3 := c3 excluded, c4 := c4 excluded, mr_t_min := mr_t_min excluded,
          mr_t_max := mr_t_max excluded, mr_equation_form := mr_equation_form excluded,
          mr_uncertainty := mr_uncertainty excluded, mr_source := mr_source excluded,
          mr_doc_id := mr_doc_id excluded\<rparr>))"

text \<open>\<open>upsert_rows\<close>: one \<open>executemany\<close>, committed as a whole; a row that violates the
  \<open>CHECK\<close> raises before the commit.\<close>

definition upsert_rows :: "measurement_row list \<Rightarrow> table \<Rightarrow> table result" where
  "upsert_rows rows t =
     (if rows = [] then Inr t
      else if list_all source_allowed rows then Inr (fold upsert_row rows t)
      else Inl IntegrityError)"

section \<open>The contract of a store keyed by locator\<close>

locale keyed_store =
  fixes put :: "'r \<Rightarrow> 's \<Rightarrow> 's" and get :: "'s \<Rightarrow> 'k \<Rightarrow> 'r option"
    and key :: "'r \<Rightarrow> 'k" and stored :: "'r \<Rightarrow> 'r" and ok :: "'s \<Rightarrow> bool"
  assumes get_put: "ok s \<Longrightarrow> get (put r s) k = (if k = key r then Some (stored r) else get s k)"
    and ok_put: "ok s \<Longrightarrow> ok (put r s)"
begin

lemma put_idem: "ok s \<Longrightarrow> get (put r (put r s)) = get (put r s)"
  by (simp add: fun_eq_iff get_put ok_put)

lemma put_overwrites: "ok s \<Longrightarrow> key r = key r' \<Longrightarrow> get (put r (put r' s)) = get (put r s)"
  by (simp add: fun_eq_iff get_put ok_put)

lemma put_commutes: "ok s \<Longrightarrow> key r \<noteq> key r' \<Longrightarrow> get (put r (put r' s)) = get (put r' (put r s))"
  by (auto simp: fun_eq_iff get_put ok_put)

lemma ok_fold: "ok s \<Longrightarrow> ok (fold put rs s)"
  by (induction rs arbitrary: s) (auto intro: ok_put)

lemma get_fold: "ok s \<Longrightarrow> get (fold put rs s) k =
    (case find (\<lambda>r. key r = k) (rev rs) of Some r \<Rightarrow> Some (stored r) | None \<Rightarrow> get s k)"
proof (induction rs arbitrary: s)
  case (Cons r rs)
  have "find (\<lambda>r. key r = k) (xs @ [r]) = (case find (\<lambda>r. key r = k) xs of
      Some q \<Rightarrow> Some q | None \<Rightarrow> if key r = k then Some r else None)" for xs
    by (induction xs) auto
  then show ?case using Cons.IH [OF ok_put [OF Cons.prems], of r] Cons.prems
    by (auto simp: get_put split: option.splits)
qed simp

end

definition well_keyed :: "table \<Rightarrow> bool" where
  "well_keyed t \<longleftrightarrow> (\<forall>k r. t k = Some r \<longrightarrow> mr_locator r = k)"

lemma bound_row_locator [simp]: "mr_locator (bound_row r) = mr_locator r"
  by (simp add: bound_row_def)

lemma upsert_row_get:
  assumes "well_keyed t"
  shows "upsert_row r t k = (if k = mr_locator r then Some (bound_row r) else t k)"
proof (cases "t (mr_locator r)")
  case (Some old)
  then have "mr_locator old = mr_locator r" using assms by (simp add: well_keyed_def)
  then show ?thesis using Some by (cases "bound_row r"; cases old) (auto simp: upsert_row_def Let_def dest: arg_cong [where f = mr_locator])
qed (simp add: upsert_row_def Let_def)

interpretation measurement_table: keyed_store upsert_row "\<lambda>t. t" mr_locator bound_row well_keyed
proof
  fix t r k
  assume t: "well_keyed t"
  then show "upsert_row r t k = (if k = mr_locator r then Some (bound_row r) else t k)"
    by (rule upsert_row_get)
  show "well_keyed (upsert_row r t)"
    using t by (simp add: well_keyed_def upsert_row_get)
qed

section \<open>Properties\<close>

text \<open>Upserting a batch is last-writer-wins by locator: afterwards each locator holds the last
  row of the batch with that key, as bound, and every other locator keeps its row; the table
  stays keyed by its locators and running the batch again changes nothing. A row with a source
  the schema does not allow fails the whole batch.\<close>

theorem upsert_rows_spec:
  assumes "well_keyed t"
  shows "upsert_rows rows t = (if list_all source_allowed rows then Inr (fold upsert_row rows t) else Inl IntegrityError)
    \<and> fold upsert_row rows t k = (case find (\<lambda>r. mr_locator r = k) (rev rows) of
        Some r \<Rightarrow> Some (bound_row r) | None \<Rightarrow> t k)
    \<and> well_keyed (fold upsert_row rows t)
    \<and> fold upsert_row rows (fold upsert_row rows t) = fold upsert_row rows t"
proof -
  note get = measurement_table.get_fold and ok = measurement_table.ok_fold [OF assms]
  have "fold upsert_row rows (fold upsert_row rows t) k = fold upsert_row rows t k" for k
    by (simp add: get [OF ok] get [OF assms] split: option.splits)
  then show ?thesis using get [OF assms] ok by (auto simp: upsert_rows_def)
qed

definition sample_row :: measurement_row where
  "sample_row = \<lparr>mr_locator = lit ''doc/r/density#FLiBe'', mr_salt = lit ''FLiBe'',
     mr_property = lit ''density'', mr_equation_form = lit ''Linear'', c0 = Some (Fin 2),
     c1 = Some NaN, c2 = None, c3 = None, c4 = None, mr_t_min = None, mr_t_max = None,
     mr_uncertainty = None, mr_doc_id = Some (lit ''r''), mr_source = lit ''document''\<rparr>"

lemma upsert_rows_spec_witness:
  "\<exists>t. upsert_rows [sample_row, sample_row\<lparr>c0 := Some (Fin 3)\<rparr>] Map.empty = Inr t
     \<and> t (lit ''doc/r/density#FLiBe'') = Some (bound_row (sample_row\<lparr>c0 := Some (Fin 3)\<rparr>))"
proof -
  have ok: "well_keyed Map.empty" by (simp add: well_keyed_def)
  show ?thesis
    using upsert_rows_spec [OF ok, of "[sample_row, sample_row\<lparr>c0 := Some (Fin 3)\<rparr>]" "lit ''doc/r/density#FLiBe''"]
    by (auto simp: source_allowed_def sample_row_def)
qed

end
