(* ===== verification/Measurements.thy ===== *)
theory Measurements
  imports Slug Turtle Sparql Measurement_Store Equations
begin

text \<open>
  \<open>measurements.py\<close>: the locator and IRI of a text-derived measurement, its Turtle block, its
  table row, and \<open>write_measurement\<close>, which writes the data graph, then the table, then the
  provenance graph.
\<close>

section \<open>Identifiers\<close>

definition salt_slug :: "pystr \<Rightarrow> pystr" where
  "salt_slug salt_iri = (let l = local_part salt_iri in
     if starts_with (lit ''salt-'') l then drop (length (lit ''salt-'')) l else l)"

definition build_locator :: "pystr \<Rightarrow> pystr \<Rightarrow> pystr \<Rightarrow> pystr" where
  "build_locator rep property_name salt_iri =
     lit ''doc/'' @ rep @ lit ''/'' @ property_name @ lit ''#'' @ salt_slug salt_iri"

definition measurement_iri :: "pystr \<Rightarrow> pystr" where
  "measurement_iri locator = lit ''msrd:m-'' @ measurements_slugify locator"

section \<open>Text\<close>

definition MEASUREMENT_PREFIXES :: pystr where
  "MEASUREMENT_PREFIXES = join nl
     [lit ''PREFIX msr: <https://w3id.org/msr-kg/ontology#>'',
      lit ''PREFIX msrd: <https://w3id.org/msr-kg/data#>'',
      lit ''PREFIX prov: <http://www.w3.org/ns/prov#>'',
      lit ''PREFIX xsd: <http://www.w3.org/2001/XMLSchema#>'',
      lit ''PREFIX unit: <http://qudt.org/vocab/unit/>'']"

definition PROVENANCE_PREFIXES :: pystr where
  "PROVENANCE_PREFIXES = join nl
     [lit ''PREFIX msrd: <https://w3id.org/msr-kg/data#>'',
      lit ''PREFIX prov: <http://www.w3.org/ns/prov#>'']"

record measurement_input =
  mi_salt_iri :: pystr
  mi_property_iri :: pystr
  mi_property_name :: pystr
  mi_unit_curie :: pystr
  mi_equation :: equation_parse
  mi_uncertainty :: "pystr option"
  mi_confidence :: pyfloat
  mi_rationale :: pystr
  mi_report :: pystr

definition temperature_lines :: "pyfloat option \<Rightarrow> pyfloat option \<Rightarrow> pystr list" where
  "temperature_lines lo hi = (case (lo, hi) of
       (Some a, Some b) \<Rightarrow> [lit ''    msr:validTempMin '' @ format_number a @ lit '' ;'',
         lit ''    msr:validTempMax '' @ format_number b @ lit '' ;'']
     | _ \<Rightarrow> [])"

definition measurement_lines :: "measurement_input \<Rightarrow> pystr list" where
  \<open>measurement_lines m =
     (let locator = build_locator (mi_report m) (mi_property_name m) (mi_salt_iri m);
          eq = mi_equation m
      in [measurement_iri locator @ lit '' a msr:PropertyMeasurement ;'',
          lit ''    msr:ofSalt '' @ measurements_term (mi_salt_iri m) @ lit '' ;'',
          lit ''    msr:forProperty '' @ measurements_term (mi_property_iri m) @ lit '' ;'',
          lit ''    msr:hasUnit '' @ mi_unit_curie m @ lit '' ;'',
          lit ''    msr:equationForm msr:'' @ form eq @ lit '' ;''] @
         temperature_lines (t_min eq) (t_max eq) @
         [lit ''    msr:dataLocator "'' @ escape_literal locator @ lit ''" ;'',
          lit ''    msr:citedIn msrd:'' @ mi_report m @ lit '' ;'',
          lit ''    msr:extractionConfidence "'' @ format_confidence (mi_confidence m) @
            lit ''"^^xsd:decimal ;'',
          lit ''    msr:extractionRationale "'' @ escape_literal (mi_rationale m) @
            lit ''"^^xsd:string ;'',
          lit ''    prov:wasGeneratedBy '' @ ACTIVITY_IRI @ lit '' ;'',
          lit ''    prov:wasDerivedFrom msrd:'' @ mi_report m @ lit '' .''])\<close>

definition measurement_triples :: "measurement_input \<Rightarrow> pystr" where
  "measurement_triples m = join nl (measurement_lines m)"

definition measurement_insert_data :: "pystr \<Rightarrow> pystr" where
  "measurement_insert_data triples_block =
     insert_data_in MEASUREMENT_PREFIXES (lit ''urn:msr:data'') (indent_block triples_block)"

definition generation_lines :: "pystr list \<Rightarrow> pystr \<Rightarrow> pystr" where
  "generation_lines iris run_ts = join nl (map (\<lambda>iri. lit ''    '' @ iri @
     lit '' prov:wasGeneratedBy '' @ run_activity_iri run_ts @ lit '' .'') iris)"

definition measurement_provenance_insert_data :: "pystr list \<Rightarrow> pystr \<Rightarrow> pystr" where
  "measurement_provenance_insert_data measurement_iris run_ts =
     insert_data_in PROVENANCE_PREFIXES (lit ''urn:msr:provenance'')
       (generation_lines measurement_iris run_ts)"

section \<open>The row\<close>

definition coeff :: "pyfloat list \<Rightarrow> nat \<Rightarrow> pyfloat option" where
  "coeff cs i = (if i < length cs then Some (cs ! i) else None)"

definition to_row :: "measurement_input \<Rightarrow> measurement_row" where
  "to_row m = (let eq = mi_equation m in
     \<lparr>mr_locator = build_locator (mi_report m) (mi_property_name m) (mi_salt_iri m),
      mr_salt = salt_slug (mi_salt_iri m), mr_property = mi_property_name m,
      mr_equation_form = form eq, c0 = coeff (coeffs eq) 0, c1 = coeff (coeffs eq) 1,
      c2 = coeff (coeffs eq) 2, c3 = coeff (coeffs eq) 3, c4 = coeff (coeffs eq) 4,
      mr_t_min = t_min eq, mr_t_max = t_max eq, mr_uncertainty = mi_uncertainty m,
      mr_doc_id = Some (mi_report m), mr_source = lit ''document''\<rparr>)"

section \<open>The dual-store writer\<close>

record stores =
  updates :: "pystr list"
  rows :: table

definition write_measurement ::
    "endpoint \<Rightarrow> pystr \<Rightarrow> measurement_input \<Rightarrow> stores \<Rightarrow> stores \<times> pystr result" where
  "write_measurement post run_ts m st =
     (let locator = build_locator (mi_report m) (mi_property_name m) (mi_salt_iri m);
          miri = measurement_iri locator
      in case update post (measurement_insert_data (measurement_triples m)) (updates st) of
           (acc, Inl e) \<Rightarrow> (st\<lparr>updates := acc\<rparr>, Inl e)
         | (acc, Inr _) \<Rightarrow>
             (case upsert_rows [to_row m] (rows st) of
                Inl e \<Rightarrow> (st\<lparr>updates := acc\<rparr>, Inl e)
              | Inr t \<Rightarrow>
                  (case update post (measurement_provenance_insert_data [miri] run_ts) acc of
                     (acc', Inl e) \<Rightarrow> (st\<lparr>updates := acc', rows := t\<rparr>, Inl e)
                   | (acc', Inr _) \<Rightarrow> (st\<lparr>updates := acc', rows := t\<rparr>, Inr miri))))"

section \<open>The row carries the equation\<close>

definition row_coeffs :: "measurement_row \<Rightarrow> pyfloat option list" where
  "row_coeffs r = [c0 r, c1 r, c2 r, c3 r, c4 r]"

lemma row_coeffs_to_row:
  "length (coeffs (mi_equation m)) \<le> 5 \<Longrightarrow>
   List.map_filter id (row_coeffs (to_row m)) = coeffs (mi_equation m)"
proof -
  assume len: "length (coeffs (mi_equation m)) \<le> 5"
  have "List.map_filter id [coeff cs 0, coeff cs 1, coeff cs 2, coeff cs 3, coeff cs 4] = cs"
    if "length cs \<le> 5" for cs
  proof -
    have "length cs = 0 \<or> length cs = 1 \<or> length cs = 2 \<or> length cs = 3 \<or> length cs = 4 \<or> length cs = 5"
      using that by linarith
    then show ?thesis
      by (elim disjE) (auto simp: length_Suc_conv numeral_eq_Suc coeff_def List.map_filter_def)
  qed
  from this [OF len] show ?thesis by (simp add: row_coeffs_def to_row_def Let_def)
qed

text \<open>The table row of a well-formed equation loses nothing: its non-null coefficients, in
  column order, are exactly the equation's, its form and temperature bounds are the
  equation's, and its source is one the schema allows. With finite numbers SQLite stores the
  row as it is.\<close>

theorem to_row_faithful:
  assumes "wf_equation (mi_equation m)"
  shows "List.map_filter id (row_coeffs (to_row m)) = coeffs (mi_equation m)
    \<and> mr_equation_form (to_row m) = form (mi_equation m)
    \<and> mr_t_min (to_row m) = t_min (mi_equation m) \<and> mr_t_max (to_row m) = t_max (mi_equation m)
    \<and> source_allowed (to_row m)
    \<and> (list_all is_finite (coeffs (mi_equation m)) \<longrightarrow> pred_option is_finite (t_min (mi_equation m)) \<longrightarrow>
        pred_option is_finite (t_max (mi_equation m)) \<longrightarrow> bound_row (to_row m) = to_row m)"
proof -
  have len: "length (coeffs (mi_equation m)) \<le> 5"
    using assms arity_at_most_five [of "form (mi_equation m)"] by (fastforce simp: wf_equation_def)
  have fin: "list_all is_finite cs \<Longrightarrow> coeff cs i \<noteq> Some NaN" for cs i
    by (auto simp: coeff_def list_all_length dest!: spec [of _ i])
  have fin': "pred_option is_finite b \<Longrightarrow> b \<noteq> Some NaN" for b
    by (cases b) auto
  have "list_all is_finite (coeffs (mi_equation m)) \<Longrightarrow> pred_option is_finite (t_min (mi_equation m)) \<Longrightarrow>
      pred_option is_finite (t_max (mi_equation m)) \<Longrightarrow> bound_row (to_row m) = to_row m"
    using fin [of "coeffs (mi_equation m)"] fin' [of "t_min (mi_equation m)"] fin' [of "t_max (mi_equation m)"]
    by (simp add: bound_row_def to_row_def Let_def sql_real_def)
  then show ?thesis using row_coeffs_to_row [OF len]
    by (auto simp: to_row_def Let_def source_allowed_def)
qed

definition sample_input :: measurement_input where
  "sample_input = \<lparr>mi_salt_iri = lit ''https://w3id.org/msr-kg/data#salt-FLiBe'',
     mi_property_iri = lit ''msr:density'', mi_property_name = lit ''density'',
     mi_unit_curie = lit ''unit:GM-PER-CentiM3'',
     mi_equation = \<lparr>form = lit ''Linear'', coeffs = [Fin 2, Fin (- (1 / 2048))], t_min = Some (Fin 700),
       t_max = Some (Fin 900)\<rparr>, mi_uncertainty = None, mi_confidence = Fin (3 / 4),
     mi_rationale = lit ''stated'', mi_report = lit ''ORNL-1''\<rparr>"

lemma sample_input_wf: "wf_equation (mi_equation sample_input)"
  by (simp add: sample_input_def wf_equation_def ARITY_def range_ok_def)

lemma to_row_faithful_witness:
  "List.map_filter id (row_coeffs (to_row sample_input)) = [Fin 2, Fin (- (1 / 2048))]
   \<and> bound_row (to_row sample_input) = to_row sample_input"
  using to_row_faithful [OF sample_input_wf] by (simp add: sample_input_def)

section \<open>Order of the writes\<close>

lemma to_row_allowed [simp]: "source_allowed (to_row m)"
  by (simp add: source_allowed_def to_row_def Let_def)

lemma to_row_locator [simp]:
  "mr_locator (to_row m) = build_locator (mi_report m) (mi_property_name m) (mi_salt_iri m)"
  by (simp add: to_row_def Let_def)

lemma upsert_one: "upsert_rows [to_row m] t = Inr (upsert_row (to_row m) t)"
  by (simp add: upsert_rows_def)

definition data_update :: "measurement_input \<Rightarrow> pystr" where
  "data_update m = measurement_insert_data (measurement_triples m)"

definition provenance_update :: "pystr \<Rightarrow> measurement_input \<Rightarrow> pystr" where
  "provenance_update run_ts m = measurement_provenance_insert_data
     [measurement_iri (build_locator (mi_report m) (mi_property_name m) (mi_salt_iri m))] run_ts"

lemma write_measurement_cases:
  "(\<exists>e \<in> {ValidationError, HTTPError}.
      write_measurement post run_ts m st = (st, Inl e)
      \<or> write_measurement post run_ts m st =
          (st\<lparr>updates := updates st @ [data_update m], rows := upsert_row (to_row m) (rows st)\<rparr>, Inl e))
   \<or> write_measurement post run_ts m st =
       (st\<lparr>updates := updates st @ [data_update m, provenance_update run_ts m],
           rows := upsert_row (to_row m) (rows st)\<rparr>,
        Inr (measurement_iri (build_locator (mi_report m) (mi_property_name m) (mi_salt_iri m))))"
  using update_cases [of post "data_update m" "updates st"]
    update_cases [of post "provenance_update run_ts m" "updates st @ [data_update m]"]
  by (auto simp: write_measurement_def Let_def upsert_one data_update_def provenance_update_def)


text \<open>C29. Idempotence: writing the same measurement again, at another time, leaves the table as it
  was and adds no new statement to the data graph (the second data update is the same text);
  only the provenance graph gets the new run's edge.\<close>

theorem write_measurement_idempotent:
  assumes "well_keyed (rows st)"
    and "write_measurement post run_ts m st = (st1, Inr iri)"
    and "write_measurement post run_ts' m st1 = (st2, Inr iri')"
  shows "rows st2 = rows st1 \<and> iri' = iri \<and>
    rows st1 (mr_locator (to_row m)) = Some (bound_row (to_row m)) \<and>
    set (updates st2) = insert (provenance_update run_ts' m) (set (updates st1))"
proof -
  have 1: "st1 = st\<lparr>updates := updates st @ [data_update m, provenance_update run_ts m],
      rows := upsert_row (to_row m) (rows st)\<rparr>"
      "iri = measurement_iri (build_locator (mi_report m) (mi_property_name m) (mi_salt_iri m))"
    using write_measurement_cases [of post run_ts m st] assms(2) by auto
  have 2: "st2 = st1\<lparr>updates := updates st1 @ [data_update m, provenance_update run_ts' m],
      rows := upsert_row (to_row m) (rows st1)\<rparr>"
      "iri' = measurement_iri (build_locator (mi_report m) (mi_property_name m) (mi_salt_iri m))"
    using write_measurement_cases [of post run_ts' m st1] assms(3) by auto
  show ?thesis
    using measurement_table.put_idem [OF assms(1), of "to_row m"]
      upsert_row_get [OF assms(1), of "to_row m"]
    by (auto simp: 1 2)
qed

definition accepting :: endpoint where
  "accepting acc u = Some \<lparr>is_error = False, response_text = []\<rparr>"

lemma write_measurement_idempotent_witness:
  "\<exists>st1 st2. write_measurement accepting (lit ''t1'') sample_input \<lparr>updates = [], rows = Map.empty\<rparr>
       = (st1, Inr (measurement_iri (lit ''doc/ORNL-1/density#FLiBe''))) \<and>
     write_measurement accepting (lit ''t2'') sample_input st1
       = (st2, Inr (measurement_iri (lit ''doc/ORNL-1/density#FLiBe''))) \<and>
     rows st2 = rows st1 \<and> rows st1 (lit ''doc/ORNL-1/density#FLiBe'') \<noteq> None"
proof -
  let ?st = "\<lparr>updates = [], rows = Map.empty\<rparr> :: stores"
  have acc: "update accepting u acc = (acc @ [u], Inr ())" for u acc
    by (simp add: update_def update_outcome_def accepting_def)
  have loc: "build_locator (mi_report sample_input) (mi_property_name sample_input) (mi_salt_iri sample_input)
      = lit ''doc/ORNL-1/density#FLiBe''"
    by (simp add: sample_input_def build_locator_def salt_slug_def local_part_def after_last_def
        starts_with_def lit_def)
  have ok: "well_keyed (rows ?st)" by (simp add: well_keyed_def)
  have succeeds: "\<exists>st'. write_measurement accepting ts sample_input st
      = (st', Inr (measurement_iri (lit ''doc/ORNL-1/density#FLiBe'')))" for ts st
    by (simp add: write_measurement_def Let_def acc upsert_one loc)
  obtain st1 where st1: "write_measurement accepting (lit ''t1'') sample_input ?st
      = (st1, Inr (measurement_iri (lit ''doc/ORNL-1/density#FLiBe'')))"
    using succeeds by blast
  obtain st2 where st2: "write_measurement accepting (lit ''t2'') sample_input st1
      = (st2, Inr (measurement_iri (lit ''doc/ORNL-1/density#FLiBe'')))"
    using succeeds by blast
  from write_measurement_idempotent [OF ok st1 st2] show ?thesis
    using st1 st2 by (auto simp: loc)
qed

section \<open>Locators\<close>

text \<open>Locators do not collide: reports and property names without a slash or a hash, as they
  are, can be read back from the locator together with the salt's slug.\<close>

theorem build_locator_injective:
  assumes "47 \<notin> set r" "47 \<notin> set r'" "35 \<notin> set p" "35 \<notin> set p'"
    and "build_locator r p s = build_locator r' p' s'"
  shows "r = r' \<and> p = p' \<and> salt_slug s = salt_slug s'"
proof -
  have "r @ 47 # (p @ 35 # salt_slug s) = r' @ 47 # (p' @ 35 # salt_slug s')"
    using assms(5) by (simp add: build_locator_def lit_def)
  from append_sep_inj [OF assms(1,2) this] append_sep_inj [OF assms(3,4)]
  show ?thesis by blast
qed

lemma build_locator_injective_witness:
  "47 \<notin> set (lit ''ORNL-1'') \<and> build_locator (lit ''ORNL-1'') (lit ''density'') (lit ''x#salt-FLiBe'')
     = build_locator (lit ''ORNL-1'') (lit ''density'') (lit ''FLiBe'') \<and>
   salt_slug (lit ''x#salt-FLiBe'') = salt_slug (lit ''FLiBe'')"
proof -
  have c: "47 \<notin> set (lit ''ORNL-1'')" "35 \<notin> set (lit ''density'')" by (simp_all add: lit_def)
  have "build_locator (lit ''ORNL-1'') (lit ''density'') (lit ''x#salt-FLiBe'')
     = build_locator (lit ''ORNL-1'') (lit ''density'') (lit ''FLiBe'')"
    by (simp add: build_locator_def salt_slug_def local_part_def after_last_def starts_with_def lit_def)
  then show ?thesis using build_locator_injective [OF c(1) c(1) c(2) c(2)] c by blast
qed

end
