(* ===== verification/Edges.thy ===== *)
theory Edges
  imports Measurements "HOL-Library.Product_Lexorder"
begin

text \<open>
  \<open>edges.py\<close>: the direct edges between salts, roles, reactors, safety functions and
  requirements, each with a reification node, and the writers that send them in a
  deterministic order followed by the run's provenance. Slugs that become part of an IRI go
  through \<open>_safe_reactor_slug\<close>.
\<close>

section \<open>Candidates\<close>

record edge =
  e_report :: pystr
  document_iri :: pystr
  e_confidence :: pyfloat
  e_rationale :: pystr

record role_edge = edge +
  re_salt_iri :: pystr
  re_role_iri :: pystr

record reactor_edge = edge +
  xe_salt_iri :: pystr
  reactor_slug :: pystr
  reactor_label :: pystr
  grounding_concept_iri :: pystr

record served_by_edge = edge +
  se_safety_function_iri :: pystr
  se_property_iri :: pystr
  se_standard_name :: "pystr option"

record addresses_function_edge = edge +
  ae_requirement_iri :: pystr
  ae_safety_function_iri :: pystr
  ae_standard_name :: "pystr option"
  ae_threshold_value :: "pyfloat option"
  ae_threshold_comparator :: "pystr option"
  ae_threshold_unit :: "pystr option"

section \<open>IRIs\<close>

definition slug_char :: "nat \<Rightarrow> bool" where
  "slug_char c \<longleftrightarrow> is_lower c \<or> is_ascii_digit c \<or> c = 45"

text \<open>\<open>re.sub("-+", "-", s)\<close>.\<close>

fun squeeze_dashes :: "pystr \<Rightarrow> pystr" where
  "squeeze_dashes (x # y # s) =
     (if x = 45 \<and> y = 45 then squeeze_dashes (y # s) else x # squeeze_dashes (y # s))"
| "squeeze_dashes s = s"

definition safe_reactor_slug :: "pystr \<Rightarrow> pystr" where
  "safe_reactor_slug slug =
     strip_by (\<lambda>c. c = 45) (squeeze_dashes (filter slug_char (lower_ascii slug)))"

definition reactor_iri :: "pystr \<Rightarrow> pystr" where
  "reactor_iri slug = lit ''msrd:reactor-'' @ safe_reactor_slug slug"

definition role_statement_iri :: "role_edge \<Rightarrow> pystr" where
  "role_statement_iri e = lit ''msrd:edge-'' @ e_report e @ lit ''-'' @
     edges_slugify (local_part (re_salt_iri e)) @ lit ''-hasRole-'' @ local_part (re_role_iri e)"

definition reactor_statement_iri :: "reactor_edge \<Rightarrow> pystr" where
  "reactor_statement_iri e = lit ''msrd:edge-'' @ e_report e @ lit ''-'' @
     edges_slugify (local_part (xe_salt_iri e)) @ lit ''-usedIn-reactor-'' @
     safe_reactor_slug (reactor_slug e)"

definition standard_iri :: "pystr \<Rightarrow> pystr option" where
  "standard_iri name = (let safe = safe_reactor_slug (edges_slugify name) in
     if safe = [] then None else Some (lit ''msrd:'' @ safe))"

definition served_by_statement_iri :: "served_by_edge \<Rightarrow> pystr" where
  "served_by_statement_iri e = lit ''msrd:edge-'' @ e_report e @ lit ''-'' @
     edges_slugify (local_part (se_safety_function_iri e)) @ lit ''-servedByProperty-'' @
     local_part (se_property_iri e)"

definition addresses_function_statement_iri :: "addresses_function_edge \<Rightarrow> pystr" where
  "addresses_function_statement_iri e = lit ''msrd:edge-'' @ e_report e @ lit ''-'' @
     edges_slugify (local_part (ae_requirement_iri e)) @ lit ''-addressesFunction-'' @
     edges_slugify (local_part (ae_safety_function_iri e))"

section \<open>Blocks\<close>

text \<open>The reification node every edge carries; each \<open>*_edge_triples\<close> writes it out.\<close>

definition statement_block :: "pystr \<Rightarrow> pystr \<Rightarrow> pystr \<Rightarrow> pystr \<Rightarrow> 'a edge_scheme \<Rightarrow> pystr" where
  \<open>statement_block statement subject predicate obj e = concat
     [statement, lit '' a rdf:Statement ;'', nl,
      lit ''    rdf:subject '', subject, lit '' ;'', nl,
      lit ''    rdf:predicate '', predicate, lit '' ;'', nl,
      lit ''    rdf:object '', obj, lit '' ;'', nl,
      lit ''    msr:extractionConfidence "'', format_confidence (e_confidence e),
      lit ''"^^xsd:decimal ;'', nl,
      lit ''    msr:extractionRationale "'', escape_literal (e_rationale e),
      lit ''"^^xsd:string ;'', nl,
      lit ''    msr:citedIn '', edges_term (document_iri e), lit '' ;'', nl,
      lit ''    prov:wasGeneratedBy '', ACTIVITY_IRI, lit '' ;'', nl,
      lit ''    prov:wasDerivedFrom '', edges_term (document_iri e), lit '' .'']\<close>

definition role_edge_triples :: "role_edge \<Rightarrow> pystr" where
  "role_edge_triples e =
     (let salt = edges_term (re_salt_iri e); role = edges_term (re_role_iri e)
      in concat [salt, lit '' msr:hasRole '', role, lit '' .'', nl] @
         statement_block (role_statement_iri e) salt (lit ''msr:hasRole'') role e)"

definition reactor_edge_triples :: "reactor_edge \<Rightarrow> pystr" where
  \<open>reactor_edge_triples e =
     (let salt = edges_term (xe_salt_iri e); reactor = reactor_iri (reactor_slug e);
          document = edges_term (document_iri e)
      in concat
        [reactor, lit '' a msr:MoltenSaltReactor ;'', nl,
         lit ''    rdfs:label "'', escape_literal (reactor_label e), lit ''"^^xsd:string ;'', nl,
         lit ''    skos:exactMatch '', edges_term (grounding_concept_iri e), lit '' ;'', nl,
         lit ''    prov:wasGeneratedBy '', ACTIVITY_IRI, lit '' ;'', nl,
         lit ''    prov:wasDerivedFrom '', document, lit '' .'', nl,
         salt, lit '' msr:usedIn '', reactor, lit '' .'', nl] @
         statement_block (reactor_statement_iri e) salt (lit ''msr:usedIn'') reactor e)\<close>

definition see_also :: "pystr \<Rightarrow> pystr option \<Rightarrow> pystr" where
  \<open>see_also subject standard_name =
     (case standard_name of
        None \<Rightarrow> []
      | Some [] \<Rightarrow> []
      | Some name \<Rightarrow>
          (case standard_iri name of
             None \<Rightarrow> []
           | Some standard \<Rightarrow> concat
               [nl, subject, lit '' rdfs:seeAlso '', standard, lit '' .'', nl,
                standard, lit '' rdfs:label "'', escape_literal name, lit ''"^^xsd:string .'']))\<close>

definition served_by_edge_triples :: "served_by_edge \<Rightarrow> pystr" where
  "served_by_edge_triples e =
     (let subject = edges_term (se_safety_function_iri e); obj = edges_term (se_property_iri e)
      in concat [subject, lit '' msr:servedByProperty '', obj, lit '' .'', nl] @
         statement_block (served_by_statement_iri e) subject (lit ''msr:servedByProperty'') obj e @
         see_also subject (se_standard_name e))"

definition threshold_block :: "pystr \<Rightarrow> pyfloat option \<Rightarrow> pystr option \<Rightarrow> pystr option \<Rightarrow> pystr" where
  \<open>threshold_block subject value comparator u =
     (case (value, comparator) of
        (Some v, Some c) \<Rightarrow>
          if c = [] then []
          else concat
            [nl, subject, lit '' msr:thresholdValue "'', format_number v, lit ''"^^xsd:decimal ;'', nl,
             lit ''    msr:thresholdComparator "'', c, lit ''"^^xsd:string .''] @
            (case u of
               None \<Rightarrow> []
             | Some [] \<Rightarrow> []
             | Some un \<Rightarrow> concat [nl, subject, lit '' msr:thresholdUnit "'', escape_literal un,
                 lit ''"^^xsd:string .''])
      | _ \<Rightarrow> [])\<close>

definition addresses_function_edge_triples :: "addresses_function_edge \<Rightarrow> pystr" where
  "addresses_function_edge_triples e =
     (let subject = edges_term (ae_requirement_iri e); obj = edges_term (ae_safety_function_iri e)
      in concat [subject, lit '' msr:addressesFunction '', obj, lit '' .'', nl] @
         statement_block (addresses_function_statement_iri e) subject (lit ''msr:addressesFunction'') obj e @
         see_also subject (ae_standard_name e) @
         threshold_block subject (ae_threshold_value e) (ae_threshold_comparator e)
           (ae_threshold_unit e))"

section \<open>Updates and writers\<close>

definition EDGE_PREFIXES :: pystr where
  "EDGE_PREFIXES = join nl
     [lit ''PREFIX msr: <https://w3id.org/msr-kg/ontology#>'',
      lit ''PREFIX msrd: <https://w3id.org/msr-kg/data#>'',
      lit ''PREFIX prov: <http://www.w3.org/ns/prov#>'',
      lit ''PREFIX xsd: <http://www.w3.org/2001/XMLSchema#>'',
      lit ''PREFIX rdf: <http://www.w3.org/1999/02/22-rdf-syntax-ns#>'',
      lit ''PREFIX rdfs: <http://www.w3.org/2000/01/rdf-schema#>'',
      lit ''PREFIX skos: <http://www.w3.org/2004/02/skos/core#>'',
      lit ''PREFIX voc: <https://w3id.org/msr-kg/vocab#>'']"

definition edge_insert_data :: "pystr \<Rightarrow> pystr" where
  "edge_insert_data triples_block =
     insert_data_in EDGE_PREFIXES (lit ''urn:msr:data'') (indent_block triples_block)"

definition asserted_individual_iris :: "role_edge list \<Rightarrow> reactor_edge list \<Rightarrow> pystr list" where
  "asserted_individual_iris role_edges reactor_edges =
     sorted_list_of_set (set (map role_statement_iri role_edges @
       concat (map (\<lambda>e. [reactor_iri (reactor_slug e), reactor_statement_iri e]) reactor_edges)))"

definition edge_provenance_insert_data :: "pystr list \<Rightarrow> pystr \<Rightarrow> pystr" where
  "edge_provenance_insert_data individual_iris run_ts =
     insert_data_in PROVENANCE_PREFIXES (lit ''urn:msr:provenance'')
       (generation_lines individual_iris run_ts)"

definition role_edge_key :: "role_edge \<Rightarrow> pystr \<times> pystr \<times> pystr" where
  "role_edge_key e = (e_report e, re_salt_iri e, re_role_iri e)"

definition reactor_edge_key :: "reactor_edge \<Rightarrow> pystr \<times> pystr \<times> pystr" where
  "reactor_edge_key e = (e_report e, xe_salt_iri e, reactor_slug e)"

definition write_edges ::
    "endpoint \<Rightarrow> pystr \<Rightarrow> role_edge list \<Rightarrow> reactor_edge list \<Rightarrow> pystr list \<Rightarrow>
     pystr list \<times> unit result" where
  "write_edges post run_ts role_edges reactor_edges acc =
     (if role_edges = [] \<and> reactor_edges = [] then (acc, Inr ())
      else let blocks = map role_edge_triples (sort_key role_edge_key role_edges) @
                 map reactor_edge_triples (sort_key reactor_edge_key reactor_edges);
               iris = asserted_individual_iris role_edges reactor_edges
           in send_all post [edge_insert_data (join (nl @ nl) blocks),
                edge_provenance_insert_data iris run_ts] acc)"

definition asserted_safety_individual_iris ::
    "served_by_edge list \<Rightarrow> addresses_function_edge list \<Rightarrow> pystr list" where
  "asserted_safety_individual_iris served_by_edges addresses_function_edges =
     sorted_list_of_set (set (map served_by_statement_iri served_by_edges @
       map addresses_function_statement_iri addresses_function_edges))"

definition served_by_edge_key :: "served_by_edge \<Rightarrow> pystr \<times> pystr \<times> pystr" where
  "served_by_edge_key e = (e_report e, se_safety_function_iri e, se_property_iri e)"

definition addresses_function_edge_key :: "addresses_function_edge \<Rightarrow> pystr \<times> pystr \<times> pystr" where
  "addresses_function_edge_key e = (e_report e, ae_requirement_iri e, ae_safety_function_iri e)"

definition write_safety_edges ::
    "endpoint \<Rightarrow> pystr \<Rightarrow> served_by_edge list \<Rightarrow> addresses_function_edge list \<Rightarrow> pystr list \<Rightarrow>
     pystr list \<times> unit result" where
  "write_safety_edges post run_ts served_by_edges addresses_function_edges acc =
     (if served_by_edges = [] \<and> addresses_function_edges = [] then (acc, Inr ())
      else let blocks = map served_by_edge_triples (sort_key served_by_edge_key served_by_edges) @
                 map addresses_function_edge_triples
                   (sort_key addresses_function_edge_key addresses_function_edges);
               iris = asserted_safety_individual_iris served_by_edges addresses_function_edges
           in send_all post [edge_insert_data (join (nl @ nl) blocks),
                edge_provenance_insert_data iris run_ts] acc)"

section \<open>Safe slugs\<close>

lemma squeeze_dashes_nonempty [simp]: "squeeze_dashes s = [] \<longleftrightarrow> s = []"
  by (induction s rule: squeeze_dashes.induct) auto

lemma hd_squeeze_dashes: "s \<noteq> [] \<Longrightarrow> hd (squeeze_dashes s) = hd s"
  by (induction s rule: squeeze_dashes.induct) auto

lemma set_squeeze_dashes [simp]: "set (squeeze_dashes s) = set s"
  by (induction s rule: squeeze_dashes.induct) auto

lemma squeeze_dashes_no_pair: "\<not> has_sub [45, 45] (squeeze_dashes s)"
proof (induction s rule: squeeze_dashes.induct)
  case (1 x y s)
  then show ?case using hd_squeeze_dashes [of "y # s"]
    by (auto simp: has_sub_pair_Cons simp del: has_sub.simps)
qed (auto simp: starts_with_def)

lemma squeeze_dashes_id: "\<not> has_sub [45, 45] s \<Longrightarrow> squeeze_dashes s = s"
proof (induction s rule: squeeze_dashes.induct)
  case (1 x y s)
  then show ?case by (auto simp: has_sub_pair_Cons simp del: has_sub.simps)
qed auto

lemma lower_ascii_id: "list_all slug_char s \<Longrightarrow> lower_ascii s = s"
  by (induction s) (auto simp: lower_ascii_def lower_char_def slug_char_def is_upper_def is_lower_def
      is_ascii_digit_def)

definition safe_slug :: "pystr \<Rightarrow> bool" where
  "safe_slug s \<longleftrightarrow> list_all slug_char s \<and> \<not> has_sub [45, 45] s \<and>
     (s = [] \<or> hd s \<noteq> 45 \<and> last s \<noteq> 45)"

lemma safe_slug_fixed: "safe_slug s \<Longrightarrow> safe_reactor_slug s = s"
  using filter_id_conv [of slug_char s]
  by (simp add: safe_slug_def safe_reactor_slug_def lower_ascii_id squeeze_dashes_id strip_by_id list_all_iff)

lemma safe_slug_result: "safe_slug (safe_reactor_slug s)"
proof -
  let ?t = "squeeze_dashes (filter slug_char (lower_ascii s))"
  have "list_all slug_char (strip_by (\<lambda>c. c = 45) ?t)"
    using set_strip_by [of "\<lambda>c. c = 45" ?t] by (auto simp: list_all_iff)
  moreover have "\<not> has_sub [45, 45] (strip_by (\<lambda>c. c = 45) ?t)"
    by (rule strip_by_no_pair) (rule squeeze_dashes_no_pair)
  ultimately show ?thesis
    using strip_by_ends [of "\<lambda>c. c = 45" ?t] by (auto simp: safe_slug_def safe_reactor_slug_def)
qed

section \<open>Properties\<close>

text \<open>Injection safety of minted IRIs: whatever the document or the model says, the slug that
  goes unquoted into an update consists of lower-case ASCII letters, digits and single
  hyphens, starts and ends with none, and is left alone by a second pass; so no SPARQL
  metacharacter can come from a label.\<close>

theorem safe_reactor_slug_safe:
  "list_all slug_char (safe_reactor_slug s) \<and> \<not> has_sub [45, 45] (safe_reactor_slug s)
   \<and> (safe_reactor_slug s = [] \<or> hd (safe_reactor_slug s) \<noteq> 45 \<and> last (safe_reactor_slug s) \<noteq> 45)
   \<and> safe_reactor_slug (safe_reactor_slug s) = safe_reactor_slug s"
  using safe_slug_result [of s] safe_slug_fixed [OF safe_slug_result [of s]]
  by (auto simp: safe_slug_def)

lemma strip_by_Nil: "strip_by p s = [] \<longleftrightarrow> list_all p s"
proof -
  have "strip_by p s = [] \<longleftrightarrow> (\<forall>x \<in> set (dropWhile p s). p x)"
    by (simp add: strip_by_def dropWhile_eq_Nil_conv)
  also have "\<dots> \<longleftrightarrow> dropWhile p s = []"
    by (metis dropWhile_eq_Nil_conv hd_dropWhile list.set_sel(1) list.set_cases empty_iff empty_set)
  finally show ?thesis by (simp add: dropWhile_eq_Nil_conv list_all_iff)
qed

text \<open>A standard gets an IRI exactly when something of its name survives the sanitizer, that is
  when the slug of the name holds a letter or a digit; the local name is then a non-empty safe
  slug, never a bare prefix.\<close>

theorem standard_iri_spec:
  "(standard_iri name = None) =
     (list_all (\<lambda>c. c = 45) (filter slug_char (lower_ascii (edges_slugify name))))
   \<and> pred_option (\<lambda>iri. \<exists>local_name. iri = lit ''msrd:'' @ local_name \<and> local_name \<noteq> [] \<and>
     safe_slug local_name) (standard_iri name)"
  using safe_slug_result [of "edges_slugify name"]
  by (auto simp: standard_iri_def Let_def safe_reactor_slug_def strip_by_Nil list_all_iff)

text \<open>The edge writer is deterministic: with distinct keys, which deduplication provides, the
  updates do not depend on the order of the edges; nothing is sent for no edges; and otherwise
  the data update is sent first and the provenance update only after it was accepted, over the
  sorted, duplicate-free set of the reification nodes and reactors the data update asserts.\<close>

theorem write_edges_deterministic:
  assumes "mset roles = mset roles'" "mset reactors = mset reactors'"
    and "distinct (map role_edge_key roles)" "distinct (map reactor_edge_key reactors)"
  shows "write_edges post ts roles reactors acc = write_edges post ts roles' reactors' acc
    \<and> write_edges post ts [] [] acc = (acc, Inr ())
    \<and> sorted (asserted_individual_iris roles reactors)
    \<and> distinct (asserted_individual_iris roles reactors)
    \<and> set (asserted_individual_iris roles reactors) = role_statement_iri ` set roles \<union>
        reactor_statement_iri ` set reactors \<union> (reactor_iri \<circ> reactor_slug) ` set reactors"
proof -
  have "set roles = set roles'" "set reactors = set reactors'"
    using assms(1,2) by (auto dest: mset_eq_setD)
  then have "asserted_individual_iris roles reactors = asserted_individual_iris roles' reactors'"
    by (simp add: asserted_individual_iris_def)
  moreover have "roles = [] \<longleftrightarrow> roles' = []" "reactors = [] \<longleftrightarrow> reactors' = []"
    using assms(1,2) by auto
  ultimately have "write_edges post ts roles reactors acc = write_edges post ts roles' reactors' acc"
    using sort_key_perm [OF assms(1,3)] sort_key_perm [OF assms(2,4)]
    unfolding write_edges_def Let_def by (simp only:)
  moreover have "set (asserted_individual_iris roles reactors) = role_statement_iri ` set roles \<union>
      reactor_statement_iri ` set reactors \<union> (reactor_iri \<circ> reactor_slug) ` set reactors"
    by (auto simp: asserted_individual_iris_def)
  ultimately show ?thesis
    by (simp add: asserted_individual_iris_def write_edges_def)
qed

definition sample_role :: "pystr \<Rightarrow> role_edge" where
  "sample_role role = \<lparr>e_report = lit ''ORNL-1'', document_iri = lit ''msrd:ORNL-1'',
     e_confidence = Fin (3 / 4), e_rationale = lit ''stated'', re_salt_iri = lit ''msrd:salt-FLiBe'',
     re_role_iri = role\<rparr>"

lemma write_edges_deterministic_witness:
  "\<forall>post ts acc. write_edges post ts [sample_role (lit ''msr:FuelSalt''), sample_role (lit ''msr:CoolantSalt'')] [] acc
     = write_edges post ts [sample_role (lit ''msr:CoolantSalt''), sample_role (lit ''msr:FuelSalt'')] [] acc"
  by (intro allI write_edges_deterministic [THEN conjunct1])
    (simp_all add: add_mset_commute role_edge_key_def sample_role_def)

definition safety_data_update :: "served_by_edge list \<Rightarrow> addresses_function_edge list \<Rightarrow> pystr" where
  "safety_data_update served addressed = edge_insert_data (join (nl @ nl)
     (map served_by_edge_triples (sort_key served_by_edge_key served) @
      map addresses_function_edge_triples (sort_key addresses_function_edge_key addressed)))"

text \<open>The safety edge writer has the same order: what reaches the graph is a prefix of data
  update, provenance update, all of it exactly when the writer reports success.\<close>

theorem write_safety_edges_prefix:
  "\<exists>k \<le> 2. fst (write_safety_edges post ts served addressed acc) = acc @ take k
       [safety_data_update served addressed,
        edge_provenance_insert_data (asserted_safety_individual_iris served addressed) ts]
     \<and> (snd (write_safety_edges post ts served addressed acc) = Inr () \<longleftrightarrow>
          k = (if served = [] \<and> addressed = [] then 0 else 2))"
proof (cases "served = [] \<and> addressed = []")
  case True
  then show ?thesis by (intro exI [of _ 0]) (simp add: write_safety_edges_def)
next
  case False
  then have "write_safety_edges post ts served addressed acc = send_all post
      [safety_data_update served addressed,
       edge_provenance_insert_data (asserted_safety_individual_iris served addressed) ts] acc"
    by (auto simp: write_safety_edges_def Let_def safety_data_update_def simp del: send_all.simps)
  moreover have "(if served = [] \<and> addressed = [] then 0 else 2) = (2 :: nat)" using False by simp
  moreover have "length [safety_data_update served addressed, u] = 2" for u by simp
  ultimately show ?thesis using send_all_prefix by metis
qed

end
