(* ===== verification/PyRegex.thy ===== *)
theory PyRegex
  imports PyStr
begin

text \<open>
  A backtracking matcher in the style of Python's \<open>re\<close>: greedy repetition, ordered choice, one
  capture group, the \<open>$\<close> anchor and a lookahead. Matching returns all ways to match a
  prefix, best first, as the remaining text and the captured group.
\<close>

datatype rx =
    Chr "nat \<Rightarrow> bool"
  | Eps
  | Cat rx rx
  | Star rx
  | Opt rx
  | Group rx
  | EndOfText
  | Ahead "nat \<Rightarrow> bool"

type_synonym state = "pystr \<times> pystr option"

text \<open>Greedy repetition: an iteration has to consume something, so \<open>length\<close> is enough fuel.\<close>

fun star_iter :: "nat \<Rightarrow> (state \<Rightarrow> state list) \<Rightarrow> state \<Rightarrow> state list" where
  "star_iter 0 f st = [st]"
| "star_iter (Suc n) f st =
     concat (map (\<lambda>st'. if length (fst st') < length (fst st) then star_iter n f st' else []) (f st)) @ [st]"

primrec ways :: "rx \<Rightarrow> state \<Rightarrow> state list" where
  "ways (Chr p) = (\<lambda>(s, g). case s of [] \<Rightarrow> [] | c # cs \<Rightarrow> if p c then [(cs, g)] else [])"
| "ways Eps = (\<lambda>st. [st])"
| "ways (Cat r q) = (\<lambda>st. concat (map (ways q) (ways r st)))"
| "ways (Star r) = (\<lambda>st. star_iter (length (fst st)) (ways r) st)"
| "ways (Opt r) = (\<lambda>st. ways r st @ [st])"
| "ways (Group r) = (\<lambda>(s, g). map (\<lambda>(t, _). (t, Some (take (length s - length t) s))) (ways r (s, g)))"
| "ways EndOfText = (\<lambda>(s, g). if s = [] \<or> s = [10] then [(s, g)] else [])"
| "ways (Ahead p) = (\<lambda>(s, g). if s \<noteq> [] \<and> p (hd s) then [(s, g)] else [])"

definition Plus :: "rx \<Rightarrow> rx" where "Plus r = Cat r (Star r)"

fun Cats :: "rx list \<Rightarrow> rx" where
  "Cats [] = Eps"
| "Cats (r # rs) = Cat r (Cats rs)"

text \<open>\<open>r{0,n}\<close>.\<close>

fun UpTo :: "nat \<Rightarrow> rx \<Rightarrow> rx" where
  "UpTo 0 r = Eps"
| "UpTo (Suc n) r = Opt (Cat r (UpTo n r))"

definition Is :: "nat \<Rightarrow> rx" where "Is c = Chr (\<lambda>x. x = c)"
definition IsAnyCase :: "nat \<Rightarrow> rx" where "IsAnyCase c = Chr (\<lambda>x. x = c \<or> x = c - 32)"

section \<open>Entry points\<close>

definition match_at_start :: "rx \<Rightarrow> pystr \<Rightarrow> state option" where
  "match_at_start r s = (case ways r (s, None) of [] \<Rightarrow> None | st # _ \<Rightarrow> Some st)"

text \<open>\<open>search\<close>: the leftmost start with a match.\<close>

fun search :: "rx \<Rightarrow> pystr \<Rightarrow> nat \<Rightarrow> (nat \<times> state) option" where
  "search r [] i = map_option (Pair i) (match_at_start r [])"
| "search r (c # cs) i = (case match_at_start r (c # cs) of
       Some st \<Rightarrow> Some (i, st)
     | None \<Rightarrow> search r cs (Suc i))"

text \<open>\<open>findall\<close> and \<open>sub\<close> for patterns that never match the empty text.\<close>

function findall :: "rx \<Rightarrow> pystr \<Rightarrow> pystr list" where
  "findall r [] = []"
| "findall r (c # cs) = (case match_at_start r (c # cs) of
       Some (rest, _) \<Rightarrow>
         if length rest < length (c # cs)
         then take (length (c # cs) - length rest) (c # cs) # findall r rest else findall r cs
     | None \<Rightarrow> findall r cs)"
  by pat_completeness auto
termination by (relation "measure (\<lambda>(r, s). length s)") auto

function sub :: "rx \<Rightarrow> pystr \<Rightarrow> pystr \<Rightarrow> pystr" where
  "sub r w [] = []"
| "sub r w (c # cs) = (case match_at_start r (c # cs) of
       Some (rest, _) \<Rightarrow>
         if length rest < length (c # cs) then w @ sub r w rest else c # sub r w cs
     | None \<Rightarrow> c # sub r w cs)"
  by pat_completeness auto
termination by (relation "measure (\<lambda>(r, w, s). length s)") auto

text \<open>\<open>finditer\<close>: the matches \<open>findall\<close> returns, with their start and end offsets; and
  \<open>fullmatch\<close>.\<close>

function finditer :: "rx \<Rightarrow> pystr \<Rightarrow> nat \<Rightarrow> (nat \<times> nat \<times> pystr) list" where
  "finditer r [] i = []"
| "finditer r (c # cs) i = (case match_at_start r (c # cs) of
       Some (rest, _) \<Rightarrow>
         if length rest < length (c # cs)
         then (let n = length (c # cs) - length rest
               in (i, i + n, take n (c # cs)) # finditer r rest (i + n))
         else finditer r cs (Suc i)
     | None \<Rightarrow> finditer r cs (Suc i))"
  by pat_completeness auto
termination by (relation "measure (\<lambda>(r, s, i). length s)") auto

definition fullmatch :: "rx \<Rightarrow> pystr \<Rightarrow> bool" where
  "fullmatch r s \<longleftrightarrow> list_ex (\<lambda>(rest, _). rest = []) (ways r (s, None))"

section \<open>A match is a suffix\<close>

lemma star_iter_suffix:
  assumes "\<And>st st'. st' \<in> set (f st) \<Longrightarrow> suffix (fst st') (fst st)"
  shows "st' \<in> set (star_iter n f st) \<Longrightarrow> suffix (fst st') (fst st)"
proof (induction n arbitrary: st)
  case (Suc n)
  then consider "st' = st" | st1 where "st1 \<in> set (f st)" "st' \<in> set (star_iter n f st1)"
    by (auto split: if_splits)
  then show ?case using assms Suc.IH by cases (simp, blast intro: suffix_order.trans)
qed simp

lemma ways_suffix: "st' \<in> set (ways r st) \<Longrightarrow> suffix (fst st') (fst st)"
proof (induction r arbitrary: st st')
  case (Cat r q)
  from Cat.prems obtain st1 where "st1 \<in> set (ways r st)" "st' \<in> set (ways q st1)" by auto
  with Cat.IH show ?case by (blast intro: suffix_order.trans)
next
  case (Star r)
  then show ?case using star_iter_suffix [of "ways r"] by simp
next
  case (Group r)
  then show ?case by (cases st) fastforce
qed (auto split: list.splits if_splits simp: suffix_Cons)

lemma match_at_start_suffix: "match_at_start r s = Some (t, g) \<Longrightarrow> suffix t s"
  using ways_suffix [of "(t, g)" r "(s, None)"]
  by (auto simp: match_at_start_def split: list.splits)

section \<open>The matches found in a text\<close>

lemma finditer_findall: "map (snd \<circ> snd) (finditer r s i) = findall r s"
  by (induction r s i rule: finditer.induct) (auto split: option.splits simp: Let_def)

lemma suffix_drop: "suffix t s \<Longrightarrow> t = drop (length s - length t) s"
  by (auto simp: suffix_def)

lemma finditer_step:
  obtains (skip) "finditer r (c # cs) i = finditer r cs (Suc i)"
  | (hit) k g where "0 < k" "k \<le> length (c # cs)" "match_at_start r (c # cs) = Some (drop k (c # cs), g)"
      "finditer r (c # cs) i = (i, i + k, take k (c # cs)) # finditer r (drop k (c # cs)) (i + k)"
proof (cases "match_at_start r (c # cs)")
  case None
  then show ?thesis using skip by simp
next
  case (Some st)
  obtain rest g where st: "st = (rest, g)" by (cases st)
  show ?thesis
  proof (cases "length rest < length (c # cs)")
    case True
    let ?k = "length (c # cs) - length rest"
    have rest: "rest = drop ?k (c # cs)"
      using match_at_start_suffix Some st by (blast intro: suffix_drop)
    have "finditer r (c # cs) i = (i, i + ?k, take ?k (c # cs)) # finditer r rest (i + ?k)"
      using Some st True by (simp add: Let_def)
    with True Some st rest show ?thesis by (intro hit [of ?k g]) auto
  qed (use Some st skip in simp)
qed

declare finditer.simps(2) [simp del]

lemma finditer_spans:
  "(a, b, w) \<in> set (finditer r s i) \<Longrightarrow>
   i \<le> a \<and> a < b \<and> b \<le> i + length s \<and> w = take (b - a) (drop (a - i) s)"
proof (induction s arbitrary: i rule: length_induct)
  case (1 s)
  show ?case
  proof (cases s)
    case (Cons c cs)
    show ?thesis
    proof (rule finditer_step [of r c cs i])
      assume "finditer r (c # cs) i = finditer r cs (Suc i)"
      then have "(a, b, w) \<in> set (finditer r cs (Suc i))" using 1(2) Cons by simp
      then have "Suc i \<le> a \<and> a < b \<and> b \<le> Suc i + length cs \<and> w = take (b - a) (drop (a - Suc i) cs)"
        using 1(1) [rule_format, of cs "Suc i"] Cons by simp
      moreover from this have "drop (a - Suc i) cs = drop (a - i) s"
        using Cons by (simp add: drop_Cons' Suc_le_eq)
      ultimately show ?thesis using Cons by auto
    next
      fix k g
      assume k: "0 < k" "k \<le> length (c # cs)"
        and eq: "finditer r (c # cs) i = (i, i + k, take k (c # cs)) # finditer r (drop k (c # cs)) (i + k)"
      consider "a = i" "b = i + k" "w = take k s" | "(a, b, w) \<in> set (finditer r (drop k s) (i + k))"
        using 1(2) eq Cons by auto
      then show ?thesis
      proof cases
        case 2
        then have ih: "i + k \<le> a \<and> a < b \<and> b \<le> i + k + length (drop k s)
            \<and> w = take (b - a) (drop (a - (i + k)) (drop k s))"
          using 1(1) [rule_format, of "drop k s" "i + k"] k Cons by simp
        moreover have "drop (a - (i + k)) (drop k s) = drop (a - i) s"
          using ih by simp
        ultimately show ?thesis using k Cons by auto
      qed (use k Cons in auto)
    qed
  qed (use 1 in simp)
qed

lemma finditer_disjoint: "sorted_wrt (\<lambda>(a, b, _) (a', b', _). b \<le> a') (finditer r s i)"
proof (induction s arbitrary: i rule: length_induct)
  case (1 s)
  show ?case
  proof (cases s)
    case (Cons c cs)
    show ?thesis
      by (rule finditer_step [of r c cs i]) (use 1 Cons in \<open>auto dest: finditer_spans\<close>)
  qed simp
qed

text \<open>A match is over the characters its pattern can consume.\<close>

primrec rx_over :: "(nat \<Rightarrow> bool) \<Rightarrow> rx \<Rightarrow> bool" where
  "rx_over P (Chr p) = (\<forall>c. p c \<longrightarrow> P c)"
| "rx_over P Eps = True"
| "rx_over P (Cat r q) = (rx_over P r \<and> rx_over P q)"
| "rx_over P (Star r) = rx_over P r"
| "rx_over P (Opt r) = rx_over P r"
| "rx_over P (Group r) = rx_over P r"
| "rx_over P EndOfText = True"
| "rx_over P (Ahead p) = True"

definition over :: "(nat \<Rightarrow> bool) \<Rightarrow> pystr \<Rightarrow> pystr \<Rightarrow> bool" where
  "over P t s \<longleftrightarrow> (\<exists>u. s = u @ t \<and> list_all P u)"

lemma over_refl [simp]: "over P s s"
  by (simp add: over_def)

lemma over_trans: "over P u t \<Longrightarrow> over P t s \<Longrightarrow> over P u s"
  by (auto simp: over_def)

lemma star_iter_over:
  assumes "\<And>st st'. st' \<in> set (f st) \<Longrightarrow> over P (fst st') (fst st)"
  shows "st' \<in> set (star_iter n f st) \<Longrightarrow> over P (fst st') (fst st)"
proof (induction n arbitrary: st)
  case (Suc n)
  then consider "st' = st" | st1 where "st1 \<in> set (f st)" "st' \<in> set (star_iter n f st1)"
    by (auto split: if_splits)
  then show ?case using assms Suc.IH by cases (simp, blast intro: over_trans)
qed simp

lemma ways_over: "rx_over P r \<Longrightarrow> st' \<in> set (ways r st) \<Longrightarrow> over P (fst st') (fst st)"
proof (induction r arbitrary: st st')
  case (Chr p)
  then show ?case by (auto split: list.splits if_splits simp: over_def)
next
  case (Cat r q)
  from Cat.prems obtain st1 where "st1 \<in> set (ways r st)" "st' \<in> set (ways q st1)" by auto
  then have "over P (fst st1) (fst st)" "over P (fst st') (fst st1)" using Cat by simp_all
  then show ?case by (rule over_trans [rotated])
next
  case (Star r)
  then show ?case using star_iter_over [of "ways r"] by simp
next
  case (Group r)
  then show ?case by (cases st) fastforce
qed (auto split: if_splits)

lemma finditer_over:
  "rx_over P r \<Longrightarrow> (a, b, w) \<in> set (finditer r s i) \<Longrightarrow> list_all P w"
proof (induction s arbitrary: i rule: length_induct)
  case (1 s)
  show ?case
  proof (cases s)
    case (Cons c cs)
    show ?thesis
    proof (rule finditer_step [of r c cs i])
      assume "finditer r (c # cs) i = finditer r cs (Suc i)"
      then have "(a, b, w) \<in> set (finditer r cs (Suc i))" using 1(3) Cons by simp
      then show ?thesis using 1(1) [rule_format, of cs] 1(2) Cons by simp
    next
      fix k g
      assume k: "0 < k" "k \<le> length (c # cs)" and m: "match_at_start r (c # cs) = Some (drop k (c # cs), g)"
        and eq: "finditer r (c # cs) i = (i, i + k, take k (c # cs)) # finditer r (drop k (c # cs)) (i + k)"
      have "over P (drop k s) s"
        using ways_over [OF 1(2), of "(drop k s, g)" "(s, None)"] m Cons
        by (auto simp: match_at_start_def split: list.splits)
      then obtain u where u: "s = u @ drop k s" "list_all P u" by (auto simp: over_def)
      then have "u = take k s" by (metis append_same_eq append_take_drop_id)
      moreover have "w = take k s \<or> (a, b, w) \<in> set (finditer r (drop k s) (i + k))"
        using 1(3) eq Cons by auto
      moreover have "length (drop k s) < length s" using k Cons by simp
      ultimately show ?thesis using 1(1,2) u(2) by blast
    qed
  qed (use 1 in simp)
qed

text \<open>A match and its group are made of the characters of the text.\<close>

definition made_of :: "nat set \<Rightarrow> state \<Rightarrow> bool" where
  "made_of A st \<longleftrightarrow> set (fst st) \<subseteq> A \<and> pred_option (\<lambda>g. set g \<subseteq> A) (snd st)"

lemma star_iter_made_of:
  assumes "\<And>st st'. st' \<in> set (f st) \<Longrightarrow> made_of A st \<Longrightarrow> made_of A st'"
  shows "st' \<in> set (star_iter n f st) \<Longrightarrow> made_of A st \<Longrightarrow> made_of A st'"
proof (induction n arbitrary: st)
  case (Suc n)
  then consider "st' = st" | st1 where "st1 \<in> set (f st)" "st' \<in> set (star_iter n f st1)"
    by (auto split: if_splits)
  then show ?case
  proof cases
    case 1
    with Suc.prems show ?thesis by simp
  next
    case 2
    with assms Suc show ?thesis by blast
  qed
qed simp

lemma ways_within: "st' \<in> set (ways r st) \<Longrightarrow> made_of A st \<Longrightarrow> made_of A st'"
proof (induction r arbitrary: st st')
  case (Star r)
  then show ?case using star_iter_made_of [of "ways r"] by simp
next
  case (Group r)
  then show ?case by (cases st) (fastforce simp: made_of_def dest: in_set_takeD)
qed (fastforce simp: made_of_def split: list.splits if_splits)+

lemma search_within:
  "search r s i = Some (j, t, Some g) \<Longrightarrow> set g \<subseteq> set s"
proof (induction r s i rule: search.induct)
  case (1 r i)
  then show ?case using ways_within [of "(t, Some g)" r "([], None)" "{}"]
    by (auto simp: match_at_start_def made_of_def split: list.splits)
next
  case (2 r c cs i)
  then show ?case using ways_within [of "(t, Some g)" r "(c # cs, None)" "set (c # cs)"]
    by (fastforce simp: match_at_start_def made_of_def split: list.splits option.splits)
qed

end
