(* ===== verification/Formula.thy ===== *)
theory Formula
  imports Slug PyRegex PyFloat
begin

text \<open>
  \<open>formula.py\<close>: \<open>canonicalize\<close> brings a salt token and a composition to the canonical form and
  IRI the loader uses; \<open>normalize_salt_span\<close> resolves a free-text mention to that IRI when it
  comes with a composition. The texts of the \<open>ValueError\<close>s are not modelled.
\<close>

section \<open>Canonical salts\<close>

record salt =
  canonical :: pystr
  iri :: pystr
  components :: "pystr list"
  is_range :: bool
  mole_percent :: "pyfloat list option"
  vary_component :: "pystr option"
  vary_min :: "pyfloat option"
  vary_max :: "pyfloat option"

definition ISOTHERM_CODES :: "pystr list" where
  "ISOTHERM_CODES = [lit ''I1'', lit ''I2'', lit ''I3'', lit ''I4'']"

definition positional_sum_tolerance :: pyfloat where
  "positional_sum_tolerance = Fin 2"

definition sorted_order :: "pystr list \<Rightarrow> nat list" where
  "sorted_order cs = sort_key (\<lambda>i. cs ! i) [0..<length cs]"

definition float_or_error :: "pystr \<Rightarrow> pyfloat result" where
  "float_or_error s = (case py_float s of None \<Rightarrow> Inl ValueError | Some v \<Rightarrow> Inr v)"

definition salt_iri_of :: "pystr \<Rightarrow> pystr" where
  "salt_iri_of canon = lit ''msrd:salt-'' @ formula_slugify canon"

definition canonicalize_positional :: "pystr list \<Rightarrow> pystr \<Rightarrow> salt result" where
  "canonicalize_positional cs composition =
     (let raw_values = split_on 45 (strip composition)
      in if length raw_values \<noteq> length cs then Inl ValueError
         else bind_result (map_result (\<lambda>rv. float_or_error (strip rv)) raw_values) (\<lambda>values.
           let total = foldl fl_add (Fin 0) values
           in if fl_lt positional_sum_tolerance (fl_abs (fl_sub total (Fin 100))) then Inl ValueError
              else let order = sorted_order cs;
                       sorted_components = map (\<lambda>i. cs ! i) order;
                       sorted_values = map (\<lambda>i. values ! i) order;
                       formatted_values = map (format_fixed 1) sorted_values;
                       canon = join (lit ''-'') sorted_components @ lit '' | '' @
                         join (lit ''-'') formatted_values
                   in bind_result (map_result float_or_error formatted_values) (\<lambda>mp.
                        Inr \<lparr>canonical = canon, iri = salt_iri_of canon,
                          components = sorted_components, is_range = False,
                          mole_percent = Some mp, vary_component = None, vary_min = None,
                          vary_max = None\<rparr>)))"

definition canonicalize_range :: "pystr list \<Rightarrow> pystr \<Rightarrow> salt result" where
  "canonicalize_range cs composition =
     (if length cs \<noteq> 2 then Inl ValueError
      else case split_ws composition of
        [range_part, vary] \<Rightarrow>
          (case split_on 45 range_part of
             [lo_text, hi_text] \<Rightarrow>
               bind_result (float_or_error (strip lo_text)) (\<lambda>lo.
               bind_result (float_or_error (strip hi_text)) (\<lambda>hi.
                 if vary \<notin> set cs then Inl ValueError
                 else let sorted_components = map (\<lambda>i. cs ! i) (sorted_order cs);
                          lo_str = format_fixed 1 lo; hi_str = format_fixed 1 hi;
                          canon = join (lit ''-'') sorted_components @ lit '' | '' @ vary @
                            lit '' '' @ lo_str @ lit ''-'' @ hi_str
                      in bind_result (float_or_error lo_str) (\<lambda>vmin.
                         bind_result (float_or_error hi_str) (\<lambda>vmax.
                           Inr \<lparr>canonical = canon, iri = salt_iri_of canon,
                             components = sorted_components, is_range = True,
                             mole_percent = None, vary_component = Some vary,
                             vary_min = Some vmin, vary_max = Some vmax\<rparr>))))
           | _ \<Rightarrow> Inl ValueError)
      | _ \<Rightarrow> Inl ValueError)"

definition canonicalize :: "pystr \<Rightarrow> pystr \<Rightarrow> pystr \<Rightarrow> salt result" where
  "canonicalize salt_token composition form_code =
     (let cs = split_on 45 (strip salt_token)
      in if cs = [] \<or> hd cs = [] then Inl ValueError
         else if list_ex (\<lambda>c. strip c = []) cs then Inl ValueError
         else if form_code \<in> set ISOTHERM_CODES then canonicalize_range cs composition
         else canonicalize_positional cs composition)"

section \<open>Cleaning a mention\<close>

definition translate :: "(nat \<Rightarrow> nat) \<Rightarrow> pystr \<Rightarrow> pystr" where
  "translate f s = map f s"

definition subscript_digit :: "nat \<Rightarrow> nat" where
  "subscript_digit c = (if 8320 \<le> c \<and> c \<le> 8329 then c - 8320 + 48 else c)"

definition dot_separator :: "nat \<Rightarrow> nat" where
  "dot_separator c = (if c = 183 \<or> c = 8226 \<or> c = 8901 then 45 else c)"

definition WHITESPACE_RUN_RE :: rx where "WHITESPACE_RUN_RE = Plus (Chr is_space)"

definition HYPHEN_SPACING_RE :: rx where
  "HYPHEN_SPACING_RE = Cats [Star (Chr is_space), Is 45, Star (Chr is_space)]"

definition LEADING_COEFFICIENT_RE :: rx where
  "LEADING_COEFFICIENT_RE = Cats [Plus (Chr is_digit), Ahead is_alpha_ascii]"

definition NUMBER_RE :: rx where
  "NUMBER_RE = Cats [Plus (Chr is_digit), Opt (Cats [Is 46, Plus (Chr is_digit)])]"

definition GAP :: rx where "GAP = UpTo 4 (Chr is_space)"

definition INLINE_COMPOSITION_RE :: rx where
  "INLINE_COMPOSITION_RE = Cats
     [Opt (Is 40), GAP,
      Group (Cats [NUMBER_RE, Plus (Cats [GAP, Is 45, GAP, NUMBER_RE])]),
      GAP, IsAnyCase 109, IsAnyCase 111, IsAnyCase 108, Opt (Is 46), GAP,
      Opt (IsAnyCase 101), Opt (Is 46), GAP, Is 37, GAP, Opt (Is 41), GAP, EndOfText]"

definition OCR_SUBSCRIPT_TAIL_RE :: rx where
  "OCR_SUBSCRIPT_TAIL_RE = Cats [Group (Plus (Chr (\<lambda>c. c \<noteq> 10))), Chr (\<lambda>c. c = 44 \<or> c = 46), EndOfText]"

definition TRAILING_DIGITS_RE :: rx where
  "TRAILING_DIGITS_RE = Cats [Plus (Chr is_digit), EndOfText]"

definition clean_surface :: "pystr \<Rightarrow> pystr" where
  "clean_surface surface =
     (let s = translate subscript_digit surface;
          s = translate dot_separator s;
          s = strip (sub WHITESPACE_RUN_RE (lit '' '') s)
      in sub HYPHEN_SPACING_RE (lit ''-'') s)"

text \<open>The pattern is anchored at the start, so it is replaced there or nowhere.\<close>

definition strip_leading_coefficient :: "pystr \<Rightarrow> pystr" where
  "strip_leading_coefficient token = (case match_at_start LEADING_COEFFICIENT_RE token of
       Some (rest, _) \<Rightarrow> rest
     | None \<Rightarrow> token)"

definition extract_inline_composition :: "pystr \<Rightarrow> pystr \<times> pystr option" where
  "extract_inline_composition surface = (case search INLINE_COMPOSITION_RE surface 0 of
       None \<Rightarrow> (surface, None)
     | Some (start, _, g) \<Rightarrow> (strip (take start surface), g))"

definition skeleton :: "pystr \<Rightarrow> pystr" where
  "skeleton compound = sub TRAILING_DIGITS_RE [] compound"

definition skeleton_map :: "pystr list \<Rightarrow> pystr \<rightharpoonup> pystr list" where
  "skeleton_map known_compounds stem =
     (case filter (\<lambda>c. skeleton c = stem) known_compounds of [] \<Rightarrow> None | cs \<Rightarrow> Some cs)"

fun resolve_against :: "(pystr \<rightharpoonup> pystr list) \<Rightarrow> pystr list \<Rightarrow> pystr list option" where
  "resolve_against skeletons [] = Some []"
| "resolve_against skeletons (token # tokens) =
     (case match_at_start OCR_SUBSCRIPT_TAIL_RE token of
        Some (_, Some stem) \<Rightarrow>
          (case skeletons stem of
             Some [c] \<Rightarrow> map_option (\<lambda>cs. c # cs) (resolve_against skeletons tokens)
           | _ \<Rightarrow> None)
      | _ \<Rightarrow> map_option (\<lambda>cs. token # cs) (resolve_against skeletons tokens))"

text \<open>The known compounds, a \<open>frozenset\<close>, as a list without repetition, in any order.\<close>

definition resolve_components :: "pystr list \<Rightarrow> pystr list option \<Rightarrow> pystr list option" where
  "resolve_components cs known_compounds = (case known_compounds of
       None \<Rightarrow> Some cs
     | Some known \<Rightarrow> resolve_against (skeleton_map known) cs)"

definition normalize_salt_span :: "pystr \<Rightarrow> pystr option \<Rightarrow> pystr list option \<Rightarrow> pystr option" where
  "normalize_salt_span surface composition_text known_compounds =
     (let (working_surface, composition_text) = (case composition_text of
            None \<Rightarrow> extract_inline_composition surface | Some c \<Rightarrow> (surface, Some c));
          cleaned = clean_surface working_surface;
          raw_components = filter (\<lambda>tok. tok \<noteq> []) (split_on 45 cleaned);
          cs = filter (\<lambda>c. c \<noteq> []) (map strip_leading_coefficient raw_components)
      in if cleaned = [] \<or> cs = [] then None
         else (case resolve_components cs known_compounds of
            None \<Rightarrow> None
          | Some cs \<Rightarrow>
              if cs = [] then None
              else (case composition_text of
                 None \<Rightarrow> None
               | Some text \<Rightarrow>
                   let values = findall NUMBER_RE text
                   in if length values \<noteq> length cs then None
                      else (case canonicalize (join (lit ''-'') cs) (join (lit ''-'') values) (lit ''P1'') of
                         Inl _ \<Rightarrow> None
                       | Inr s \<Rightarrow> Some (iri s)))))"

end
