(* ===== verification/Decimal_Facts.thy ===== *)
theory Decimal_Facts
  imports PyFloat_Facts
begin

text \<open>
  One-decimal texts: \<open>float()\<close> of \<open>format(v, '.1f')\<close> renders to the same text again for the
  magnitudes compositions have, and a sum of unsigned numbers is at least each of them.
\<close>

section \<open>Digits\<close>

lemma digits_show_nat: "list_all is_ascii_digit (show_nat n)"
proof (induction n rule: show_nat.induct)
  case (1 n)
  have "is_ascii_digit (48 + d)" if "d < 10" for d using that by (simp add: is_ascii_digit_def)
  then show ?case using 1 by (subst show_nat.simps) auto
qed

lemma show_nat_nonempty: "show_nat n \<noteq> []"
  by (subst show_nat.simps) simp

lemma dec_value_snoc: "dec_value (s @ [c]) acc = 10 * dec_value s acc + (c - 48)"
  by (induction s arbitrary: acc) auto

lemma dec_value_show_nat: "dec_value (show_nat n) 0 = n"
proof (induction n rule: show_nat.induct)
  case (1 n)
  then show ?case by (subst show_nat.simps) (auto simp: dec_value_snoc)
qed

lemma show_nat_digit: "d < 10 \<Longrightarrow> show_nat d = [48 + d]"
  by (subst show_nat.simps) simp

definition one_decimal :: "nat \<Rightarrow> pystr" where
  "one_decimal n = show_nat (n div 10) @ [46, 48 + n mod 10]"

lemma fixed_digits_one: "fixed_digits 1 r = one_decimal (nat (rne (r * 10)))"
  by (simp add: fixed_digits_def Let_def one_decimal_def pad_left_def show_nat_digit)

lemma one_decimal_chars: "c \<in> set (one_decimal n) \<Longrightarrow> is_ascii_digit c \<or> c = 46"
  using digits_show_nat [of "n div 10"] by (auto simp: one_decimal_def list_all_iff is_ascii_digit_def)

lemma hd_one_decimal: "is_ascii_digit (hd (one_decimal n))"
  using digits_show_nat [of "n div 10"] show_nat_nonempty [of "n div 10"]
  by (cases "show_nat (n div 10)") (auto simp: one_decimal_def)

lemma drop_underscores_id: "95 \<notin> set s \<Longrightarrow> drop_underscores p s = Some s"
  by (induction s arbitrary: p) auto

lemma strip_by_none: "list_all (\<lambda>c. \<not> p c) s \<Longrightarrow> strip_by p s = s"
proof -
  assume a: "list_all (\<lambda>c. \<not> p c) s"
  then have "dropWhile p s = s" "dropWhile p (rev s) = rev s"
    by (auto simp: dropWhile_eq_self_iff list_all_iff hd_rev)
  then show ?thesis by (simp add: strip_by_def)
qed

lemma py_float_unsigned:
  assumes "\<And>c. c \<in> set s \<Longrightarrow> is_ascii_digit c \<or> c = 46" "is_ascii_digit (hd s)" "s \<noteq> []"
  shows "py_float s = parse_unsigned s"
proof -
  have "to_ascii_char c = c" if "c \<in> set s" for c
    using assms(1) [OF that] by (auto simp: to_ascii_char_def is_ascii_digit_def)
  then have "map to_ascii_char s = s" by (intro map_idI)
  moreover have "strip_by is_c_space s = s"
    using assms(1) by (intro strip_by_none) (fastforce simp: list_all_iff is_c_space_def is_ascii_digit_def)
  moreover have "drop_underscores False s = Some s"
    using assms(1) [of 95] by (intro drop_underscores_id) (auto simp: is_ascii_digit_def)
  moreover have "hd s \<noteq> 45" "hd s \<noteq> 43" using assms(2) by (auto simp: is_ascii_digit_def)
  ultimately show ?thesis by (simp add: py_float_def)
qed

lemma py_float_one_decimal: "py_float (one_decimal n) = Some (fl_of_rat (of_nat n / 10))"
proof -
  let ?s = "one_decimal n" and ?a = "show_nat (n div 10)" and ?d = "48 + n mod 10"
  have ne: "?s \<noteq> []" by (simp add: one_decimal_def)
  have lower: "lower_ascii ?s = ?s"
  proof -
    have "lower_char c = [c]" if "c \<in> set ?s" for c
      using one_decimal_chars [OF that] by (auto simp: lower_char_def is_upper_def is_ascii_digit_def)
    then have "map lower_char ?s = map (\<lambda>c. [c]) ?s" by (intro map_cong) auto
    moreover have "concat (map (\<lambda>c. [c]) u) = u" for u :: pystr by (induction u) auto
    ultimately show ?thesis by (simp only: lower_ascii_def)
  qed
  have words: "?s \<noteq> lit ''inf''" "?s \<noteq> lit ''infinity''" "?s \<noteq> lit ''nan''"
    using hd_one_decimal [of n] by (auto simp: lit_def is_ascii_digit_def)
  have tw: "takeWhile is_ascii_digit ?s = ?a" "dropWhile is_ascii_digit ?s = [46, ?d]"
    using digits_show_nat [of "n div 10"]
    by (simp_all add: one_decimal_def takeWhile_append2 dropWhile_append2 list_all_iff)
      (simp_all add: is_ascii_digit_def takeWhile_append dropWhile_append list_all_iff)
  have d: "is_ascii_digit ?d" by (simp add: is_ascii_digit_def)
  have v: "dec_value (?a @ [?d]) 0 = n"
    by (simp add: dec_value_snoc dec_value_show_nat)
  have "parse_unsigned ?s = Some (fl_of_rat (scale10 n (- 1)))"
    unfolding parse_unsigned_def Let_def lower tw using words d v
    by (simp add: parse_exponent_def show_nat_nonempty)
  moreover have "scale10 n (- 1) = of_nat n / 10"
    by (simp add: scale10_def power_int_minus field_simps)
  ultimately show ?thesis
    using py_float_unsigned [OF one_decimal_chars hd_one_decimal ne] by simp
qed

lemma fl_of_rat_nat: "n < 2 ^ 53 \<Longrightarrow> fl_of_rat (of_nat n) = Fin (of_nat n)"
proof -
  assume n: "n < 2 ^ 53"
  then have "\<bar>int n\<bar> < 2 ^ 53" by (metis abs_of_nat of_nat_less_iff of_nat_numeral of_nat_power)
  then have "round_rat (of_nat n) = of_nat n"
    by (intro round_rat_exact [of _ "int n" 0]) simp_all
  moreover have "(of_nat n :: rat) < 2 ^ 1024"
  proof -
    have "(of_nat n :: rat) < of_nat (2 ^ 53)" using n by (simp only: of_nat_less_iff)
    also have "\<dots> \<le> 2 ^ 1024" by simp
    finally show ?thesis .
  qed
  ultimately show ?thesis by (simp add: fl_of_rat_def Let_def not_le)
qed

section \<open>Rendering again\<close>

lemma fl_of_rat_tenths:
  assumes "n \<le> 1280"
  shows "fl_of_rat (of_nat n / 10) = Fin (round_rat (of_nat n / 10)) \<and>
    0 \<le> round_rat (of_nat n / 10) \<and> nat (rne (round_rat (of_nat n / 10) * 10)) = n"
proof -
  let ?x = "of_nat n / 10 :: rat"
  have "(of_nat n :: rat) \<le> of_nat 1280" using assms by (simp only: of_nat_le_iff)
  then have x: "0 \<le> ?x" "?x < 2 powi 8" "?x \<le> 128" by (auto simp: power_int_def)
  have err: "\<bar>round_rat ?x - ?x\<bar> \<le> 2 powi (8 - 54)"
    using x by (intro round_rat_small_error) auto
  have small: "(2::rat) powi (8 - 54) < 1 / 20" by (simp add: power_int_def power_divide)
  have nn: "0 \<le> round_rat ?x" using x by (intro round_rat_nonneg)
  have "\<bar>of_int (int n) - round_rat ?x * 10\<bar> < 1 / 2"
  proof -
    have "of_int (int n) - round_rat ?x * 10 = (?x - round_rat ?x) * 10" by (simp add: algebra_simps)
    then have "\<bar>of_int (int n) - round_rat ?x * 10\<bar> = \<bar>round_rat ?x - ?x\<bar> * 10"
      by (simp only: abs_mult abs_minus_commute abs_numeral)
    then show ?thesis using err small by linarith
  qed
  then have "rne (round_rat ?x * 10) = int n" by (rule rne_unique)
  moreover have "round_rat ?x < 2 ^ 1024"
  proof -
    have "round_rat ?x \<le> 129" using err small x by linarith
    also have "(129::rat) < 2 ^ 1024" by simp
    finally show ?thesis .
  qed
  ultimately show ?thesis using nn by (simp add: fl_of_rat_def Let_def)
qed

lemma rne_tenths_bound:
  assumes "0 \<le> r" "r < 128"
  shows "nat (rne (r * 10)) \<le> 1280"
proof -
  have "\<bar>of_int (rne (r * 10)) - r * 10\<bar> \<le> 1 / 2" by (rule rne_error)
  moreover have "r * 10 < 1280" using assms by linarith
  ultimately have "(of_int (rne (r * 10)) :: rat) < 1281" by linarith
  then have "(of_int (rne (r * 10)) :: rat) < of_int 1281" by simp
  then have "rne (r * 10) < 1281" by (simp only: of_int_less_iff)
  then show ?thesis by simp
qed

lemma render_again:
  assumes "0 \<le> r" "r < 128"
  shows "\<exists>q. py_float (format_fixed 1 (Fin r)) = Some (Fin q) \<and> 0 \<le> q \<and>
    format_fixed 1 (Fin q) = format_fixed 1 (Fin r)"
proof -
  let ?n = "nat (rne (r * 10))"
  note t = fl_of_rat_tenths [OF rne_tenths_bound [OF assms]]
  note one = fixed_digits_one [unfolded One_nat_def]
  have "format_fixed 1 (Fin r) = one_decimal ?n" using assms by (simp add: one)
  moreover have "format_fixed 1 (Fin (round_rat (of_nat ?n / 10))) = one_decimal ?n"
    using t by (simp add: one)
  ultimately show ?thesis using t py_float_one_decimal [of ?n]
    by (intro exI [of _ "round_rat (of_nat ?n / 10)"]) simp
qed

section \<open>Unsigned numbers and their sum\<close>

definition nonneg :: "pyfloat \<Rightarrow> bool" where
  "nonneg x \<longleftrightarrow> x = PosInf \<or> (\<exists>r \<ge> 0. x = Fin r)"

definition large :: "pyfloat \<Rightarrow> bool" where
  "large x \<longleftrightarrow> x = PosInf \<or> (\<exists>r \<ge> 128. x = Fin r)"

lemma nonneg_fl_of_rat: "0 \<le> r \<Longrightarrow> nonneg (fl_of_rat r)"
proof -
  assume "0 \<le> r"
  then have "0 \<le> round_rat r" by (rule round_rat_nonneg)
  moreover from this have "\<not> round_rat r \<le> - (2 ^ 1024)" by (meson less_le_trans neg_less_0_iff_less not_le zero_less_power zero_less_numeral)
  ultimately show ?thesis by (auto simp: fl_of_rat_def Let_def nonneg_def)
qed

lemma fl_of_rat_ge:
  assumes "2 powi k \<le> r" "- 1022 \<le> k"
  shows "fl_of_rat r = PosInf \<or> (\<exists>v \<ge> 2 powi k. fl_of_rat r = Fin v)"
proof -
  have v: "2 powi k \<le> round_rat r" using assms by (rule round_rat_ge_power)
  have "(0::rat) < 2 powi k" by simp
  then have "nonneg (fl_of_rat r)" using assms(1) by (intro nonneg_fl_of_rat) linarith
  then show ?thesis using v by (auto simp: nonneg_def fl_of_rat_def Let_def split: if_splits)
qed

lemma nonneg_add: "nonneg x \<Longrightarrow> nonneg y \<Longrightarrow> nonneg (fl_add x y)"
proof -
  assume "nonneg x" "nonneg y"
  then consider "x = PosInf \<or> y = PosInf" | r q where "x = Fin r" "y = Fin q" "0 \<le> r" "0 \<le> q"
    by (auto simp: nonneg_def)
  then show ?thesis
  proof cases
    case 1
    then show ?thesis using \<open>nonneg x\<close> \<open>nonneg y\<close> by (auto simp: nonneg_def)
  next
    case 2
    then show ?thesis by (simp add: nonneg_fl_of_rat)
  qed
qed

lemma large_add: "nonneg x \<Longrightarrow> nonneg y \<Longrightarrow> large x \<or> large y \<Longrightarrow> large (fl_add x y)"
proof -
  assume a: "nonneg x" "nonneg y" "large x \<or> large y"
  show ?thesis
  proof (cases "x = PosInf \<or> y = PosInf")
    case True
    then show ?thesis using a by (auto simp: nonneg_def large_def)
  next
    case False
    then obtain r q where rq: "x = Fin r" "y = Fin q" "0 \<le> r" "0 \<le> q" using a by (auto simp: nonneg_def)
    then have "2 powi 7 \<le> r + q" using a(3) by (auto simp: large_def power_int_def)
    from fl_of_rat_ge [OF this] show ?thesis
      using rq by (auto simp: large_def power_int_def)
  qed
qed

lemma sum_of_nonneg:
  "nonneg a \<Longrightarrow> list_all nonneg vs \<Longrightarrow> nonneg (foldl fl_add a vs) \<and>
     (large a \<or> list_ex large vs \<longrightarrow> large (foldl fl_add a vs))"
  by (induction vs arbitrary: a) (auto intro: nonneg_add large_add)

lemma sum_of_nan: "a = NaN \<or> NaN \<in> set vs \<Longrightarrow> foldl fl_add a vs = NaN"
proof (induction vs arbitrary: a)
  case (Cons v vs)
  have "fl_add x NaN = NaN" for x by (cases x) simp_all
  moreover have "fl_add NaN x = NaN" for x by simp
  ultimately have "fl_add a v = NaN \<or> NaN \<in> set vs" using Cons.prems by auto
  then show ?case using Cons.IH [of "fl_add a v"] by simp
qed simp

lemma parse_unsigned_results:
  assumes "P PosInf" "P NaN" "\<And>m e. P (fl_of_rat (scale10 m e))"
  shows "pred_option P (parse_unsigned s)"
  unfolding parse_unsigned_def Let_def using assms
  by (simp split: option.split)

lemma parse_unsigned_nonneg:
  assumes "parse_unsigned s = Some v"
  shows "v = NaN \<or> nonneg v"
proof -
  have "nonneg (fl_of_rat (scale10 m e))" for m e
    by (intro nonneg_fl_of_rat) (simp add: scale10_def)
  then have "pred_option (\<lambda>v. v = NaN \<or> nonneg v) (parse_unsigned s)"
    by (intro parse_unsigned_results) (simp_all add: nonneg_def [of PosInf])
  then show ?thesis using assms by simp
qed

lemma py_float_unsigned_text:
  assumes "45 \<notin> set s" "py_float s = Some v"
  shows "v = NaN \<or> nonneg v"
proof -
  obtain t where t: "drop_underscores False (strip_by is_c_space (map to_ascii_char s)) = Some t"
    using assms(2) by (auto simp: py_float_def split: option.splits)
  have ascii: "to_ascii_char c = 45 \<Longrightarrow> c = 45" for c
    by (auto simp: to_ascii_char_def split: if_splits option.splits)
  have drop: "drop_underscores p u = Some w \<Longrightarrow> set w \<subseteq> set u" for p u w
  proof (induction u arbitrary: p w)
    case (Cons a u)
    then show ?case by (fastforce split: if_splits)
  qed simp
  have "45 \<notin> set (map to_ascii_char s)"
    using assms(1) ascii by (metis (no_types, lifting) imageE set_map)
  then have "45 \<notin> set (strip_by is_c_space (map to_ascii_char s))"
    by (auto simp: strip_by_def dest!: set_dropWhileD)
  then have "45 \<notin> set t" using drop [OF t] by auto
  then have "\<not> (t \<noteq> [] \<and> hd t = 45)" by (metis hd_in_set)
  then show ?thesis
    using assms(2) t parse_unsigned_nonneg
    by (auto simp: py_float_def signed_float_def split: if_splits)
qed

end
