(* ===== verification/Formula_Facts.thy ===== *)
theory Formula_Facts
  imports Formula Decimal_Facts
begin

text \<open>
  What the salt normalizer guarantees: canonical salts are well formed and do not depend on the
  order in which a source lists the components; a mention gets an IRI only with a matching
  composition; an OCR-damaged component is repaired only when the repair is unique.
\<close>

section \<open>Sorting in lockstep\<close>

lemma components_sorted: "map (\<lambda>i. cs ! i) (sorted_order cs) = sort cs"
  using sort_key_map [of "\<lambda>x. x" "\<lambda>i. cs ! i" "[0..<length cs]"]
  by (simp add: sorted_order_def map_nth)

lemma values_in_lockstep:
  assumes "length values = length cs"
  shows "map (\<lambda>i. values ! i) (sorted_order cs) = map snd (sort_key fst (zip cs values))"
proof -
  have "zip cs values = map (\<lambda>i. (cs ! i, values ! i)) [0..<length cs]"
    using assms by (intro nth_equalityI) auto
  then show ?thesis by (simp add: sort_key_map sorted_order_def comp_def)
qed

lemma formatted_in_lockstep:
  assumes "length values = length cs"
  shows "map (\<lambda>i. format_fixed k (values ! i)) (sorted_order cs)
    = map (\<lambda>v. format_fixed k (snd v)) (sort_key fst (zip cs values))"
  using arg_cong [OF values_in_lockstep [OF assms], of "map (format_fixed k)"] by (simp add: comp_def)

section \<open>Canonical salts\<close>

definition read_value :: "pystr \<Rightarrow> pyfloat" where
  "read_value rv = (case py_float (strip rv) of Some v \<Rightarrow> v | None \<Rightarrow> NaN)"

lemma map_result_read:
  "map_result (\<lambda>rv. float_or_error (strip rv)) rvs =
     (if list_all (\<lambda>rv. py_float (strip rv) \<noteq> None) rvs then Inr (map read_value rvs) else Inl ValueError)"
  by (induction rvs) (auto simp: float_or_error_def read_value_def split: option.splits)

definition sum_accepted :: "pyfloat list \<Rightarrow> bool" where
  "sum_accepted values \<longleftrightarrow>
     \<not> fl_lt positional_sum_tolerance (fl_abs (fl_sub (foldl fl_add (Fin 0) values) (Fin 100)))"

definition point_text :: "pystr list \<Rightarrow> pystr list \<Rightarrow> pystr" where
  "point_text cs texts = join (lit ''-'') cs @ lit '' | '' @ join (lit ''-'') texts"

lemma canonicalize_positional_Inr:
  "canonicalize_positional cs composition = Inr s \<longleftrightarrow>
   (\<exists>mp. let rvs = split_on 45 (strip composition); values = map read_value rvs;
       texts = map (\<lambda>v. format_fixed 1 (snd v)) (sort_key fst (zip cs values))
     in length rvs = length cs \<and> list_all (\<lambda>rv. py_float (strip rv) \<noteq> None) rvs \<and> sum_accepted values \<and>
        map_result float_or_error texts = Inr mp \<and>
        s = \<lparr>canonical = point_text (sort cs) texts, iri = salt_iri_of (point_text (sort cs) texts),
          components = sort cs, is_range = False, mole_percent = Some mp, vary_component = None,
          vary_min = None, vary_max = None\<rparr>)"
proof (cases "length (split_on 45 (strip composition)) = length cs")
  case True
  then have len: "length (map read_value (split_on 45 (strip composition))) = length cs" by simp
  show ?thesis
    using True formatted_in_lockstep [OF len, of 1]
    by (auto simp: canonicalize_positional_def Let_def map_result_read bind_result_eq_Inr
        sum_accepted_def components_sorted point_text_def comp_def)
qed (simp add: canonicalize_positional_def Let_def)

text \<open>A salt as it appears in the corpus, listed in either order.\<close>

definition sample_salt :: salt where
  "sample_salt = \<lparr>canonical = lit ''BeF2-LiF | 34.0-66.0'', iri = salt_iri_of (lit ''BeF2-LiF | 34.0-66.0''),
     components = [lit ''BeF2'', lit ''LiF''], is_range = False, mole_percent = Some [Fin 34, Fin 66],
     vary_component = None, vary_min = None, vary_max = None\<rparr>"

lemma sample_floats: "fl_of_rat 0 = Fin 0" "fl_of_rat 34 = Fin 34" "fl_of_rat 66 = Fin 66" "fl_of_rat 100 = Fin 100"
  using fl_of_rat_nat [of 0] fl_of_rat_nat [of 34] fl_of_rat_nat [of 66] fl_of_rat_nat [of 100] by simp_all

lemma sample_values:
  "strip (lit ''66'') = lit ''66''" "strip (lit ''34'') = lit ''34''"
  "py_float (lit ''66'') = Some (Fin 66)" "py_float (lit ''34'') = Some (Fin 34)"
  by (simp_all add: strip_def strip_by_def lit_def is_space_def py_float_def to_ascii_char_def is_c_space_def
      parse_unsigned_def lower_ascii_def lower_char_def is_upper_def is_ascii_digit_def parse_exponent_def
      scale10_def sample_floats)

lemma sample_texts:
  "format_fixed 1 (Fin 66) = lit ''66.0''" "format_fixed 1 (Fin 34) = lit ''34.0''"
  "py_float (lit ''66.0'') = Some (Fin 66)" "py_float (lit ''34.0'') = Some (Fin 34)"
proof -
  have r: "rne 660 = 660" "rne 340 = 340" using rne_of_int [of 660] rne_of_int [of 340] by simp_all
  have o: "one_decimal 660 = lit ''66.0''" "one_decimal 340 = lit ''34.0''"
    by (simp_all add: one_decimal_def show_nat.simps lit_def)
  show "format_fixed 1 (Fin 66) = lit ''66.0''" "format_fixed 1 (Fin 34) = lit ''34.0''"
    using fixed_digits_one [of 66] fixed_digits_one [of 34] by (simp_all add: r o)
  show "py_float (lit ''66.0'') = Some (Fin 66)" "py_float (lit ''34.0'') = Some (Fin 34)"
    using py_float_one_decimal [of 660] py_float_one_decimal [of 340] by (simp_all add: o sample_floats)
qed

lemma sample_order: "lit ''BeF2'' \<le> lit ''LiF''" "\<not> lit ''LiF'' \<le> lit ''BeF2''"
  by (simp_all add: lit_def)

lemma sample_split: "split_on 45 (strip (lit ''66-34'')) = [lit ''66'', lit ''34'']"
   "split_on 45 (strip (lit ''34-66'')) = [lit ''34'', lit ''66'']"
   "split_on 45 (strip (lit ''LiF-BeF2'')) = [lit ''LiF'', lit ''BeF2'']"
  by (simp_all add: strip_def strip_by_def lit_def is_space_def)

lemma sample_canonical:
  "canonicalize_positional [lit ''LiF'', lit ''BeF2''] (lit ''66-34'') = Inr sample_salt"
  "canonicalize_positional [lit ''BeF2'', lit ''LiF''] (lit ''34-66'') = Inr sample_salt"
proof -
  have canon: "point_text [lit ''BeF2'', lit ''LiF''] [lit ''34.0'', lit ''66.0''] = lit ''BeF2-LiF | 34.0-66.0''"
    by (simp add: point_text_def lit_def)
  note sample_texts [unfolded One_nat_def]
  then show "canonicalize_positional [lit ''LiF'', lit ''BeF2''] (lit ''66-34'') = Inr sample_salt"
     "canonicalize_positional [lit ''BeF2'', lit ''LiF''] (lit ''34-66'') = Inr sample_salt"
    unfolding canonicalize_positional_Inr sample_split Let_def
    by (simp_all add: sample_values read_value_def sum_accepted_def positional_sum_tolerance_def fl_sub_def
        sample_floats sample_order float_or_error_def canon sample_salt_def)
qed

lemma sample_canonicalize: "canonicalize (lit ''LiF-BeF2'') (lit ''66-34'') (lit ''P1'') = Inr sample_salt"
proof -
  have "strip (lit ''LiF'') \<noteq> []" "strip (lit ''BeF2'') \<noteq> []"
    by (simp_all add: strip_def strip_by_def lit_def is_space_def)
  then show ?thesis
    by (simp add: canonicalize_def sample_split Let_def ISOTHERM_CODES_def sample_canonical)
qed
lemma canonicalize_range_shape:
  assumes "canonicalize_range cs composition = Inr s"
  shows "components s = sort cs \<and> is_range s \<and> length cs = 2 \<and> mole_percent s = None \<and>
    pred_option (\<lambda>v. v \<in> set cs) (vary_component s) \<and> vary_component s \<noteq> None \<and>
    iri s = salt_iri_of (canonical s)"
  using assms
  by (auto simp: canonicalize_range_def Let_def components_sorted bind_result_eq_Inr
      split: list.splits if_splits)

lemma map_result_length: "map_result f xs = Inr ys \<Longrightarrow> length ys = length xs"
  by (auto simp: map_result_Inr list_all2_lengthD)

text \<open>C39. Well-formedness of canonical salts: the components are the token's, sorted; the salt is a
  range exactly for the isotherm codes, with two components and a varying one among them, and
  otherwise has one percentage per component; the IRI is a function of the canonical text, and
  none of the characters the loader maps away survives in it.\<close>

theorem canonicalize_well_formed:
  assumes "canonicalize token composition code = Inr s"
  shows "sorted (components s) \<and> mset (components s) = mset (split_on 45 (strip token))
    \<and> is_range s = (code \<in> set ISOTHERM_CODES)
    \<and> (if is_range s then length (components s) = 2 \<and> pred_option (\<lambda>v. v \<in> set (components s)) (vary_component s)
         \<and> vary_component s \<noteq> None
       else map_option length (mole_percent s) = Some (length (components s)))
    \<and> iri s = lit ''msrd:salt-'' @ formula_slugify (canonical s)
    \<and> set (iri s) \<inter> {32, 47, 35, 124, 61, 64} = {}"
proof -
  let ?cs = "split_on 45 (strip token)"
  have slug: "set (formula_slugify t) \<inter> {32, 47, 35, 124, 61, 64} = {}" for t
    using slug_spec_chars [of _ t] by (auto simp: formula_slugify_spec slugify_chars_def)
  have pre: "set (lit ''msrd:salt-'') \<inter> {32, 47, 35, 124, 61, 64} = {}" by (simp add: lit_def)
  have chars: "set (salt_iri_of t) \<inter> {32, 47, 35, 124, 61, 64} = {}" for t
    using slug [of t] pre unfolding salt_iri_of_def set_append by blast
  show ?thesis
  proof (cases "code \<in> set ISOTHERM_CODES")
    case True
    then have r: "canonicalize_range ?cs composition = Inr s"
      using assms by (auto simp: canonicalize_def Let_def split: if_splits)
    from canonicalize_range_shape [OF r] show ?thesis
      using True chars [of "canonical s"] by (auto simp: salt_iri_of_def)
  next
    case False
    then have r: "canonicalize_positional ?cs composition = Inr s"
      using assms by (auto simp: canonicalize_def Let_def split: if_splits)
    then show ?thesis using False chars [of "canonical s"]
      by (auto simp: canonicalize_positional_Inr Let_def salt_iri_of_def dest: map_result_length)
  qed
qed

lemma canonicalize_well_formed_witness:
  "sorted (components sample_salt) \<and> iri sample_salt = lit ''msrd:salt-'' @ formula_slugify (lit ''BeF2-LiF | 34.0-66.0'')"
  using canonicalize_well_formed [OF sample_canonicalize] by (simp add: sample_salt_def)



section \<open>Percentages\<close>

lemma set_split_on: "w \<in> set (split_on c s) \<Longrightarrow> c \<notin> set w"
proof (induction c s arbitrary: w rule: split_on.induct)
  case (2 c x xs)
  have "split_on c xs \<noteq> []" by (cases xs) auto
  then show ?case using 2 by (cases "split_on c xs") (auto split: if_splits)
qed simp

lemma read_value_unsigned:
  assumes "rv \<in> set (split_on 45 s)" "py_float (strip rv) \<noteq> None"
  shows "read_value rv = NaN \<or> nonneg (read_value rv)"
proof -
  have "45 \<notin> set rv" using assms(1) by (rule set_split_on)
  then have "45 \<notin> set (strip rv)" by (auto simp: strip_def strip_by_def dest!: set_dropWhileD)
  then show ?thesis using assms(2) py_float_unsigned_text by (fastforce simp: read_value_def)
qed

lemma large_not_accepted: "large t \<Longrightarrow> fl_lt positional_sum_tolerance (fl_abs (fl_sub t (Fin 100)))"
proof -
  assume "large t"
  then consider "t = PosInf" | r where "t = Fin r" "128 \<le> r" by (auto simp: large_def)
  then show ?thesis
  proof cases
    case 2
    then have "(2::rat) powi 4 \<le> r - 100" by (simp add: power_int_def)
    from fl_of_rat_ge [OF this] show ?thesis
      by (auto simp: 2 fl_sub_def positional_sum_tolerance_def power_int_def)
  qed (simp add: fl_sub_def positional_sum_tolerance_def)
qed

lemma accepted_value_small:
  assumes "sum_accepted vs" "list_all nonneg vs" "v \<in> set vs"
  shows "\<exists>r. v = Fin r \<and> 0 \<le> r \<and> r < 128"
proof -
  have "nonneg (Fin 0)" by (simp add: nonneg_def)
  from sum_of_nonneg [OF this assms(2)] large_not_accepted assms(1)
  have "\<not> list_ex large vs" by (auto simp: sum_accepted_def)
  then have "\<not> large v" "nonneg v" using assms by (auto simp: list_ex_iff list_all_iff)
  then show ?thesis unfolding nonneg_def large_def by (metis not_le)
qed

lemma map_result_render:
  assumes "list_all (\<lambda>v. \<exists>r. v = Fin r \<and> 0 \<le> r \<and> r < 128) vs"
  shows "\<exists>mp. map_result float_or_error (map (format_fixed 1) vs) = Inr mp \<and>
    map (format_fixed 1) mp = map (format_fixed 1) vs \<and>
    list_all (\<lambda>v. \<exists>r. v = Fin r \<and> 0 \<le> r) mp"
  using assms
proof (induction vs)
  case (Cons v vs)
  then obtain mp where mp: "map_result float_or_error (map (format_fixed 1) vs) = Inr mp"
      "map (format_fixed 1) mp = map (format_fixed 1) vs" "list_all (\<lambda>v. \<exists>r. v = Fin r \<and> 0 \<le> r) mp"
    by auto
  obtain r where r: "v = Fin r" "0 \<le> r" "r < 128" using Cons.prems by auto
  obtain q where "py_float (format_fixed 1 (Fin r)) = Some (Fin q)" "0 \<le> q"
      "format_fixed 1 (Fin q) = format_fixed 1 (Fin r)"
    using render_again [OF r(2,3)] by blast
  moreover from this have "float_or_error (format_fixed 1 v) = Inr (Fin q)"
    unfolding float_or_error_def r(1) by simp
  ultimately have "map_result float_or_error (map (format_fixed 1) (v # vs)) = Inr (Fin q # mp)"
      "map (format_fixed 1) (Fin q # mp) = map (format_fixed 1) (v # vs)"
      "list_all (\<lambda>v. \<exists>r. v = Fin r \<and> 0 \<le> r) (Fin q # mp)"
    unfolding list.map map_result.simps using mp r by simp_all
  then show ?case by blast
qed simp

text \<open>C7. The recomputed percentages agree with the canonical text: unless the source said
  \<open>nan\<close>, every percentage of an accepted composition is a finite non-negative number, and
  formatting the stored percentages with one decimal gives back exactly the numbers of the
  canonical text, although each was rounded to a double in between.\<close>

theorem canonicalize_percent_consistent:
  assumes "canonicalize_positional cs composition = Inr s"
    and "list_all (\<lambda>rv. read_value rv \<noteq> NaN) (split_on 45 (strip composition))"
  shows "\<exists>mp. mole_percent s = Some mp \<and> canonical s = point_text (components s) (map (format_fixed 1) mp)
    \<and> list_all (\<lambda>v. \<exists>r. v = Fin r \<and> 0 \<le> r) mp"
proof -
  let ?rvs = "split_on 45 (strip composition)"
  let ?vs = "map snd (sort_key fst (zip cs (map read_value ?rvs)))"
  obtain mp where mp: "length ?rvs = length cs" "list_all (\<lambda>rv. py_float (strip rv) \<noteq> None) ?rvs"
      "sum_accepted (map read_value ?rvs)" "map_result float_or_error (map (format_fixed 1) ?vs) = Inr mp"
      "s = \<lparr>canonical = point_text (sort cs) (map (format_fixed 1) ?vs),
        iri = salt_iri_of (point_text (sort cs) (map (format_fixed 1) ?vs)), components = sort cs,
        is_range = False, mole_percent = Some mp, vary_component = None, vary_min = None, vary_max = None\<rparr>"
    using assms(1) unfolding canonicalize_positional_Inr Let_def map_map comp_def by blast
  have "list_all nonneg (map read_value ?rvs)"
    using read_value_unsigned mp(2) assms(2) by (fastforce simp: list_all_iff)
  then have "\<exists>r. v = Fin r \<and> 0 \<le> r \<and> r < 128" if "v \<in> set (map read_value ?rvs)" for v
    using accepted_value_small [OF mp(3)] that by blast
  then have "list_all (\<lambda>v. \<exists>r. v = Fin r \<and> 0 \<le> r \<and> r < 128) ?vs"
    by (auto simp: list_all_iff dest!: set_zip_rightD)
  from map_result_render [OF this] mp(4) have "map (format_fixed 1) mp = map (format_fixed 1) ?vs"
      "list_all (\<lambda>v. \<exists>r. v = Fin r \<and> 0 \<le> r) mp"
    by auto
  then show ?thesis by (simp add: mp(5) del: map_map)
qed

lemma canonicalize_percent_consistent_witness:
  "canonical sample_salt = point_text (components sample_salt) (map (format_fixed 1) [Fin 34, Fin 66])"
  using canonicalize_percent_consistent [OF sample_canonical(1)]
  by (auto simp: sample_split read_value_def sample_values sample_salt_def)

section \<open>The sum check and not-a-number\<close>

lemma py_float_nan: "py_float (strip (lit ''nan'')) = Some NaN"
  by (simp add: py_float_def strip_def strip_by_def lit_def is_space_def to_ascii_char_def is_c_space_def
      parse_unsigned_def lower_ascii_def lower_char_def is_upper_def is_ascii_digit_def)

lemma split_nan: "split_on 45 (strip (lit ''nan-nan'')) = [lit ''nan'', lit ''nan'']"
  by (simp add: strip_def strip_by_def lit_def is_space_def)

text \<open>The sum check does not hold back a composition that is not a number: \<open>float()\<close> reads
  \<open>nan\<close>, every comparison with it is false, so \<open>nan-nan\<close> is accepted for any salt of two
  components and an IRI is minted from it.\<close>

theorem canonicalize_accepts_nan:
  "\<exists>s. canonicalize_positional [lit ''LiF'', lit ''BeF2''] (lit ''nan-nan'') = Inr s
     \<and> canonical s = lit ''BeF2-LiF | nan-nan'' \<and> mole_percent s = Some [NaN, NaN]"
proof -
  have f: "py_float (lit ''nan'') = Some NaN"
    using py_float_nan by (simp add: strip_def strip_by_def lit_def is_space_def)
  have r: "read_value (lit ''nan'') = NaN" by (simp add: read_value_def py_float_nan)
  have le: "\<not> lit ''LiF'' \<le> lit ''BeF2''" by (simp add: lit_def)
  have s: "sort [lit ''LiF'', lit ''BeF2''] = [lit ''BeF2'', lit ''LiF'']"
    by (simp add: le)
  have z: "sort_key fst [(lit ''LiF'', NaN), (lit ''BeF2'', NaN)] = [(lit ''BeF2'', NaN), (lit ''LiF'', NaN)]"
    by (simp add: le)
  have canon: "point_text [lit ''BeF2'', lit ''LiF''] [lit ''nan'', lit ''nan''] = lit ''BeF2-LiF | nan-nan''"
    by (simp add: point_text_def lit_def)
  have "canonicalize_positional [lit ''LiF'', lit ''BeF2''] (lit ''nan-nan'') = Inr
      \<lparr>canonical = lit ''BeF2-LiF | nan-nan'', iri = salt_iri_of (lit ''BeF2-LiF | nan-nan''),
       components = [lit ''BeF2'', lit ''LiF''], is_range = False, mole_percent = Some [NaN, NaN],
       vary_component = None, vary_min = None, vary_max = None\<rparr>"
    unfolding canonicalize_positional_Inr split_nan Let_def
    by (simp add: r s z py_float_nan sum_accepted_def positional_sum_tolerance_def fl_sub_def
        float_or_error_def f canon le)
  then show ?thesis by simp
qed

section \<open>Repairing components\<close>

definition repaired :: "pystr list \<Rightarrow> pystr \<Rightarrow> pystr \<Rightarrow> bool" where
  "repaired known token r \<longleftrightarrow> (case match_at_start OCR_SUBSCRIPT_TAIL_RE token of
       Some (_, Some stem) \<Rightarrow> filter (\<lambda>c. skeleton c = stem) known = [r]
     | _ \<Rightarrow> r = token)"

lemma skeleton_map_singleton: "skeleton_map known stem = Some [r] \<longleftrightarrow> filter (\<lambda>c. skeleton c = stem) known = [r]"
  by (auto simp: skeleton_map_def split: list.splits)

lemma resolve_against_spec:
  "resolve_against (skeleton_map known) tokens = Some rs \<longleftrightarrow> list_all2 (repaired known) tokens rs"
proof (induction tokens arbitrary: rs)
  case (Cons token tokens)
  show ?case
  proof (cases "\<exists>t stem. match_at_start OCR_SUBSCRIPT_TAIL_RE token = Some (t, Some stem)")
    case True
    then obtain t stem where m: "match_at_start OCR_SUBSCRIPT_TAIL_RE token = Some (t, Some stem)" by blast
    then show ?thesis using Cons.IH
      by (auto simp: list_all2_Cons1 repaired_def skeleton_map_singleton [symmetric] split: option.splits list.splits)
  next
    case False
    then show ?thesis using Cons.IH
      by (auto simp: list_all2_Cons1 repaired_def split: option.splits)
  qed
qed auto

text \<open>C30. Repair without guessing: resolving succeeds exactly when every component has a resolution,
  a clean component being its own and a damaged one (a comma or full stop for the lost
  subscript) resolving only to the single known compound with that skeleton. In which order
  the set of known compounds is enumerated makes no difference.\<close>

theorem resolve_components_unique:
  assumes "distinct known" "distinct known'" "set known = set known'"
  shows "(resolve_components tokens (Some known) = Some rs) = list_all2 (repaired known) tokens rs
    \<and> resolve_components tokens (Some known) = resolve_components tokens (Some known')"
proof -
  have single: "filter P known = [r] \<longleftrightarrow> filter P known' = [r]" for P and r :: pystr
  proof -
    have "filter P xs = [r] \<longleftrightarrow> {x \<in> set xs. P x} = {r}" if "distinct xs" for xs
    proof -
      have "distinct (filter P xs)" using that by simp
      then have "filter P xs = [r] \<longleftrightarrow> set (filter P xs) = {r}"
        by (cases "filter P xs"; cases "tl (filter P xs)") auto
      then show ?thesis by simp
    qed
    then show ?thesis using assms by simp
  qed
  have "repaired known = repaired known'"
    by (auto simp: fun_eq_iff repaired_def single split: option.splits)
  then have same: "resolve_against (skeleton_map known) tokens = resolve_against (skeleton_map known') tokens"
    using resolve_against_spec [of known tokens] resolve_against_spec [of known' tokens]
    by (metis not_Some_eq)
  show ?thesis using resolve_against_spec [of known tokens] by (simp add: resolve_components_def same)
qed

lemma resolve_components_unique_witness:
  "resolve_components [lit ''LiF'', lit ''BeF,''] (Some [lit ''LiF'', lit ''BeF2'']) = Some [lit ''LiF'', lit ''BeF2'']
   \<and> resolve_components [lit ''LiF'', lit ''BeF,''] (Some [lit ''BeF2'', lit ''LiF'']) = Some [lit ''LiF'', lit ''BeF2'']"
proof -
  have tail: "match_at_start OCR_SUBSCRIPT_TAIL_RE (lit ''LiF'') = None"
      "match_at_start OCR_SUBSCRIPT_TAIL_RE (lit ''BeF,'') = Some ([], Some (lit ''BeF''))"
    by (simp_all add: match_at_start_def OCR_SUBSCRIPT_TAIL_RE_def Plus_def lit_def)
  have skel: "skeleton (lit ''LiF'') = lit ''LiF''" "skeleton (lit ''BeF2'') = lit ''BeF''"
    by (simp_all add: skeleton_def TRAILING_DIGITS_RE_def Plus_def match_at_start_def lit_def
        is_digit_def digit_value_def digit_zeros_def is_ascii_digit_def)
  have "list_all2 (repaired [lit ''LiF'', lit ''BeF2'']) [lit ''LiF'', lit ''BeF,''] [lit ''LiF'', lit ''BeF2'']"
    by (simp add: repaired_def tail skel)
  then show ?thesis
    using resolve_components_unique [of "[lit ''LiF'', lit ''BeF2'']" "[lit ''BeF2'', lit ''LiF'']"
        "[lit ''LiF'', lit ''BeF,'']" "[lit ''LiF'', lit ''BeF2'']"]
    by (auto simp: insert_commute)
qed

section \<open>Mentions\<close>

definition span_components :: "pystr \<Rightarrow> pystr list" where
  "span_components surface = filter (\<lambda>c. c \<noteq> [])
     (map strip_leading_coefficient (filter (\<lambda>tok. tok \<noteq> []) (split_on 45 (clean_surface surface))))"

text \<open>No fabricated composition: a mention resolves to a composed salt exactly when it comes with
  a composition, given or inline, whose numbers are as many as its resolved components and
  which canonicalization accepts, and the IRI is the one of that canonical salt. A bare
  formula, or one whose components cannot all be resolved, resolves to nothing.\<close>

theorem normalize_salt_span_spec:
  "normalize_salt_span surface composition known = Some i \<longleftrightarrow>
   (\<exists>working text cs s.
      (case composition of None \<Rightarrow> extract_inline_composition surface | Some c \<Rightarrow> (surface, Some c))
        = (working, Some text) \<and>
      clean_surface working \<noteq> [] \<and> span_components working \<noteq> [] \<and>
      resolve_components (span_components working) known = Some cs \<and> cs \<noteq> [] \<and>
      length (findall NUMBER_RE text) = length cs \<and>
      canonicalize (join (lit ''-'') cs) (join (lit ''-'') (findall NUMBER_RE text)) (lit ''P1'') = Inr s \<and>
      i = iri s)"
proof -
  obtain working comp where w: "(case composition of None \<Rightarrow> extract_inline_composition surface
      | Some c \<Rightarrow> (surface, Some c)) = (working, comp)" by fastforce
  show ?thesis
    unfolding normalize_salt_span_def w Let_def prod.case span_components_def [symmetric]
    by (auto split: option.splits sum.splits if_splits)
qed

end
