(* ===== verification/Kg_Prompt.thy ===== *)
theory Kg_Prompt
  imports PyStr
begin

text \<open>
  \<open>kg_prompt.py\<close>: the prefix of every model prompt, a serialization of the known entities
  that must be the same bytes for the same graph, and the cache that rebuilds it only when the
  ontology's version changes. The graph reader is the sequence of answers it gives: a version
  and the entities, in the order the endpoint happened to return them.
\<close>

section \<open>The prefix\<close>

record known_entity =
  ke_target_iri :: pystr
  ke_labels :: "pystr list"
  ke_kind :: pystr

definition KIND_ORDER :: "pystr list" where
  "KIND_ORDER = [lit ''concept'', lit ''class'', lit ''salt'']"

definition format_entity :: "known_entity \<Rightarrow> pystr" where
  "format_entity en = concat [ke_kind en, [9], ke_target_iri en, [9], join (lit ''|'') (sort (ke_labels en))]"

definition group_lines :: "known_entity list \<Rightarrow> pystr \<Rightarrow> pystr list" where
  "group_lines entities kind =
     map format_entity (sort_key ke_target_iri (filter (\<lambda>en. ke_kind en = kind) entities))"

definition extra_kinds :: "known_entity list \<Rightarrow> pystr list" where
  "extra_kinds entities = sort (remdups (filter (\<lambda>k. k \<notin> set KIND_ORDER) (map ke_kind entities)))"

definition build_prefix :: "known_entity list \<Rightarrow> pystr" where
  "build_prefix entities =
     (let lines = concat (map (group_lines entities) KIND_ORDER) @
            concat (map (group_lines entities) (extra_kinds entities))
      in join nl lines @ (if lines = [] then [] else nl))"

section \<open>The cache\<close>

record prompt_cache =
  pc_version :: "pystr option"
  pc_prefix :: "pystr option"
  pc_has_cached :: bool

definition empty_cache :: prompt_cache where
  "empty_cache = \<lparr>pc_version = None, pc_prefix = None, pc_has_cached = False\<rparr>"

text \<open>One call of \<open>get\<close>; \<open>None\<close> is a failed assertion.\<close>

definition cache_get :: "pystr option \<Rightarrow> known_entity list \<Rightarrow> prompt_cache \<Rightarrow> (prompt_cache \<times> pystr) option" where
  "cache_get version entities st =
     (if pc_has_cached st \<and> version = pc_version st
      then map_option (Pair st) (pc_prefix st)
      else (let p = build_prefix entities
            in Some (\<lparr>pc_version = version, pc_prefix = Some p, pc_has_cached = True\<rparr>, p)))"

fun run_gets :: "(pystr option \<times> known_entity list) list \<Rightarrow> prompt_cache \<Rightarrow> pystr list option" where
  "run_gets [] st = Some []"
| "run_gets ((version, entities) # reads) st = (case cache_get version entities st of
       None \<Rightarrow> None
     | Some (st', p) \<Rightarrow> map_option (Cons p) (run_gets reads st'))"

section \<open>Byte stability\<close>

definition normal_entity :: "known_entity \<Rightarrow> known_entity" where
  "normal_entity en = en\<lparr>ke_labels := sort (ke_labels en)\<rparr>"

definition same_entities :: "known_entity list \<Rightarrow> known_entity list \<Rightarrow> bool" where
  "same_entities es es' \<longleftrightarrow> mset (map normal_entity es) = mset (map normal_entity es')"

lemma normal_entity_simps [simp]:
  "ke_kind (normal_entity en) = ke_kind en" "ke_target_iri (normal_entity en) = ke_target_iri en"
  "format_entity (normal_entity en) = format_entity en"
  by (simp_all add: normal_entity_def format_entity_def sorted_sort_id)

lemma group_lines_normal: "group_lines (map normal_entity es) kind = group_lines es kind"
  by (simp add: group_lines_def filter_map comp_def sort_key_map)

lemma build_prefix_normal: "build_prefix (map normal_entity es) = build_prefix es"
  by (simp add: build_prefix_def extra_kinds_def comp_def group_lines_normal [abs_def])

lemma group_lines_perm:
  assumes "mset es = mset es'" "distinct (map ke_target_iri es)"
  shows "group_lines es kind = group_lines es' kind"
  unfolding group_lines_def
  by (intro arg_cong [where f = "map format_entity"] sort_key_perm)
    (use assms in \<open>simp_all add: mset_filter distinct_map_filter\<close>)

lemma extra_kinds_perm: "mset es = mset es' \<Longrightarrow> extra_kinds es = extra_kinds es'"
proof -
  assume "mset es = mset es'"
  then have "set (filter (\<lambda>k. k \<notin> set KIND_ORDER) (map ke_kind es)) = set (filter (\<lambda>k. k \<notin> set KIND_ORDER) (map ke_kind es'))"
    by (metis mset_filter mset_map set_mset_mset)
  then show ?thesis unfolding extra_kinds_def
    by (intro sorted_distinct_set_unique) simp_all
qed

lemma build_prefix_stable:
  assumes "same_entities es es'" "distinct (map ke_target_iri es)"
  shows "build_prefix es = build_prefix es'"
proof -
  have m: "mset (map normal_entity es) = mset (map normal_entity es')"
    using assms(1) by (simp add: same_entities_def)
  have "distinct (map ke_target_iri (map normal_entity es))"
    using assms(2) by (simp add: comp_def)
  from group_lines_perm [OF m this] extra_kinds_perm [OF m]
  have "build_prefix (map normal_entity es) = build_prefix (map normal_entity es')"
    by (simp only: build_prefix_def cong: map_cong)
  then show ?thesis by (simp only: build_prefix_normal)
qed

definition fresh :: "prompt_cache \<Rightarrow> (pystr option \<times> known_entity list) list \<Rightarrow> bool" where
  "fresh st reads \<longleftrightarrow> pc_has_cached st \<longrightarrow>
     (\<exists>p. pc_prefix st = Some p \<and> (\<forall>r \<in> set reads. fst r = pc_version st \<longrightarrow> build_prefix (snd r) = p))"

lemma run_gets_fresh:
  assumes "fresh st reads"
    and "\<And>r r'. r \<in> set reads \<Longrightarrow> r' \<in> set reads \<Longrightarrow> fst r = fst r' \<Longrightarrow> build_prefix (snd r) = build_prefix (snd r')"
  shows "run_gets reads st = Some (map (\<lambda>r. build_prefix (snd r)) reads)"
  using assms
proof (induction reads arbitrary: st)
  case (Cons r reads)
  obtain version es where r: "r = (version, es)" by (cases r)
  show ?case
  proof (cases "pc_has_cached st \<and> version = pc_version st")
    case True
    then have "cache_get version es st = Some (st, build_prefix es)" "fresh st reads"
      using Cons.prems(1) r by (auto simp: cache_get_def fresh_def)
    then show ?thesis using Cons.IH [of st] Cons.prems(2) r by simp
  next
    case False
    let ?st = "\<lparr>pc_version = version, pc_prefix = Some (build_prefix es), pc_has_cached = True\<rparr>"
    have "cache_get version es st = Some (?st, build_prefix es)"
      using False by (auto simp: cache_get_def Let_def)
    moreover have "fresh ?st reads"
      using Cons.prems(2) [of _ r] r by (auto simp: fresh_def)
    ultimately show ?thesis using Cons.IH [of ?st] Cons.prems(2) r by simp
  qed
qed simp

text \<open>The cached prefix is never stale and byte-stable: over any sequence of calls in which the
  entities are a function of the version (in any order, with their labels in any order), every
  call returns exactly the prefix a rebuild would give, and no assertion fails.\<close>

theorem prompt_cache_coherent:
  assumes "\<And>r r'. r \<in> set reads \<Longrightarrow> r' \<in> set reads \<Longrightarrow> fst r = fst r' \<Longrightarrow> same_entities (snd r) (snd r')"
    and "\<And>r. r \<in> set reads \<Longrightarrow> distinct (map ke_target_iri (snd r))"
  shows "run_gets reads empty_cache = Some (map (\<lambda>r. build_prefix (snd r)) reads)"
  by (rule run_gets_fresh) (use assms build_prefix_stable in \<open>auto simp: fresh_def empty_cache_def\<close>)

definition sample_entity :: "string \<Rightarrow> string list \<Rightarrow> known_entity" where
  "sample_entity i labels = \<lparr>ke_target_iri = lit i, ke_labels = map lit labels, ke_kind = lit ''concept''\<rparr>"

lemma prompt_cache_coherent_witness:
  "let a = sample_entity ''voc:flibe'' [''FLiBe'', ''LiF-BeF2'']; a' = sample_entity ''voc:flibe'' [''LiF-BeF2'', ''FLiBe''];
       b = sample_entity ''voc:flinak'' [''FLiNaK'']
   in run_gets [(Some (lit ''1''), [a, b]), (Some (lit ''1''), [b, a']), (Some (lit ''2''), [b])] empty_cache
      = Some [build_prefix [a, b], build_prefix [b, a'], build_prefix [b]]"
proof -
  let ?a = "sample_entity ''voc:flibe'' [''FLiBe'', ''LiF-BeF2'']"
  let ?a' = "sample_entity ''voc:flibe'' [''LiF-BeF2'', ''FLiBe'']"
  let ?b = "sample_entity ''voc:flinak'' [''FLiNaK'']"
  let ?reads = "[(Some (lit ''1''), [?a, ?b]), (Some (lit ''1''), [?b, ?a']), (Some (lit ''2''), [?b])]"
  have "normal_entity ?a = normal_entity ?a'"
    by (auto simp: normal_entity_def sample_entity_def)
  then have "same_entities (snd r) (snd r')"
    if "r \<in> set ?reads" "r' \<in> set ?reads" "fst r = fst r'" for r r'
    using that by (auto simp: same_entities_def)
  moreover have "distinct (map ke_target_iri (snd r))" if "r \<in> set ?reads" for r
    using that by (auto simp: sample_entity_def)
  ultimately have "run_gets ?reads empty_cache = Some (map (\<lambda>r. build_prefix (snd r)) ?reads)"
    by (rule prompt_cache_coherent)
  then show ?thesis by (simp add: Let_def)
qed

end
