(* ===== verification/Linker.thy ===== *)
theory Linker
  imports Formula Kg_Prompt "HOL-Library.Product_Lexorder"
begin

text \<open>
  \<open>linker.py\<close> and \<open>SeededMatcher.match\<close> of \<open>seeding.py\<close>: the layers that classify the
  spans of one segment. The spaCy pipeline (\<open>nlp\<close>), \<open>rapidfuzz\<close>'s \<open>extractOne\<close> and the
  disambiguator are arguments; what is relied on of them is a named hypothesis of the theorem
  that needs it. Offsets of a record are absolute, as in \<open>segments.jsonl\<close>.
\<close>

section \<open>Data\<close>

record segment =
  sg_report :: pystr
  sg_index :: int
  sg_text :: pystr
  sg_char_start :: int

record mention_record =
  mn_report :: pystr
  mn_seg_index :: int
  mn_start :: int
  mn_end :: int
  mn_surface :: pystr
  mn_status :: pystr
  mn_target_iri :: "pystr option"
  mn_target_kind :: "pystr option"
  mn_layer :: nat
  mn_score :: "pyfloat option"

definition LAYER_EXACT :: nat where "LAYER_EXACT = 2"
definition LAYER_FORMULA :: nat where "LAYER_FORMULA = 3"
definition LAYER_FUZZY :: nat where "LAYER_FUZZY = 4"
definition LAYER_FLASH :: nat where "LAYER_FLASH = 5"

section \<open>The seeded matcher\<close>

record ent =
  ent_start_char :: nat
  ent_end_char :: nat
  ent_text :: pystr
  ent_id :: pystr

record matched =
  m_start :: nat
  m_end :: nat
  m_surface :: pystr
  m_target_iri :: pystr
  m_kind :: pystr

record seeded_matcher =
  target_index :: "pystr \<rightharpoonup> pystr \<times> pystr"
  nlp :: "pystr \<Rightarrow> ent list"

definition to_match :: "(pystr \<rightharpoonup> pystr \<times> pystr) \<Rightarrow> ent \<Rightarrow> matched option" where
  "to_match index e = (case index (ent_id e) of
       None \<Rightarrow> None
     | Some (target, kind) \<Rightarrow> Some \<lparr>m_start = ent_start_char e, m_end = ent_end_char e,
         m_surface = ent_text e, m_target_iri = target, m_kind = kind\<rparr>)"

definition seeded_match :: "seeded_matcher \<Rightarrow> pystr \<Rightarrow> matched list" where
  "seeded_match matcher t =
     sort_key m_start (List.map_filter (to_match (target_index matcher)) (nlp matcher t))"

text \<open>The index \<open>build_matcher\<close> records: entities in order of their IRI, a later one replacing an
  earlier one with the same IRI.\<close>

definition build_target_index :: "known_entity list \<Rightarrow> (pystr \<rightharpoonup> pystr \<times> pystr)" where
  "build_target_index known_entities = fold
     (\<lambda>entity index. index(ke_target_iri entity \<mapsto> (ke_target_iri entity, ke_kind entity)))
     (sort_key ke_target_iri known_entities) Map.empty"

section \<open>Formula candidates\<close>

definition is_subscript :: "nat \<Rightarrow> bool" where
  "is_subscript c \<longleftrightarrow> 8320 \<le> c \<and> c \<le> 8329"

definition ELEMENT_UNIT :: rx where
  "ELEMENT_UNIT = Cats [Chr is_upper, Opt (Chr is_lower), Star (Chr (\<lambda>c. is_ascii_digit c \<or> is_subscript c))]"

text \<open>\<open>(?:unit){1,4}\<close>.\<close>

definition ELEMENT_UNITS :: rx where
  "ELEMENT_UNITS = Cat ELEMENT_UNIT (UpTo 3 ELEMENT_UNIT)"

definition FORMULA_TOKEN :: rx where
  "FORMULA_TOKEN = Cats [UpTo 3 (Chr is_digit), ELEMENT_UNITS, Opt (Chr (\<lambda>c. c = 44 \<or> c = 46))]"

definition FORMULA_SEP :: rx where
  "FORMULA_SEP = Cats [GAP, Chr (\<lambda>c. c = 45 \<or> c = 183 \<or> c = 8226 \<or> c = 8901), GAP]"

definition COMPOSITION_TAIL :: rx where
  "COMPOSITION_TAIL = Cats
     [Opt (Is 40), GAP, NUMBER_RE, Plus (Cats [GAP, Is 45, GAP, NUMBER_RE]), GAP,
      Is 109, Is 111, Is 108, Opt (Is 46), GAP, Opt (Is 101), Opt (Is 46), GAP, Is 37, GAP, Opt (Is 41)]"

definition FORMULA_CANDIDATE_RE :: rx where
  "FORMULA_CANDIDATE_RE = Cats
     [FORMULA_TOKEN, Plus (Cat FORMULA_SEP FORMULA_TOKEN),
      Opt (Cat (Star (Chr is_space)) COMPOSITION_TAIL)]"

definition find_formula_candidates :: "pystr \<Rightarrow> (nat \<times> nat \<times> pystr) list" where
  "find_formula_candidates t = finditer FORMULA_CANDIDATE_RE t 0"

definition build_known_compounds :: "known_entity list \<Rightarrow> pystr list" where
  "build_known_compounds known_entities =
     remdups (filter (fullmatch ELEMENT_UNITS) (concat (map ke_labels known_entities)))"

text \<open>What a candidate is made of; on these characters \<open>is_word\<close> is Python's \<open>\\w\<close>.\<close>

definition candidate_char :: "nat \<Rightarrow> bool" where
  "candidate_char c \<longleftrightarrow> is_alpha_ascii c \<or> is_digit c \<or> is_subscript c \<or> is_space c
     \<or> c \<in> {37, 40, 41, 44, 45, 46, 183, 8226, 8901}"

lemma rx_over_UpTo [simp]: "rx_over P (UpTo n r) \<longleftrightarrow> n = 0 \<or> rx_over P r"
  by (induction n) auto

lemma rx_over_Plus [simp]: "rx_over P (Plus r) \<longleftrightarrow> rx_over P r"
  by (simp add: Plus_def)

lemma rx_over_Is [simp]: "rx_over P (Is c) \<longleftrightarrow> P c"
  by (simp add: Is_def)

lemma candidate_alphabet:
  "(a, b, w) \<in> set (find_formula_candidates t) \<Longrightarrow> list_all candidate_char w"
proof -
  have c: "candidate_char 37" "candidate_char 40" "candidate_char 41" "candidate_char 45" "candidate_char 46"
      "candidate_char 101" "candidate_char 108" "candidate_char 109" "candidate_char 111"
    by (simp_all add: candidate_char_def is_alpha_ascii_def is_lower_def)
  have gap: "rx_over candidate_char GAP" and num: "rx_over candidate_char NUMBER_RE"
    using c by (auto simp: GAP_def NUMBER_RE_def candidate_char_def)
  have "rx_over candidate_char ELEMENT_UNIT"
    by (auto simp: ELEMENT_UNIT_def candidate_char_def is_alpha_ascii_def is_digit_def digit_value_def)
  then have "rx_over candidate_char FORMULA_TOKEN"
    by (auto simp: FORMULA_TOKEN_def ELEMENT_UNITS_def candidate_char_def)
  moreover have "rx_over candidate_char FORMULA_SEP"
    using gap by (auto simp: FORMULA_SEP_def candidate_char_def)
  moreover have "rx_over candidate_char COMPOSITION_TAIL"
    using gap num c by (simp add: COMPOSITION_TAIL_def)
  ultimately have "rx_over candidate_char FORMULA_CANDIDATE_RE"
    by (simp add: FORMULA_CANDIDATE_RE_def candidate_char_def)
  then show "(a, b, w) \<in> set (find_formula_candidates t) \<Longrightarrow> list_all candidate_char w"
    unfolding find_formula_candidates_def by (rule finditer_over)
qed

section \<open>Single layers\<close>

definition expand_curie :: "pystr \<Rightarrow> pystr" where
  "expand_curie curie = (if starts_with (lit ''msrd:'') curie
     then lit ''https://w3id.org/msr-kg/data#'' @ drop (length (lit ''msrd:'')) curie else curie)"

definition overlaps :: "int \<Rightarrow> int \<Rightarrow> int \<Rightarrow> int \<Rightarrow> bool" where
  "overlaps a_start a_end b_start b_end \<longleftrightarrow> a_start < b_end \<and> b_start < a_end"

definition known_labels :: "known_entity list \<Rightarrow> (pystr \<times> pystr \<times> pystr) list" where
  "known_labels known_entities = concat (map (\<lambda>entity.
     map (\<lambda>label. (label, ke_target_iri entity, ke_kind entity)) (ke_labels entity)) known_entities)"

text \<open>\<open>\\w\<close>, on the characters a formula candidate is made of (\<open>candidate_alphabet\<close> below); only
  candidates are looked up.\<close>

definition is_word :: "nat \<Rightarrow> bool" where
  "is_word c \<longleftrightarrow> is_alpha_ascii c \<or> is_digit c \<or> is_subscript c \<or> c = 95"

text \<open>\<open>process.extractOne(surface, labels, scorer = fuzz.WRatio)\<close>: the score and the index of the
  best choice.\<close>

type_synonym extract_one = "pystr \<Rightarrow> pystr list \<Rightarrow> (pyfloat \<times> nat) option"

definition fuzzy_link :: "extract_one \<Rightarrow> pystr \<Rightarrow> (pystr \<times> pystr \<times> pystr) list \<Rightarrow> pyfloat \<Rightarrow> int \<Rightarrow>
    (pystr \<times> pystr \<times> pyfloat) option" where
  "fuzzy_link extract surface labels threshold min_token_length =
     (let tokens = findall (Plus (Chr is_word)) surface
      in if labels = [] then None
         else if tokens = [] \<or> int (Max (set (map length tokens))) < min_token_length then None
         else (case extract surface (map fst labels) of
             None \<Rightarrow> None
           | Some (score, index) \<Rightarrow>
               if fl_lt score threshold then None
               else (case labels ! index of (_, target, kind) \<Rightarrow> Some (target, kind, score))))"

section \<open>Linking a segment\<close>

record link_config =
  fuzzy_threshold :: pyfloat
  fuzzy_min_token_length :: int

text \<open>What a run fixes: the matcher, the entities of the graph, its IRIs, the configuration and the
  calls out. The disambiguator is called with the surface and the sentence.\<close>

record link_run =
  matcher :: seeded_matcher
  known_entities :: "known_entity list"
  known_iris :: "pystr set"
  link_conf :: link_config
  extract_best :: extract_one
  disambiguator :: "(pystr \<Rightarrow> pystr \<Rightarrow> pystr \<times> pystr option) option"

type_synonym candidate = "int \<times> int \<times> pystr \<times> pystr option"

definition make_mention :: "segment \<Rightarrow> int \<Rightarrow> int \<Rightarrow> pystr \<Rightarrow> (pystr \<times> pystr option) option \<Rightarrow> nat \<Rightarrow>
    pyfloat option \<Rightarrow> mention_record" where
  "make_mention seg s e surface target layer score =
     \<lparr>mn_report = sg_report seg, mn_seg_index = sg_index seg, mn_start = s, mn_end = e,
      mn_surface = surface, mn_status = (if target = None then lit ''novel'' else lit ''linked''),
      mn_target_iri = map_option fst target, mn_target_kind = Option.bind target snd,
      mn_layer = layer, mn_score = score\<rparr>"

definition is_free :: "mention_record list \<Rightarrow> int \<Rightarrow> int \<Rightarrow> bool" where
  "is_free resolved s e \<longleftrightarrow> \<not> list_ex (\<lambda>r. overlaps s e (mn_start r) (mn_end r)) resolved"

definition salt_target :: "pystr list \<Rightarrow> pystr set \<Rightarrow> pystr \<Rightarrow> pystr option" where
  "salt_target known_compounds iris surface =
     (case normalize_salt_span surface None (Some known_compounds) of
        None \<Rightarrow> None
      | Some curie \<Rightarrow> (let expanded = expand_curie curie in if expanded \<in> iris then Some expanded else None))"

definition segment_candidates :: "segment \<Rightarrow> pystr list \<Rightarrow> pystr set \<Rightarrow> candidate list" where
  "segment_candidates seg known_compounds iris = map (\<lambda>(local_start, local_end, surface).
     (sg_char_start seg + int local_start, sg_char_start seg + int local_end, surface,
      salt_target known_compounds iris surface)) (find_formula_candidates (sg_text seg))"

definition salt_spans :: "candidate list \<Rightarrow> (int \<times> int) list" where
  "salt_spans cs = map (\<lambda>(s, e, _). (s, e)) (filter (\<lambda>(_, _, _, salt). salt \<noteq> None) cs)"

definition overlaps_a_salt_span :: "(int \<times> int) list \<Rightarrow> int \<Rightarrow> int \<Rightarrow> bool" where
  "overlaps_a_salt_span spans s e \<longleftrightarrow> list_ex (\<lambda>(s', e'). overlaps s e s' e') spans"

text \<open>Layer 2.\<close>

definition exact_step :: "segment \<Rightarrow> (int \<times> int) list \<Rightarrow> matched \<Rightarrow> mention_record list \<Rightarrow> mention_record list" where
  "exact_step seg spans m resolved =
     (let s = sg_char_start seg + int (m_start m); e = sg_char_start seg + int (m_end m)
      in if overlaps_a_salt_span spans s e then resolved
         else if \<not> is_free resolved s e then resolved
         else resolved @ [make_mention seg s e (m_surface m) (Some (m_target_iri m, Some (m_kind m)))
           LAYER_EXACT None])"

text \<open>Layer 3.\<close>

definition formula_step :: "segment \<Rightarrow> candidate \<Rightarrow> mention_record list \<Rightarrow> mention_record list" where
  "formula_step seg c resolved = (case c of (s, e, surface, salt) \<Rightarrow>
     (case salt of
        None \<Rightarrow> resolved
      | Some salt_iri \<Rightarrow>
          if \<not> is_free resolved s e then resolved
          else resolved @ [make_mention seg s e surface (Some (salt_iri, Some (lit ''salt''))) LAYER_FORMULA None]))"

text \<open>Layers 4 and 5 on one span: the record they make of it.\<close>

definition flash_target :: "link_run \<Rightarrow> segment \<Rightarrow> pystr \<Rightarrow> (pystr \<times> pystr option) option" where
  "flash_target run seg surface =
     (let kind_by_iri = map_of (rev (map (\<lambda>entity. (ke_target_iri entity, ke_kind entity)) (known_entities run)));
          (status, target) = (case disambiguator run of
             None \<Rightarrow> (lit ''novel'', None) | Some d \<Rightarrow> d surface (sg_text seg))
      in case target of
           None \<Rightarrow> None
         | Some t \<Rightarrow> if status = lit ''linked'' \<and> t \<in> known_iris run then Some (t, kind_by_iri t) else None)"

definition fallback_record :: "link_run \<Rightarrow> segment \<Rightarrow> int \<Rightarrow> int \<Rightarrow> pystr \<Rightarrow> mention_record" where
  "fallback_record run seg s e surface =
     (case fuzzy_link (extract_best run) surface (known_labels (known_entities run))
          (fuzzy_threshold (link_conf run)) (fuzzy_min_token_length (link_conf run)) of
        Some (target, kind, score) \<Rightarrow>
          make_mention seg s e surface (Some (target, Some kind)) LAYER_FUZZY (Some score)
      | None \<Rightarrow> make_mention seg s e surface (flash_target run seg surface) LAYER_FLASH None)"

definition fallback_step :: "link_run \<Rightarrow> segment \<Rightarrow> candidate \<Rightarrow> mention_record list \<Rightarrow> mention_record list" where
  "fallback_step run seg c resolved = (case c of (s, e, surface, _) \<Rightarrow>
     if \<not> is_free resolved s e then resolved
     else resolved @ [fallback_record run seg s e surface])"

definition resolve_segment :: "link_run \<Rightarrow> segment \<Rightarrow> pystr list \<Rightarrow> mention_record list" where
  "resolve_segment run seg known_compounds =
     (let cs = segment_candidates seg known_compounds (known_iris run);
          exact = fold (exact_step seg (salt_spans cs)) (seeded_match (matcher run) (sg_text seg)) [];
          salts = fold (formula_step seg) cs exact
      in fold (fallback_step run seg) cs salts)"

definition link_segment :: "link_run \<Rightarrow> segment \<Rightarrow> pystr list option \<Rightarrow> mention_record list" where
  "link_segment run seg known_compounds =
     sort_key (\<lambda>r. (mn_start r, mn_end r)) (resolve_segment run seg (case known_compounds of
       None \<Rightarrow> build_known_compounds (known_entities run) | Some cs \<Rightarrow> cs))"

text \<open>\<open>link_report\<close>, on the segments read from the report's file.\<close>

definition link_report :: "link_run \<Rightarrow> segment list \<Rightarrow> pystr list option \<Rightarrow> mention_record list" where
  "link_report run segments known_compounds =
     (let cs = (case known_compounds of
          None \<Rightarrow> build_known_compounds (known_entities run) | Some cs \<Rightarrow> cs)
      in concat (map (\<lambda>seg. link_segment run seg (Some cs)) segments))"

section \<open>The contract of a layer\<close>

abbreviation apart :: "mention_record \<Rightarrow> mention_record \<Rightarrow> bool" where
  "apart a b \<equiv> \<not> overlaps (mn_start a) (mn_end a) (mn_start b) (mn_end b)"

lemma overlaps_sym: "overlaps a b c d \<longleftrightarrow> overlaps c d a b"
  by (auto simp: overlaps_def)

lemma is_free_simps [simp]:
  "is_free [] s e"
  "is_free (rs @ rs') s e \<longleftrightarrow> is_free rs s e \<and> is_free rs' s e"
  "is_free [r] s e \<longleftrightarrow> \<not> overlaps s e (mn_start r) (mn_end r)"
  by (auto simp: is_free_def)

lemma is_free_set: "is_free rs s e \<longleftrightarrow> (\<forall>r \<in> set rs. \<not> overlaps s e (mn_start r) (mn_end r))"
  by (auto simp: is_free_def list_ex_iff)

text \<open>A step leaves the list as it is or appends one record whose span is still free.\<close>

locale linking_layer =
  fixes step :: "'a \<Rightarrow> mention_record list \<Rightarrow> mention_record list"
    and makes :: "'a \<Rightarrow> mention_record \<Rightarrow> bool"
  assumes step: "step x rs = rs \<or>
    (\<exists>r. step x rs = rs @ [r] \<and> is_free rs (mn_start r) (mn_end r) \<and> makes x r)"
begin

lemma fold_new: "\<exists>new. fold step xs rs = rs @ new \<and> list_all (\<lambda>r. \<exists>x \<in> set xs. makes x r) new"
proof (induction xs arbitrary: rs)
  case (Cons x xs)
  obtain new where new: "fold step xs (step x rs) = step x rs @ new"
      "list_all (\<lambda>r. \<exists>x \<in> set xs. makes x r) new"
    using Cons.IH by blast
  from new(2) have "list_all (\<lambda>r. \<exists>y \<in> set (x # xs). makes y r) new"
    by (auto elim!: list.pred_mono_strong)
  with step [of x rs] new(1) show ?case by auto
qed simp

lemma fold_source: "r \<in> set (fold step xs rs) \<Longrightarrow> r \<in> set rs \<or> (\<exists>x \<in> set xs. makes x r)"
  using fold_new [of xs rs] by (auto simp: list_all_iff)

lemma fold_disjoint: "sorted_wrt apart rs \<Longrightarrow> sorted_wrt apart (fold step xs rs)"
proof (induction xs arbitrary: rs)
  case (Cons x xs)
  have "sorted_wrt apart (step x rs)"
    using step [of x rs] Cons.prems by (auto simp: sorted_wrt_append is_free_set overlaps_sym)
  then show ?case using Cons.IH by simp
qed simp

lemma fold_keeps: "set rs \<subseteq> set (fold step xs rs)"
  using fold_new [of xs rs] by auto

lemma fold_covers:
  assumes "x \<in> set xs" "\<And>rs. \<not> is_free (step x rs) s e"
  shows "\<not> is_free (fold step xs rs) s e"
proof -
  obtain ys zs where xs: "xs = ys @ x # zs" using assms(1) by (auto dest: split_list)
  have "\<not> is_free (step x (fold step ys rs)) s e" using assms(2) .
  moreover obtain new where "fold step zs (step x (fold step ys rs)) = step x (fold step ys rs) @ new"
    using fold_new by blast
  ultimately show ?thesis by (simp add: xs)
qed

end

definition exact_makes :: "segment \<Rightarrow> (int \<times> int) list \<Rightarrow> matched \<Rightarrow> mention_record \<Rightarrow> bool" where
  "exact_makes seg spans m r \<longleftrightarrow>
     r = make_mention seg (sg_char_start seg + int (m_start m)) (sg_char_start seg + int (m_end m))
       (m_surface m) (Some (m_target_iri m, Some (m_kind m))) LAYER_EXACT None
     \<and> \<not> overlaps_a_salt_span spans (mn_start r) (mn_end r)"

definition formula_makes :: "segment \<Rightarrow> candidate \<Rightarrow> mention_record \<Rightarrow> bool" where
  "formula_makes seg c r \<longleftrightarrow> (case c of (s, e, surface, salt) \<Rightarrow> \<exists>salt_iri. salt = Some salt_iri \<and>
     r = make_mention seg s e surface (Some (salt_iri, Some (lit ''salt''))) LAYER_FORMULA None)"

definition fallback_makes :: "link_run \<Rightarrow> segment \<Rightarrow> candidate \<Rightarrow> mention_record \<Rightarrow> bool" where
  "fallback_makes run seg c r \<longleftrightarrow> (case c of (s, e, surface, _) \<Rightarrow> r = fallback_record run seg s e surface)"

lemma make_mention_span [simp]:
  "mn_start (make_mention seg s e w t l x) = s" "mn_end (make_mention seg s e w t l x) = e"
  by (simp_all add: make_mention_def)

lemma fallback_record_span [simp]:
  "mn_start (fallback_record run seg s e w) = s" "mn_end (fallback_record run seg s e w) = e"
  by (auto simp: fallback_record_def split: option.splits)

interpretation exact: linking_layer "exact_step seg spans" "exact_makes seg spans" for seg spans
  by unfold_locales (simp add: exact_step_def exact_makes_def Let_def)

interpretation formula: linking_layer "formula_step seg" "formula_makes seg" for seg
  by unfold_locales (auto simp: formula_step_def formula_makes_def split: option.splits, metis make_mention_span)

interpretation fallback: linking_layer "fallback_step run seg" "fallback_makes run seg" for run seg
  by unfold_locales (auto simp: fallback_step_def fallback_makes_def split: prod.splits)

section \<open>Sorting keeps the records\<close>

lemma sorted_wrt_insort:
  assumes "\<And>a b. P a b \<Longrightarrow> P b a"
  shows "sorted_wrt P (insort_key f x xs) \<longleftrightarrow> sorted_wrt P (x # xs)"
  using assms by (induction xs) (auto simp: set_insort_key)

lemma sorted_wrt_sort_key:
  assumes "\<And>a b. P a b \<Longrightarrow> P b a"
  shows "sorted_wrt P (sort_key f xs) \<longleftrightarrow> sorted_wrt P xs"
proof (induction xs)
  case (Cons x xs)
  have "sorted_wrt P (sort_key f (x # xs)) \<longleftrightarrow> sorted_wrt P (x # sort_key f xs)"
    using sorted_wrt_insort [of P f x "sort_key f xs", OF assms] by simp
  then show ?case using Cons by simp
qed simp

lemma is_free_sort [simp]: "is_free (sort_key f rs) s e = is_free rs s e"
  by (simp add: is_free_set)

definition compounds_of :: "link_run \<Rightarrow> pystr list option \<Rightarrow> pystr list" where
  "compounds_of run known_compounds = (case known_compounds of
     None \<Rightarrow> build_known_compounds (known_entities run) | Some cs \<Rightarrow> cs)"

abbreviation candidates_of :: "link_run \<Rightarrow> segment \<Rightarrow> pystr list option \<Rightarrow> candidate list" where
  "candidates_of run seg known_compounds \<equiv>
     segment_candidates seg (compounds_of run known_compounds) (known_iris run)"

lemma link_segment_resolve:
  "link_segment run seg kc = sort_key (\<lambda>r. (mn_start r, mn_end r)) (resolve_segment run seg (compounds_of run kc))"
  by (simp add: link_segment_def compounds_of_def)

text \<open>C25. The records of a segment come sorted by offset and no two of them overlap, whatever the
  matcher, the fuzzy search and the disambiguator return: no layer re-emits a span that an
  earlier one resolved.\<close>

theorem link_segment_disjoint:
  "sorted (map (\<lambda>r. (mn_start r, mn_end r)) (link_segment run seg kc))
   \<and> sorted_wrt (\<lambda>a b. \<not> overlaps (mn_start a) (mn_end a) (mn_start b) (mn_end b)) (link_segment run seg kc)"
proof -
  have "sorted_wrt apart (resolve_segment run seg (compounds_of run kc))"
    unfolding resolve_segment_def Let_def
    by (intro fallback.fold_disjoint formula.fold_disjoint exact.fold_disjoint) simp
  then show ?thesis
    unfolding link_segment_resolve by (subst sorted_wrt_sort_key) (auto simp: overlaps_sym)
qed

section \<open>No span is lost\<close>

abbreviation salt_record :: "segment \<Rightarrow> candidate \<Rightarrow> mention_record" where
  "salt_record seg c \<equiv> (case c of (s, e, surface, salt) \<Rightarrow>
     make_mention seg s e surface (Some (the salt, Some (lit ''salt''))) LAYER_FORMULA None)"

abbreviation salts_of :: "candidate list \<Rightarrow> candidate list" where
  "salts_of cs \<equiv> filter (\<lambda>(_, _, _, salt). salt \<noteq> None) cs"

lemma candidates_ordered:
  "sorted_wrt (\<lambda>(_, e, _) (s', _, _). e \<le> s') (segment_candidates seg known iris)"
  using finditer_disjoint [of FORMULA_CANDIDATE_RE "sg_text seg" 0]
  by (auto simp: segment_candidates_def find_formula_candidates_def sorted_wrt_map
      elim!: sorted_wrt_mono_rel [rotated])

lemma candidate_nonempty: "(s, e, w, salt) \<in> set (segment_candidates seg known iris) \<Longrightarrow> s < e"
  by (auto simp: segment_candidates_def find_formula_candidates_def dest: finditer_spans)

text \<open>A list of candidates that no record so far overlaps: every composed salt gets its record.\<close>

lemma fold_formula_salts:
  assumes "sorted_wrt (\<lambda>(_, e, _) (s', _, _). e \<le> s') cs"
    and "list_all (\<lambda>(s, e, _). is_free rs s e) (salts_of cs)"
  shows "salt_record seg ` set (salts_of cs) \<subseteq> set (fold (formula_step seg) cs rs)"
  using assms
proof (induction cs arbitrary: rs)
  case (Cons c cs)
  obtain s e w salt where c: "c = (s, e, w, salt)" by (cases c)
  show ?case
  proof (cases salt)
    case None
    then have "formula_step seg c rs = rs" by (simp add: c formula_step_def)
    then show ?thesis using Cons None by (simp add: c)
  next
    case (Some iri)
    let ?rs = "rs @ [salt_record seg c]"
    have s: "formula_step seg c rs = ?rs"
      using Cons.prems(2) Some by (simp add: c formula_step_def)
    have "list_all (\<lambda>(s, e, _). is_free ?rs s e) (salts_of cs)"
      using Cons.prems Some by (auto simp: c list_all_iff overlaps_def)
    then have "salt_record seg ` set (salts_of cs) \<subseteq> set (fold (formula_step seg) cs ?rs)"
      using Cons by simp
    moreover have "salt_record seg c \<in> set (fold (formula_step seg) cs ?rs)"
      using formula.fold_keeps [of ?rs seg cs] by auto
    ultimately show ?thesis using s Some by (simp add: c)
  qed
qed simp

lemma resolve_segment_salts:
  "salt_record seg ` set (salts_of (segment_candidates seg known (known_iris run)))
     \<subseteq> set (resolve_segment run seg known)"
proof -
  let ?cs = "segment_candidates seg known (known_iris run)"
  let ?exact = "fold (exact_step seg (salt_spans ?cs)) (seeded_match (matcher run) (sg_text seg)) []"
  have "\<not> overlaps_a_salt_span (salt_spans ?cs) (mn_start r) (mn_end r)" if "r \<in> set ?exact" for r
    using exact.fold_new [of seg "salt_spans ?cs" "seeded_match (matcher run) (sg_text seg)" "[]"] that
    by (auto simp: list_all_iff exact_makes_def)
  then have "list_all (\<lambda>(s, e, _). is_free ?exact s e) (salts_of ?cs)"
    by (fastforce simp: list_all_iff is_free_set overlaps_a_salt_span_def list_ex_iff salt_spans_def overlaps_sym)
  from fold_formula_salts [OF candidates_ordered this, of seg]
  show ?thesis unfolding resolve_segment_def Let_def using fallback.fold_keeps by blast
qed

lemma resolve_segment_candidates:
  assumes "(s, e, w, salt) \<in> set (segment_candidates seg known (known_iris run))"
  shows "\<not> is_free (resolve_segment run seg known) s e"
proof -
  have "\<not> is_free (fallback_step run seg (s, e, w, salt) rs) s e" for rs
    using candidate_nonempty [OF assms] by (simp add: fallback_step_def overlaps_def)
  from fallback.fold_covers [OF assms this] show ?thesis
    by (simp add: resolve_segment_def Let_def)
qed

lemma is_free_antimono: "set rs \<subseteq> set rs' \<Longrightarrow> is_free rs' s e \<Longrightarrow> is_free rs s e"
  by (auto simp: is_free_set)

lemma resolve_segment_matches:
  assumes "m \<in> set (seeded_match (matcher run) (sg_text seg))" "m_start m < m_end m"
  shows "\<not> is_free (resolve_segment run seg known)
    (sg_char_start seg + int (m_start m)) (sg_char_start seg + int (m_end m))" (is "\<not> is_free ?result ?s ?e")
proof -
  let ?cs = "segment_candidates seg known (known_iris run)"
  let ?exact = "fold (exact_step seg (salt_spans ?cs)) (seeded_match (matcher run) (sg_text seg)) []"
  show ?thesis
  proof (cases "overlaps_a_salt_span (salt_spans ?cs) ?s ?e")
    case True
    then obtain c where "c \<in> set (salts_of ?cs)"
        "overlaps ?s ?e (mn_start (salt_record seg c)) (mn_end (salt_record seg c))"
      by (fastforce simp: overlaps_a_salt_span_def salt_spans_def list_ex_iff)
    moreover from this have "salt_record seg c \<in> set ?result"
      using resolve_segment_salts [of seg known run] by blast
    ultimately show ?thesis unfolding is_free_set by blast
  next
    case False
    then have "\<not> is_free (exact_step seg (salt_spans ?cs) m rs) ?s ?e" for rs
      using assms(2) by (simp add: exact_step_def Let_def overlaps_def)
    from exact.fold_covers [OF assms(1) this] have "\<not> is_free ?exact ?s ?e" .
    moreover have "set ?exact \<subseteq> set ?result"
      unfolding resolve_segment_def Let_def using formula.fold_keeps fallback.fold_keeps by blast
    ultimately show ?thesis using is_free_antimono by blast
  qed
qed

text \<open>C24. Precedence and completeness: every formula span that composes a loaded salt is linked to
  that salt by layer 3, whatever layer 2 matched inside it; and no span is lost, since every
  candidate span and every non-empty exact match overlaps a record of the result.\<close>

theorem link_segment_complete:
  "set (map (salt_record seg) (salts_of (candidates_of run seg kc))) \<subseteq> set (link_segment run seg kc)
   \<and> list_all (\<lambda>(s, e, _). \<not> is_free (link_segment run seg kc) s e) (candidates_of run seg kc)
   \<and> list_all (\<lambda>m. \<not> is_free (link_segment run seg kc)
        (sg_char_start seg + int (m_start m)) (sg_char_start seg + int (m_end m)))
       (filter (\<lambda>m. m_start m < m_end m) (seeded_match (matcher run) (sg_text seg)))"
  unfolding link_segment_resolve
  using resolve_segment_salts resolve_segment_candidates resolve_segment_matches
  by (auto simp: list_all_iff)

section \<open>What the records say\<close>

lemma resolve_segment_source:
  assumes "r \<in> set (resolve_segment run seg known)"
  obtains (exact) m where "m \<in> set (seeded_match (matcher run) (sg_text seg))"
      "r = make_mention seg (sg_char_start seg + int (m_start m)) (sg_char_start seg + int (m_end m))
         (m_surface m) (Some (m_target_iri m, Some (m_kind m))) LAYER_EXACT None"
  | (salt) s e w t where "(s, e, w, Some t) \<in> set (segment_candidates seg known (known_iris run))"
      "r = make_mention seg s e w (Some (t, Some (lit ''salt''))) LAYER_FORMULA None"
  | (fallback) s e w x where "(s, e, w, x) \<in> set (segment_candidates seg known (known_iris run))"
      "r = fallback_record run seg s e w"
proof -
  let ?cs = "segment_candidates seg known (known_iris run)"
  let ?ms = "seeded_match (matcher run) (sg_text seg)"
  let ?exact = "fold (exact_step seg (salt_spans ?cs)) ?ms []"
  let ?salts = "fold (formula_step seg) ?cs ?exact"
  have "(\<exists>m \<in> set ?ms. exact_makes seg (salt_spans ?cs) m r) \<or> (\<exists>c \<in> set ?cs. formula_makes seg c r)
      \<or> (\<exists>c \<in> set ?cs. fallback_makes run seg c r)"
    using assms exact.fold_source [of r seg "salt_spans ?cs" ?ms "[]"]
      formula.fold_source [of r seg ?cs ?exact] fallback.fold_source [of r run seg ?cs ?salts]
    by (simp add: resolve_segment_def Let_def) blast
  then show ?thesis
    using that by (auto simp: exact_makes_def formula_makes_def fallback_makes_def)
qed

lemma salt_target_known: "salt_target known iris w = Some t \<Longrightarrow> t \<in> iris"
  by (auto simp: salt_target_def Let_def split: option.splits if_splits)

lemma candidate_salt:
  "(s, e, w, x) \<in> set (segment_candidates seg known iris) \<Longrightarrow> x = salt_target known iris w"
  by (auto simp: segment_candidates_def)

lemma candidate_slice:
  "(s, e, w, x) \<in> set (segment_candidates seg known iris) \<Longrightarrow>
   sg_char_start seg \<le> s \<and> s < e \<and> e \<le> sg_char_start seg + int (length (sg_text seg)) \<and>
   w = take (nat (e - s)) (drop (nat (s - sg_char_start seg)) (sg_text seg))"
  by (auto simp: segment_candidates_def find_formula_candidates_def nat_diff_distrib dest!: finditer_spans)

lemma set_map_filter: "set (List.map_filter f xs) = {y. \<exists>x \<in> set xs. f x = Some y}"
  by (auto simp: List.map_filter_def) force

lemma seeded_match_source:
  "m \<in> set (seeded_match sm t) \<Longrightarrow> \<exists>en \<in> set (nlp sm t). \<exists>target kind.
     target_index sm (ent_id en) = Some (target, kind) \<and> m = \<lparr>m_start = ent_start_char en,
       m_end = ent_end_char en, m_surface = ent_text en, m_target_iri = target, m_kind = kind\<rparr>"
  by (simp add: seeded_match_def set_map_filter to_match_def split: option.splits) blast

lemma fold_target_index:
  "fold (\<lambda>en index. index(ke_target_iri en \<mapsto> (ke_target_iri en, ke_kind en))) ks index i = Some (t, k) \<Longrightarrow>
   index i = Some (t, k) \<or> (\<exists>en \<in> set ks. t = ke_target_iri en \<and> k = ke_kind en \<and> i = t)"
  by (induction ks arbitrary: index) (fastforce split: if_splits)+

lemma build_target_index_known:
  "build_target_index ks i = Some (t, k) \<Longrightarrow> \<exists>en \<in> set ks. t = ke_target_iri en \<and> k = ke_kind en \<and> i = t"
  using fold_target_index [of "sort_key ke_target_iri ks" Map.empty i t k] by (auto simp: build_target_index_def)

lemma fuzzy_link_known:
  assumes "fuzzy_link extract w (known_labels ks) threshold n = Some (t, k, score)"
    and "\<And>s ls x i. extract s ls = Some (x, i) \<Longrightarrow> i < length ls"
  shows "(\<exists>en \<in> set ks. t = ke_target_iri en \<and> k = ke_kind en) \<and> \<not> fl_lt score threshold"
proof -
  from assms(1) obtain i l where e: "extract w (map fst (known_labels ks)) = Some (score, i)"
      and l: "known_labels ks ! i = (l, t, k)" and "\<not> fl_lt score threshold"
    by (auto simp: fuzzy_link_def Let_def split: if_splits option.splits prod.splits)
  from assms(2) [OF e] have "(l, t, k) \<in> set (known_labels ks)"
    using nth_mem [of i "known_labels ks"] l by simp
  then show ?thesis using \<open>\<not> fl_lt score threshold\<close> by (auto simp: known_labels_def)
qed

definition linked_ok :: "link_run \<Rightarrow> mention_record \<Rightarrow> bool" where
  "linked_ok run r \<longleftrightarrow> mn_status r = lit ''linked'' \<and> (case mn_target_iri r of None \<Rightarrow> False | Some t \<Rightarrow>
       (if mn_layer r = LAYER_EXACT \<or> mn_layer r = LAYER_FUZZY
        then list_ex (\<lambda>en. t = ke_target_iri en \<and> mn_target_kind r = Some (ke_kind en)) (known_entities run)
        else t \<in> known_iris run \<and> (mn_layer r = LAYER_FORMULA \<and> mn_target_kind r = Some (lit ''salt'')
          \<or> mn_layer r = LAYER_FLASH)))
     \<and> (case mn_score r of None \<Rightarrow> mn_layer r \<noteq> LAYER_FUZZY
        | Some x \<Rightarrow> mn_layer r = LAYER_FUZZY \<and> \<not> fl_lt x (fuzzy_threshold (link_conf run)))"

definition novel_ok :: "mention_record \<Rightarrow> bool" where
  "novel_ok r \<longleftrightarrow> mn_status r = lit ''novel'' \<and> mn_target_iri r = None \<and> mn_target_kind r = None
     \<and> mn_layer r = LAYER_FLASH \<and> mn_score r = None"

definition sliced :: "segment \<Rightarrow> mention_record \<Rightarrow> bool" where
  "sliced seg r \<longleftrightarrow> sg_char_start seg \<le> mn_start r \<and>
     mn_surface r = take (nat (mn_end r - mn_start r)) (drop (nat (mn_start r - sg_char_start seg)) (sg_text seg))"

lemmas layer_defs = LAYER_EXACT_def LAYER_FORMULA_def LAYER_FUZZY_def LAYER_FLASH_def

lemma flash_target_known: "flash_target run seg w = Some (t, k) \<Longrightarrow> t \<in> known_iris run"
  by (auto simp: flash_target_def Let_def split: option.splits prod.splits if_splits)

lemma fallback_record_ok:
  assumes "\<And>s ls x i. extract_best run s ls = Some (x, i) \<Longrightarrow> i < length ls"
  shows "linked_ok run (fallback_record run seg s e w) \<or> novel_ok (fallback_record run seg s e w)"
proof (cases "fuzzy_link (extract_best run) w (known_labels (known_entities run))
    (fuzzy_threshold (link_conf run)) (fuzzy_min_token_length (link_conf run))")
  case None
  then show ?thesis
    by (cases "flash_target run seg w")
      (auto simp: fallback_record_def linked_ok_def novel_ok_def make_mention_def layer_defs
        dest: flash_target_known)
next
  case (Some a)
  obtain t k x where "a = (t, k, x)" by (cases a)
  then show ?thesis using fuzzy_link_known [OF _ assms] Some
    by (fastforce simp: fallback_record_def linked_ok_def make_mention_def layer_defs list_ex_iff)
qed

text \<open>C23. Every record is a link that its layer justifies or a well-formed miss. An exact or fuzzy
  link goes to an entity of the graph with that entity's kind, a composed salt or a
  disambiguated span to a known IRI, a fuzzy score is recorded exactly for layer 4 and is not
  below the threshold, a miss has no target; and the surface form is the text at the record's
  offsets. Relied on: the index is the one \<open>build_matcher\<close> makes, \<open>extractOne\<close> returns the
  index of a choice, and spaCy's entities carry the text at their offsets.\<close>

theorem link_segment_sound:
  assumes index: "target_index (matcher run) = build_target_index (known_entities run)"
    and choice: "\<And>s ls x i. extract_best run s ls = Some (x, i) \<Longrightarrow> i < length ls"
    and slices: "list_all (\<lambda>en. ent_start_char en \<le> ent_end_char en \<and> ent_text en =
      take (ent_end_char en - ent_start_char en) (drop (ent_start_char en) (sg_text seg)))
      (nlp (matcher run) (sg_text seg))"
  shows "list_all (\<lambda>r. (linked_ok run r \<or> novel_ok r) \<and> sliced seg r) (link_segment run seg kc)"
proof -
  have "(linked_ok run r \<or> novel_ok r) \<and> sliced seg r"
    if "r \<in> set (resolve_segment run seg (compounds_of run kc))" for r
    using that
  proof (cases rule: resolve_segment_source)
    case (exact m)
    then obtain en target kind where m: "en \<in> set (nlp (matcher run) (sg_text seg))"
        "build_target_index (known_entities run) (ent_id en) = Some (target, kind)"
        "m = \<lparr>m_start = ent_start_char en, m_end = ent_end_char en, m_surface = ent_text en,
          m_target_iri = target, m_kind = kind\<rparr>"
      using seeded_match_source index by metis
    have "linked_ok run r"
      using build_target_index_known [OF m(2)] exact(2) m(3)
      by (fastforce simp: linked_ok_def make_mention_def layer_defs list_ex_iff)
    moreover have "sliced seg r"
      using slices m(1,3) exact(2) by (auto simp: sliced_def make_mention_def list_all_iff nat_diff_distrib)
    ultimately show ?thesis by blast
  next
    case (salt s e w t)
    have "t \<in> known_iris run" using candidate_salt [OF salt(1)] salt_target_known by metis
    then show ?thesis using salt(2) candidate_slice [OF salt(1)]
      by (auto simp: linked_ok_def sliced_def make_mention_def layer_defs)
  next
    case (fallback s e w x)
    have "sliced seg (fallback_record run seg s e w)"
      using candidate_slice [OF fallback(1)]
      by (auto simp: sliced_def fallback_record_def make_mention_def split: option.splits)
    then show ?thesis using fallback(2) fallback_record_ok [of run seg s e w] choice by blast
  qed
  then show ?thesis by (simp add: link_segment_resolve list_all_iff)
qed

definition sample_run :: link_run where
  "sample_run = (let flibe = \<lparr>ke_target_iri = lit ''voc:flibe'', ke_labels = [lit ''FLiBe''], ke_kind = lit ''concept''\<rparr>
     in \<lparr>matcher = \<lparr>target_index = build_target_index [flibe], nlp = (\<lambda>t. if take 5 t = lit ''FLiBe''
            then [\<lparr>ent_start_char = 0, ent_end_char = 5, ent_text = lit ''FLiBe'', ent_id = lit ''voc:flibe''\<rparr>]
            else [])\<rparr>,
         known_entities = [flibe], known_iris = {lit ''voc:flibe''},
         link_conf = \<lparr>fuzzy_threshold = Fin 90, fuzzy_min_token_length = 3\<rparr>,
         extract_best = (\<lambda>w ls. if ls = [] then None else Some (Fin 95, 0)),
         disambiguator = Some (\<lambda>w t. (lit ''linked'', Some (lit ''voc:flibe'')))\<rparr>)"

definition sample_segment :: segment where
  "sample_segment = \<lparr>sg_report = lit ''ORNL-1'', sg_index = 0, sg_text = lit ''FLiBe or KF-ZrF4'', sg_char_start = 40\<rparr>"

lemma link_segment_sound_witness:
  "nlp (matcher sample_run) (sg_text sample_segment) \<noteq> [] \<and>
   list_all (\<lambda>r. (linked_ok sample_run r \<or> novel_ok r) \<and> sliced sample_segment r)
     (link_segment sample_run sample_segment None)"
proof -
  have n: "nlp (matcher sample_run) (sg_text sample_segment) =
      [\<lparr>ent_start_char = 0, ent_end_char = 5, ent_text = lit ''FLiBe'', ent_id = lit ''voc:flibe''\<rparr>]"
    by (simp add: sample_run_def sample_segment_def lit_def Let_def)
  have index: "target_index (matcher sample_run) = build_target_index (known_entities sample_run)"
    by (simp add: sample_run_def Let_def)
  have choice: "extract_best sample_run w ls = Some (x, i) \<Longrightarrow> i < length ls" for w ls x i
    by (auto simp: sample_run_def Let_def split: if_splits)
  have "list_all (\<lambda>en. ent_start_char en \<le> ent_end_char en \<and> ent_text en =
      take (ent_end_char en - ent_start_char en) (drop (ent_start_char en) (sg_text sample_segment)))
      (nlp (matcher sample_run) (sg_text sample_segment))"
    unfolding n by (simp add: sample_segment_def lit_def)
  with index choice have "list_all (\<lambda>r. (linked_ok sample_run r \<or> novel_ok r) \<and> sliced sample_segment r)
      (link_segment sample_run sample_segment None)"
    by (rule link_segment_sound)
  then show ?thesis using n by simp
qed

end
