(* ===== verification/Mentions.thy ===== *)
theory Mentions
  imports Measurements Decimal_Facts "HOL-Library.Product_Lexorder"
begin

text \<open>
  \<open>mentions.py\<close>: the IRI and the Turtle block of a linked mention, and the writer that sends
  the mentions in batches, all data updates before the first provenance update.
\<close>

section \<open>Text\<close>

record mention =
  me_report :: pystr
  me_start :: int
  me_end :: int
  me_surface_form :: pystr
  me_target_iri :: pystr
  me_document_iri :: pystr

definition MENTION_PREFIXES :: pystr where
  "MENTION_PREFIXES = join nl
     [lit ''PREFIX msr: <https://w3id.org/msr-kg/ontology#>'',
      lit ''PREFIX msrd: <https://w3id.org/msr-kg/data#>'',
      lit ''PREFIX prov: <http://www.w3.org/ns/prov#>'',
      lit ''PREFIX xsd: <http://www.w3.org/2001/XMLSchema#>'']"

definition mention_iri :: "pystr \<Rightarrow> int \<Rightarrow> int \<Rightarrow> pystr" where
  "mention_iri rep s e = lit ''msrd:mention-'' @ rep @ lit ''-'' @ show_int s @ lit ''-'' @ show_int e"

definition mention_lines :: "mention \<Rightarrow> pystr list" where
  \<open>mention_lines m =
     [mention_iri (me_report m) (me_start m) (me_end m) @ lit '' a msr:Mention ;'',
      lit ''    msr:linksTo <'' @ me_target_iri m @ lit ''> ;'',
      lit ''    msr:inDocument <'' @ me_document_iri m @ lit ''> ;'',
      lit ''    msr:surfaceForm "'' @ escape_literal (me_surface_form m) @ lit ''"^^xsd:string ;'',
      lit ''    msr:startOffset "'' @ show_int (me_start m) @ lit ''"^^xsd:integer ;'',
      lit ''    msr:endOffset "'' @ show_int (me_end m) @ lit ''"^^xsd:integer ;'',
      lit ''    prov:wasGeneratedBy '' @ ACTIVITY_IRI @ lit '' ;'',
      lit ''    prov:wasDerivedFrom <'' @ me_document_iri m @ lit ''> .'']\<close>

definition mention_triples :: "mention \<Rightarrow> pystr" where
  "mention_triples m = join nl (mention_lines m)"

definition mentions_insert_data :: "pystr \<Rightarrow> pystr" where
  "mentions_insert_data triples_block =
     insert_data_in MENTION_PREFIXES (lit ''urn:msr:data'') (indent_block triples_block)"

definition mention_key :: "mention \<Rightarrow> pystr \<times> int \<times> int" where
  "mention_key m = (me_report m, me_start m, me_end m)"

definition mentions_provenance_insert_data :: "mention list \<Rightarrow> pystr \<Rightarrow> pystr" where
  "mentions_provenance_insert_data mentions run_ts =
     insert_data_in PROVENANCE_PREFIXES (lit ''urn:msr:provenance'')
       (generation_lines (map (\<lambda>m. mention_iri (me_report m) (me_start m) (me_end m))
         (sort_key mention_key mentions)) run_ts)"

section \<open>The writer\<close>

text \<open>\<open>[ordered[i : i + n] for i in range(0, len(ordered), n)]\<close>.\<close>

function batches :: "nat \<Rightarrow> 'a list \<Rightarrow> 'a list list" where
  "batches n xs = (if n = 0 \<or> xs = [] then [] else take n xs # batches n (drop n xs))"
  by pat_completeness auto
termination by (relation "measure (length \<circ> snd)") auto

declare batches.simps [simp del]

definition batch_data_update :: "mention list \<Rightarrow> pystr" where
  "batch_data_update batch = mentions_insert_data (join (nl @ nl) (map mention_triples batch))"

definition write_mentions ::
    "endpoint \<Rightarrow> mention list \<Rightarrow> pystr \<Rightarrow> int \<Rightarrow> pystr list \<Rightarrow> pystr list \<times> unit result" where
  "write_mentions post mentions run_ts batch_size accepted =
     (if batch_size < 1 then (accepted, Inl ValueError)
      else if mentions = [] then (accepted, Inr ())
      else (let bs = batches (nat batch_size) (sort_key mention_key mentions)
            in case send_all post (map batch_data_update bs) accepted of
                 (accepted, Inl e) \<Rightarrow> (accepted, Inl e)
               | (accepted, Inr _) \<Rightarrow>
                   send_all post (map (\<lambda>b. mentions_provenance_insert_data b run_ts) bs) accepted))"

section \<open>Properties\<close>

lemma batches_spec:
  assumes "0 < n"
  shows "concat (batches n xs) = xs \<and> list_all (\<lambda>b. b \<noteq> [] \<and> length b \<le> n) (batches n xs)"
  using assms
proof (induction n xs rule: batches.induct)
  case (1 n xs)
  then show ?case by (subst (1 2) batches.simps) simp
qed

text \<open>C40. The writer sends the sorted mentions, cut into non-empty batches of at most the batch size,
  one data update per batch and then one provenance update per batch; what the store has
  accepted is a prefix of that sequence, all of it exactly when the call returns; and with
  distinct report and offsets the order of the mentions does not matter.\<close>

theorem write_mentions_batches:
  assumes "1 \<le> batch_size" "mset mentions = mset mentions'" "distinct (map mention_key mentions)"
  shows "write_mentions post mentions ts batch_size acc = write_mentions post mentions' ts batch_size acc
    \<and> (\<exists>bs k. concat bs = sort_key mention_key mentions
        \<and> list_all (\<lambda>b. b \<noteq> [] \<and> int (length b) \<le> batch_size) bs \<and> k \<le> 2 * length bs
        \<and> fst (write_mentions post mentions ts batch_size acc) = acc @ take k
            (map batch_data_update bs @ map (\<lambda>b. mentions_provenance_insert_data b ts) bs)
        \<and> (snd (write_mentions post mentions ts batch_size acc) = Inr () \<longleftrightarrow> k = 2 * length bs))"
proof
  have "mentions = [] \<longleftrightarrow> mentions' = []" using assms(2) by (metis mset_zero_iff)
  then show "write_mentions post mentions ts batch_size acc = write_mentions post mentions' ts batch_size acc"
    using sort_key_perm [OF assms(2,3)] by (simp add: write_mentions_def)
next
  let ?bs = "batches (nat batch_size) (sort_key mention_key mentions)"
  let ?us = "map batch_data_update ?bs @ map (\<lambda>b. mentions_provenance_insert_data b ts) ?bs"
  have "write_mentions post mentions ts batch_size acc = send_all post ?us acc"
    using assms(1) by (cases "mentions = []")
      (simp_all add: write_mentions_def send_all_append Let_def batches.simps [of _ "[]"])
  moreover obtain k where "k \<le> length ?us" "fst (send_all post ?us acc) = acc @ take k ?us"
      "snd (send_all post ?us acc) = Inr () \<longleftrightarrow> k = length ?us"
    using send_all_prefix by blast
  moreover have "concat ?bs = sort_key mention_key mentions"
      "list_all (\<lambda>b. b \<noteq> [] \<and> int (length b) \<le> batch_size) ?bs"
    using batches_spec [of "nat batch_size" "sort_key mention_key mentions"] assms(1)
    by (auto simp: list_all_iff le_nat_iff)
  ultimately show "\<exists>bs k. concat bs = sort_key mention_key mentions
        \<and> list_all (\<lambda>b. b \<noteq> [] \<and> int (length b) \<le> batch_size) bs \<and> k \<le> 2 * length bs
        \<and> fst (write_mentions post mentions ts batch_size acc) = acc @ take k
            (map batch_data_update bs @ map (\<lambda>b. mentions_provenance_insert_data b ts) bs)
        \<and> (snd (write_mentions post mentions ts batch_size acc) = Inr () \<longleftrightarrow> k = 2 * length bs)"
    by (intro exI [of _ ?bs] exI [of _ k]) (simp add: mult_2)
qed

definition sample_mention :: "int \<Rightarrow> mention" where
  "sample_mention i = \<lparr>me_report = lit ''ORNL-1'', me_start = i, me_end = i + 5,
     me_surface_form = lit ''FLiBe'', me_target_iri = lit ''https://w3id.org/msr-kg/vocab#flibe'',
     me_document_iri = lit ''https://w3id.org/msr-kg/data#ORNL-1''\<rparr>"

lemma write_mentions_batches_witness:
  "\<forall>post ts acc. write_mentions post [sample_mention 40, sample_mention 7] ts 1 acc
     = write_mentions post [sample_mention 7, sample_mention 40] ts 1 acc"
proof -
  have "distinct (map mention_key [sample_mention 40, sample_mention 7])"
    by (simp add: sample_mention_def mention_key_def)
  then show ?thesis
    using write_mentions_batches [of 1 "[sample_mention 40, sample_mention 7]" "[sample_mention 7, sample_mention 40]"]
    by simp
qed

lemma show_nat_no_hyphen: "45 \<notin> set (show_nat n)"
  using set_show_nat [of n] by auto

lemma show_nat_inject: "show_nat m = show_nat n \<longleftrightarrow> m = n"
  by (metis dec_value_show_nat)

text \<open>Mention IRIs do not collide: with offsets that are not negative, report, start and end can
  be read back from the IRI even though report numbers contain hyphens and digits themselves.\<close>

theorem mention_iri_injective:
  assumes "0 \<le> s" "0 \<le> e" "0 \<le> s'" "0 \<le> e'" and eq: "mention_iri r s e = mention_iri r' s' e'"
  shows "r = r' \<and> s = s' \<and> e = e'"
proof -
  let ?rest = "\<lambda>r. rev (lit ''msrd:mention-'' @ r)"
  have "rev (show_nat (nat e)) @ 45 # (rev (show_nat (nat s)) @ 45 # ?rest r)
      = rev (show_nat (nat e')) @ 45 # (rev (show_nat (nat s')) @ 45 # ?rest r')"
    using arg_cong [OF eq, of rev] assms(1-4) by (simp add: mention_iri_def show_int_def lit_Cons)
  note this = append_sep_inj [OF _ _ this]
  then have "rev (show_nat (nat e)) = rev (show_nat (nat e'))"
      "rev (show_nat (nat s)) @ 45 # ?rest r = rev (show_nat (nat s')) @ 45 # ?rest r'"
    by (simp_all add: show_nat_no_hyphen)
  moreover from append_sep_inj [OF _ _ this(2)]
  have "rev (show_nat (nat s)) = rev (show_nat (nat s'))" "?rest r = ?rest r'"
    by (simp_all add: show_nat_no_hyphen)
  ultimately show ?thesis
    using assms(1-4) by (simp add: show_nat_inject eq_nat_nat_iff)
qed

lemma mention_iri_injective_witness:
  "mention_iri (lit ''ORNL-4-3'') 12 30 \<noteq> mention_iri (lit ''ORNL-4'') 3 1230"
  using mention_iri_injective [of 12 30 3 1230 "lit ''ORNL-4-3''" "lit ''ORNL-4''"] by auto

end
