(* ===== verification/Disambiguation.thy ===== *)
theory Disambiguation
  imports PyJson
begin

text \<open>
  \<open>disambiguation.py\<close> and \<open>disambig_cache.py\<close>: reading the model's reply about one span, and
  the outcomes kept between runs in a file tagged with a hash of the known IRIs. The client,
  \<open>json\<close> and SHA-256 are arguments (\<open>None\<close>: an exception); \<open>contents\<close> is the file's text,
  \<open>None\<close> when it cannot be read.
\<close>

section \<open>One call\<close>

type_synonym outcome = "pystr \<times> pystr option"

fun truthy :: "json \<Rightarrow> bool" where
  "truthy JNull = False"
| "truthy (JBool b) = b"
| "truthy (JInt i) = (i \<noteq> 0)"
| "truthy (JFloat f) = (f \<noteq> Fin 0 \<and> f \<noteq> NegZero)"
| "truthy (JStr s) = (s \<noteq> [])"
| "truthy (JArr xs) = (xs \<noteq> [])"
| "truthy (JObj kvs) = (kvs \<noteq> [])"

definition disambiguation_prompt :: "pystr \<Rightarrow> pystr \<Rightarrow> pystr" where
  \<open>disambiguation_prompt surface sentence = concat
     [lit ''Disambiguate the following entity mention against the knowledge '',
      lit ''graph schema and known entities above.'', nl, nl,
      lit ''Sentence: "'', sentence, lit ''"'', nl,
      lit ''Mention: "'', surface, lit ''"'', nl, nl,
      lit ''Respond with a single JSON object '', [8212], lit '' either:'', nl,
      lit ''  {"link": "<existing IRI from the schema above>"}'', nl,
      lit ''or, if the mention does not match any existing entity:'', nl,
      lit ''  {"novel": true}'', nl, nl,
      lit ''Return only the json object, no other text.'']\<close>

definition novel :: outcome where "novel = (lit ''novel'', None)"

definition disambiguate :: "(pystr \<Rightarrow> json option) \<Rightarrow> (pystr \<Rightarrow> pystr \<Rightarrow> pystr option) \<Rightarrow>
    pystr \<Rightarrow> pystr \<Rightarrow> pystr \<Rightarrow> pystr set \<Rightarrow> outcome" where
  "disambiguate loads ask surface sentence prompt_prefix known_iris =
     (case ask prompt_prefix (disambiguation_prompt surface sentence) of
        None \<Rightarrow> novel
      | Some raw \<Rightarrow>
          (case loads raw of
             Some (JObj parsed) \<Rightarrow>
               if truthy (get_field parsed ''novel'') then novel
               else (case get_field parsed ''link'' of
                   JStr link \<Rightarrow> if link \<in> known_iris then (lit ''linked'', Some link) else novel
                 | _ \<Rightarrow> novel)
           | _ \<Rightarrow> novel))"

lemma disambiguate_cases:
  "disambiguate loads ask w t p known = novel
   \<or> (\<exists>link raw d. disambiguate loads ask w t p known = (lit ''linked'', Some link) \<and> link \<in> known
        \<and> ask p (disambiguation_prompt w t) = Some raw \<and> loads raw = Some (JObj d)
        \<and> get_field d ''link'' = JStr link \<and> \<not> truthy (get_field d ''novel''))"
  by (simp add: disambiguate_def split: option.split json.split)

section \<open>The cache file\<close>

definition known_iris_hash :: "(pystr \<Rightarrow> pystr) \<Rightarrow> pystr set \<Rightarrow> pystr" where
  "known_iris_hash sha256 known_iris = sha256 (join nl (sorted_list_of_set known_iris))"

definition valid_outcome :: "json \<Rightarrow> outcome option" where
  "valid_outcome rec = (case rec of
       JObj d \<Rightarrow>
         (case (get_field d ''status'', get_field d ''target_iri'') of
            (JStr status, target) \<Rightarrow>
              if status \<noteq> lit ''linked'' \<and> status \<noteq> lit ''novel'' then None
              else (case target of
                  JNull \<Rightarrow> Some (status, None)
                | JStr t \<Rightarrow> Some (status, Some t)
                | _ \<Rightarrow> None)
          | _ \<Rightarrow> None)
     | _ \<Rightarrow> None)"

definition load_cache :: "(pystr \<Rightarrow> json option) \<Rightarrow> pystr option \<Rightarrow> pystr \<Rightarrow> (pystr \<times> outcome) list" where
  "load_cache loads contents expected_hash =
     (case contents of
        None \<Rightarrow> []
      | Some raw \<Rightarrow>
          (case loads raw of
             Some (JObj doc) \<Rightarrow>
               if get_field doc ''known_iris_hash'' \<noteq> JStr expected_hash then []
               else (case get_field doc ''entries'' of
                   JObj entries \<Rightarrow> List.map_filter
                     (\<lambda>(surface, rec). map_option (Pair surface) (valid_outcome rec)) entries
                 | _ \<Rightarrow> [])
           | _ \<Rightarrow> []))"

definition outcome_json :: "outcome \<Rightarrow> json" where
  "outcome_json out = (case out of (status, target) \<Rightarrow>
     JObj [(lit ''status'', JStr status),
           (lit ''target_iri'', case target of None \<Rightarrow> JNull | Some t \<Rightarrow> JStr t)])"

text \<open>The document \<open>save_cache\<close> dumps; a dictionary is a list without repeated keys.\<close>

definition cache_doc :: "pystr \<Rightarrow> (pystr \<times> outcome) list \<Rightarrow> json" where
  "cache_doc iris_hash entries = JObj
     [(lit ''known_iris_hash'', JStr iris_hash),
      (lit ''entries'', JObj (map (\<lambda>(surface, out). (surface, outcome_json out)) (sort_key fst entries)))]"

definition save_cache :: "(json \<Rightarrow> pystr) \<Rightarrow> pystr \<Rightarrow> (pystr \<times> outcome) list \<Rightarrow> pystr" where
  "save_cache dumps iris_hash entries = dumps (cache_doc iris_hash entries)"

section \<open>Resolving through the cache\<close>

text \<open>The disambiguator of \<open>_cmd_link\<close>: the first outcome for a surface answers all later calls.\<close>

definition cached_disambiguator ::
    "(pystr \<Rightarrow> pystr \<Rightarrow> outcome) \<Rightarrow> pystr \<Rightarrow> pystr \<Rightarrow> (pystr \<times> outcome) list \<Rightarrow> (pystr \<times> outcome) list \<times> outcome" where
  "cached_disambiguator ask surface sentence cache = (case map_of cache surface of
       Some out \<Rightarrow> (cache, out)
     | None \<Rightarrow> (let out = ask surface sentence in (cache @ [(surface, out)], out)))"

fun resolve_all :: "(pystr \<Rightarrow> pystr \<Rightarrow> outcome) \<Rightarrow> (pystr \<times> pystr) list \<Rightarrow> (pystr \<times> outcome) list \<Rightarrow>
    (pystr \<times> outcome) list \<times> outcome list" where
  "resolve_all ask [] cache = (cache, [])"
| "resolve_all ask ((surface, sentence) # spans) cache =
     (case cached_disambiguator ask surface sentence cache of (cache', out) \<Rightarrow>
        (case resolve_all ask spans cache' of (cache'', outs) \<Rightarrow> (cache'', out # outs)))"

section \<open>Properties\<close>

definition ok_outcome :: "outcome \<Rightarrow> bool" where
  "ok_outcome out \<longleftrightarrow> fst out = lit ''linked'' \<or> fst out = lit ''novel''"

lemma valid_outcome_json: "ok_outcome out \<Longrightarrow> valid_outcome (outcome_json out) = Some out"
  by (cases out) (auto simp: ok_outcome_def valid_outcome_def outcome_json_def get_field_def split: option.splits)

lemma load_entries:
  "list_all (\<lambda>x. ok_outcome (snd x)) es \<Longrightarrow>
   List.map_filter (\<lambda>(s, rec). map_option (Pair s) (valid_outcome rec))
     (map (\<lambda>(s, out). (s, outcome_json out)) es) = es"
  by (induction es) (auto simp: List.map_filter_simps valid_outcome_json)

lemma cache_round_trip:
  assumes "distinct (map fst entries)" "list_all (\<lambda>x. ok_outcome (snd x)) entries"
    and "loads (save_cache dumps h entries) = Some (cache_doc h entries)"
  shows "map_of (load_cache loads (Some (save_cache dumps h entries)) h) = map_of entries"
proof -
  have "list_all (\<lambda>x. ok_outcome (snd x)) (sort_key fst entries)"
    using assms(2) by (simp add: list_all_iff)
  from load_entries [OF this]
  have load: "load_cache loads (Some (save_cache dumps h entries)) h = sort_key fst entries"
    using assms(3) by (simp add: load_cache_def cache_doc_def get_field_def lit_def)
  have "map_of (sort_key fst entries) = map_of entries"
    using assms(1) by (subst map_of_inject_set) (simp_all add: distinct_map)
  then show ?thesis using load by auto
qed

lemma cache_other_hash:
  "loads (save_cache dumps h entries) = Some (cache_doc h entries) \<Longrightarrow> h' \<noteq> h \<Longrightarrow>
   load_cache loads (Some (save_cache dumps h entries)) h' = []"
  by (simp add: load_cache_def cache_doc_def get_field_def lit_def)

text \<open>A run: the cache only grows, its keys stay distinct, and every answer is the cache's.\<close>

lemma resolve_all_cache:
  assumes "resolve_all ask spans c = (c', outs)" "distinct (map fst c)" "list_all (\<lambda>x. P (snd x)) c"
    and "\<And>w t. P (ask w t)"
  shows "distinct (map fst c') \<and> list_all (\<lambda>x. P (snd x)) c' \<and> map_of c \<subseteq>\<^sub>m map_of c'
    \<and> map Some outs = map (\<lambda>(w, t). map_of c' w) spans"
  using assms(1-3)
proof (induction spans arbitrary: c outs)
  case (Cons span spans)
  obtain w t where span: "span = (w, t)" by (cases span)
  obtain c1 out where c1: "cached_disambiguator ask w t c = (c1, out)"
    by (cases "cached_disambiguator ask w t c") blast
  obtain outs' where outs: "resolve_all ask spans c1 = (c', outs')" "outs = out # outs'"
    using Cons.prems(1) span c1 by (auto split: prod.splits)
  have step: "distinct (map fst c1) \<and> list_all (\<lambda>x. P (snd x)) c1 \<and> map_of c \<subseteq>\<^sub>m map_of c1 \<and> map_of c1 w = Some out"
    using c1 Cons.prems(2,3) assms(4)
    by (auto simp: cached_disambiguator_def Let_def map_of_eq_None_iff map_le_def map_add_def
        split: option.splits dest: map_of_SomeD, force)
  then have "distinct (map fst c') \<and> list_all (\<lambda>x. P (snd x)) c' \<and> map_of c1 \<subseteq>\<^sub>m map_of c'
      \<and> map Some outs' = map (\<lambda>(w, t). map_of c' w) spans"
    using Cons.IH [OF outs(1)] by blast
  moreover from this have "map_of c' w = Some out"
    using step by (metis domI map_le_def)
  ultimately show ?case using step outs(2) span by (auto intro: map_le_trans)
qed simp

lemma resolve_all_cached:
  "map Some outs = map (\<lambda>(w, t). map_of c w) spans \<Longrightarrow> resolve_all ask spans c = (c, outs)"
  by (induction spans arbitrary: outs) (auto simp: cached_disambiguator_def split: option.splits)

definition sound_outcome :: "pystr set \<Rightarrow> outcome \<Rightarrow> bool" where
  "sound_outcome known out \<longleftrightarrow> out = novel \<or> fst out = lit ''linked'' \<and> snd out \<in> Some ` known"

text \<open>C26. Outcomes persist between runs: a run answers every span with a miss or a link to a known
  IRI, whatever the model replies; a later run with the same known IRIs, seeded from the file
  the first one saved, gives every span the same answer whatever its model would say, asking it
  nothing; and under another hash the file is ignored, so no outcome outlives the set of linkable
  entities. Relied on: \<open>json.loads\<close> reads back the document \<open>json.dumps\<close> wrote.\<close>

theorem disambiguation_cache_reuse:
  assumes "resolve_all (\<lambda>w t. disambiguate loads ask w t p known) spans [] = (cache, outs)"
    and "loads (save_cache dumps h cache) = Some (cache_doc h cache)" and "h' \<noteq> h"
  shows "list_all (sound_outcome known) outs
    \<and> snd (resolve_all ask' spans (load_cache loads (Some (save_cache dumps h cache)) h)) = outs
    \<and> load_cache loads (Some (save_cache dumps h cache)) h' = []"
proof -
  have "sound_outcome known (disambiguate loads ask w t p known)" for w t
    using disambiguate_cases [of loads ask w t p known] by (auto simp: sound_outcome_def)
  note run = resolve_all_cache [OF assms(1), of "sound_outcome known", OF _ _ this]
  have ok: "list_all (\<lambda>x. ok_outcome (snd x)) cache"
    using run by (auto simp: list_all_iff sound_outcome_def ok_outcome_def novel_def)
  have outs: "map Some outs = map (\<lambda>(w, t). map_of cache w) spans" using run by simp
  have "sound_outcome known out" if "out \<in> set outs" for out
  proof -
    have "Some out \<in> (\<lambda>(w, t). map_of cache w) ` set spans"
      using arg_cong [OF outs, of set] that by auto
    then obtain w where "(w, out) \<in> set cache" by (auto dest: map_of_SomeD [OF sym])
    then show ?thesis using run by (auto simp: list_all_iff)
  qed
  moreover have "map_of (load_cache loads (Some (save_cache dumps h cache)) h) = map_of cache"
    using run ok assms(2) by (intro cache_round_trip) simp_all
  ultimately show ?thesis
    using resolve_all_cached [of outs "load_cache loads (Some (save_cache dumps h cache)) h" spans ask'] outs
      cache_other_hash [of loads dumps h cache h'] assms(2,3)
    by (simp add: list_all_iff)
qed

definition sample_cache :: "(pystr \<times> outcome) list" where
  "sample_cache = [(lit ''flibe'', lit ''linked'', Some (lit ''voc:flibe'')), (lit ''INOR-8'', novel)]"

definition sample_ask :: "pystr \<Rightarrow> pystr \<Rightarrow> pystr option" where
  "sample_ask p q = (if has_sub (lit ''INOR'') q then None else Some (lit ''{}''))"

definition cache_loads :: "pystr \<Rightarrow> json option" where
  "cache_loads raw = (if raw = lit ''{}'' then Some (JObj [(lit ''link'', JStr (lit ''voc:flibe''))])
     else Some (cache_doc (lit ''h'') sample_cache))"

lemma disambiguation_cache_reuse_witness:
  "\<forall>ask. snd (resolve_all ask [(lit ''flibe'', lit ''a''), (lit ''INOR-8'', lit ''b''), (lit ''flibe'', lit ''c'')]
     (load_cache cache_loads (Some (save_cache (\<lambda>_. lit ''dumped'') (lit ''h'') sample_cache)) (lit ''h'')))
   = [(lit ''linked'', Some (lit ''voc:flibe'')), novel, (lit ''linked'', Some (lit ''voc:flibe''))]"
proof
  fix ask
  let ?spans = "[(lit ''flibe'', lit ''a''), (lit ''INOR-8'', lit ''b''), (lit ''flibe'', lit ''c'')]"
  let ?d = "\<lambda>w t. disambiguate cache_loads sample_ask w t [] {lit ''voc:flibe''}"
  have flibe: "?d (lit ''flibe'') (lit ''a'') = (lit ''linked'', Some (lit ''voc:flibe''))"
    by (simp add: disambiguate_def sample_ask_def cache_loads_def disambiguation_prompt_def nl_def
        get_field_def starts_with_def lit_def)
  have inor: "?d (lit ''INOR-8'') (lit ''b'') = novel"
    by (simp add: disambiguate_def sample_ask_def disambiguation_prompt_def nl_def starts_with_def lit_def)
  have run: "resolve_all ?d ?spans [] = (sample_cache,
      [(lit ''linked'', Some (lit ''voc:flibe'')), novel, (lit ''linked'', Some (lit ''voc:flibe''))])"
    by (simp add: cached_disambiguator_def flibe inor sample_cache_def Let_def)
  have "cache_loads (save_cache (\<lambda>_. lit ''dumped'') (lit ''h'') sample_cache) = Some (cache_doc (lit ''h'') sample_cache)"
    by (simp add: cache_loads_def save_cache_def)
  from disambiguation_cache_reuse [OF run this, of "lit ''i''" ask]
  show "snd (resolve_all ask ?spans
     (load_cache cache_loads (Some (save_cache (\<lambda>_. lit ''dumped'') (lit ''h'') sample_cache)) (lit ''h'')))
   = [(lit ''linked'', Some (lit ''voc:flibe'')), novel, (lit ''linked'', Some (lit ''voc:flibe''))]"
    by simp
qed

end
