(* ===== verification/Graph_Reader.thy ===== *)
theory Graph_Reader
  imports Kg_Prompt
begin

text \<open>
  \<open>graph_reader.py\<close>: the queries, the dataset each is restricted to, and the readers. The function that
  runs a query (\<open>select_fn\<close>) is an argument: it answers with rows or raises. A row maps each bound
  variable to its \<open>value\<close>, which the SPARQL results format always gives with it; reading a variable
  a row does not bind is a \<open>KeyError\<close>.
\<close>

section \<open>Queries\<close>

definition CORE_GRAPHS :: "pystr list" where
  "CORE_GRAPHS = [lit ''urn:msr:ontology'', lit ''urn:msr:data'', lit ''urn:msr:vocab'']"

definition STAGING_GRAPH :: pystr where "STAGING_GRAPH = lit ''urn:msr:staging''"

definition query_text :: "string list \<Rightarrow> pystr" where
  "query_text ls = concat (map (\<lambda>l. lit l @ nl) ls)"

definition SKOS_CONCEPTS_QUERY :: pystr where
  "SKOS_CONCEPTS_QUERY = query_text
     [''PREFIX skos: <http://www.w3.org/2004/02/skos/core#>'',
      ''SELECT ?c ?label WHERE {'',
      ''    ?c a skos:Concept .'',
      ''    { ?c skos:prefLabel ?label } UNION { ?c skos:altLabel ?label }'',
      ''}'']"

definition ONTOLOGY_CLASSES_QUERY :: pystr where
  "ONTOLOGY_CLASSES_QUERY = query_text
     [''PREFIX owl: <http://www.w3.org/2002/07/owl#>'',
      ''PREFIX rdfs: <http://www.w3.org/2000/01/rdf-schema#>'',
      ''SELECT ?c ?label WHERE {'',
      ''    ?c a owl:Class ; rdfs:label ?label .'',
      ''}'']"

text \<open>The three queries for labelled individuals of a class of the ontology.\<close>

definition PHYSICAL_PROPERTIES_QUERY :: pystr where
  "PHYSICAL_PROPERTIES_QUERY = query_text
     [''PREFIX msr: <https://w3id.org/msr-kg/ontology#>'',
      ''PREFIX rdfs: <http://www.w3.org/2000/01/rdf-schema#>'',
      ''SELECT ?c ?label WHERE {'',
      ''    ?c a msr:PhysicalProperty ; rdfs:label ?label .'',
      ''}'']"

definition MOLTEN_SALTS_QUERY :: pystr where
  "MOLTEN_SALTS_QUERY = query_text
     [''PREFIX msr: <https://w3id.org/msr-kg/ontology#>'',
      ''PREFIX rdfs: <http://www.w3.org/2000/01/rdf-schema#>'',
      ''SELECT ?c ?label WHERE {'',
      ''    ?c a msr:MoltenSalt ; rdfs:label ?label .'',
      ''}'']"

definition SALT_ROLES_QUERY :: pystr where
  "SALT_ROLES_QUERY = query_text
     [''PREFIX msr: <https://w3id.org/msr-kg/ontology#>'',
      ''PREFIX rdfs: <http://www.w3.org/2000/01/rdf-schema#>'',
      ''SELECT ?c ?label WHERE {'',
      ''    ?c a msr:SaltRole ; rdfs:label ?label .'',
      ''}'']"

definition REACTOR_CONCEPTS_QUERY :: pystr where
  "REACTOR_CONCEPTS_QUERY = query_text
     [''PREFIX skos: <http://www.w3.org/2004/02/skos/core#>'',
      ''SELECT ?c WHERE { ?c skos:broader* <https://w3id.org/msr-kg/vocab#molten-salt-reactors> . }'']"

definition VERSION_QUERY :: pystr where
  "VERSION_QUERY = query_text
     [''PREFIX owl: <http://www.w3.org/2002/07/owl#>'',
      ''SELECT ?version WHERE {'',
      ''    <https://w3id.org/msr-kg/ontology> owl:versionInfo ?version .'',
      ''}'']"

definition SAFETY_FUNCTIONS_QUERY :: pystr where
  "SAFETY_FUNCTIONS_QUERY = query_text
     [''PREFIX msr: <https://w3id.org/msr-kg/ontology#>'',
      ''SELECT ?c WHERE {'',
      ''    ?c a msr:SafetyFunction .'',
      ''}'']"

definition REQUIREMENTS_QUERY :: pystr where
  "REQUIREMENTS_QUERY = query_text
     [''PREFIX msr: <https://w3id.org/msr-kg/ontology#>'',
      ''SELECT ?c WHERE {'',
      ''    ?c a msr:Requirement .'',
      ''}'']"

definition CHANGE_PROPOSALS_QUERY :: pystr where
  "CHANGE_PROPOSALS_QUERY = query_text
     [''PREFIX msr: <https://w3id.org/msr-kg/ontology#>'',
      ''SELECT ?proposal ?kind ?term WHERE {'',
      ''    ?proposal a msr:ChangeProposal ;'',
      ''        msr:kind ?kind ;'',
      ''        msr:term ?term .'',
      ''}'']"

definition DOC_FREQUENCY_COUNT_QUERY :: pystr where
  "DOC_FREQUENCY_COUNT_QUERY = query_text
     [''PREFIX msr: <https://w3id.org/msr-kg/ontology#>'',
      ''SELECT (COUNT(*) AS ?n) WHERE {'',
      ''    ?proposal msr:docFrequency ?v .'',
      ''}'']"

definition build_query_params :: "pystr \<Rightarrow> (pystr \<times> pystr) list" where
  "build_query_params query = (lit ''query'', query) # map (Pair (lit ''default-graph-uri'')) CORE_GRAPHS"

definition build_staging_query_params :: "pystr \<Rightarrow> (pystr \<times> pystr) list" where
  "build_staging_query_params query = [(lit ''query'', query), (lit ''default-graph-uri'', STAGING_GRAPH)]"

section \<open>Readers\<close>

type_synonym binding = "pystr \<rightharpoonup> pystr"
type_synonym select_fn = "pystr \<Rightarrow> binding list result"

definition bound_value :: "pystr \<Rightarrow> binding \<Rightarrow> pystr result" where
  "bound_value var b = (case b var of None \<Rightarrow> Inl KeyError | Some v \<Rightarrow> Inr v)"

definition read_version :: "select_fn \<Rightarrow> pystr option result" where
  "read_version select = bind_result (select VERSION_QUERY) (\<lambda>bindings. case bindings of
       [] \<Rightarrow> Inr None
     | b # _ \<Rightarrow> bind_result (bound_value (lit ''version'') b) (\<lambda>v. Inr (Some v)))"

text \<open>The dictionary \<open>merged\<close>, in insertion order, and \<open>_merge\<close> on it.\<close>

type_synonym merged = "(pystr \<times> pystr \<times> pystr list) list"

fun merge_label :: "pystr \<Rightarrow> pystr \<Rightarrow> pystr \<Rightarrow> merged \<Rightarrow> merged" where
  "merge_label kind iri label [] = [(iri, kind, [label])]"
| "merge_label kind iri label ((i, k, ls) # m) =
     (if i = iri then (i, k, ls @ [label]) # m else (i, k, ls) # merge_label kind iri label m)"

fun merge_bindings :: "pystr \<Rightarrow> binding list \<Rightarrow> merged \<Rightarrow> merged result" where
  "merge_bindings kind [] m = Inr m"
| "merge_bindings kind (b # bs) m =
     bind_result (bound_value (lit ''c'') b) (\<lambda>iri.
     bind_result (bound_value (lit ''label'') b) (\<lambda>label.
       if strip label = [] then merge_bindings kind bs m
       else merge_bindings kind bs (merge_label kind iri label m)))"

definition read_known_entities :: "select_fn \<Rightarrow> known_entity list result" where
  "read_known_entities select =
     bind_result (select SKOS_CONCEPTS_QUERY) (\<lambda>bs.
     bind_result (merge_bindings (lit ''concept'') bs []) (\<lambda>m.
     bind_result (select ONTOLOGY_CLASSES_QUERY) (\<lambda>bs.
     bind_result (merge_bindings (lit ''class'') bs m) (\<lambda>m.
     bind_result (select PHYSICAL_PROPERTIES_QUERY) (\<lambda>bs.
     bind_result (merge_bindings (lit ''class'') bs m) (\<lambda>m.
     bind_result (select MOLTEN_SALTS_QUERY) (\<lambda>bs.
     bind_result (merge_bindings (lit ''salt'') bs m) (\<lambda>m.
       Inr (sort_key ke_target_iri (map (\<lambda>(iri, kind, labels).
         \<lparr>ke_target_iri = iri, ke_labels = labels, ke_kind = kind\<rparr>) m))))))))))"

definition known_iris :: "select_fn \<Rightarrow> pystr set result" where
  "known_iris select = bind_result (read_known_entities select) (\<lambda>es. Inr (set (map ke_target_iri es)))"

definition read_subjects :: "pystr \<Rightarrow> select_fn \<Rightarrow> pystr set result" where
  "read_subjects query select = bind_result (select query) (\<lambda>bs.
     bind_result (map_result (bound_value (lit ''c'')) bs) (\<lambda>vs. Inr (set vs)))"

definition read_salt_roles :: "select_fn \<Rightarrow> pystr set result" where
  "read_salt_roles = read_subjects SALT_ROLES_QUERY"

definition read_physical_properties :: "select_fn \<Rightarrow> pystr set result" where
  "read_physical_properties = read_subjects PHYSICAL_PROPERTIES_QUERY"

definition read_molten_salts :: "select_fn \<Rightarrow> pystr set result" where
  "read_molten_salts = read_subjects MOLTEN_SALTS_QUERY"

definition read_reactor_concepts :: "select_fn \<Rightarrow> pystr set result" where
  "read_reactor_concepts = read_subjects REACTOR_CONCEPTS_QUERY"

definition read_safety_functions :: "select_fn \<Rightarrow> pystr set result" where
  "read_safety_functions = read_subjects SAFETY_FUNCTIONS_QUERY"

definition read_requirements :: "select_fn \<Rightarrow> pystr set result" where
  "read_requirements = read_subjects REQUIREMENTS_QUERY"

definition read_role_reactor_labels :: "select_fn \<Rightarrow> pystr set result" where
  "read_role_reactor_labels select = bind_result (select SALT_ROLES_QUERY) (\<lambda>bs.
     Inr (set (filter (\<lambda>l. l \<noteq> []) (map strip (List.map_filter (\<lambda>b. b (lit ''label'')) bs)))))"

record staged_proposal =
  sp_proposal_iri :: pystr
  sp_kind :: pystr
  sp_term :: pystr

definition staged_of :: "binding \<Rightarrow> staged_proposal result" where
  "staged_of b =
     bind_result (bound_value (lit ''proposal'') b) (\<lambda>iri.
     bind_result (bound_value (lit ''kind'') b) (\<lambda>kind.
     bind_result (bound_value (lit ''term'') b) (\<lambda>t.
       Inr \<lparr>sp_proposal_iri = iri, sp_kind = kind, sp_term = t\<rparr>)))"

definition staged_key :: "staged_proposal \<Rightarrow> pystr list" where
  "staged_key p = [sp_term p, sp_kind p, sp_proposal_iri p]"

definition read_change_proposals :: "select_fn \<Rightarrow> staged_proposal list result" where
  "read_change_proposals select_staging =
     bind_result (select_staging CHANGE_PROPOSALS_QUERY) (\<lambda>bs.
     bind_result (map_result staged_of bs) (\<lambda>ps. Inr (sort_key staged_key ps)))"

text \<open>\<open>int(s)\<close> of a text: blanks around, a sign, decimal digits with single underscores between them, at
  most 4300 digits.\<close>

definition int_of_text :: "pystr \<Rightarrow> int result" where
  "int_of_text s =
     (let s = strip s;
          (sign, body) = (if starts_with [45] s then (- 1, tl s) else if starts_with [43] s then (1, tl s) else (1, s));
          parts = split_on 95 body; digits = concat parts
      in if list_all (\<lambda>p. p \<noteq> [] \<and> list_all is_digit p) parts \<and> length digits \<le> 4300
         then Inr (sign * int (foldl (\<lambda>n d. 10 * n + the (digit_value d)) 0 digits))
         else Inl ValueError)"

definition count_doc_frequency_scalars :: "select_fn \<Rightarrow> int result" where
  "count_doc_frequency_scalars select_staging =
     bind_result (select_staging DOC_FREQUENCY_COUNT_QUERY) (\<lambda>bindings. case bindings of
       [] \<Rightarrow> Inr 0
     | b # _ \<Rightarrow> bind_result (bound_value (lit ''n'') b) int_of_text)"

section \<open>What the entities are\<close>

text \<open>The labelled rows of one answer, and of the four queries in order.\<close>

definition labelled :: "pystr \<Rightarrow> binding list \<Rightarrow> (pystr \<times> pystr \<times> pystr) list result" where
  "labelled kind bs = bind_result (map_result (\<lambda>b. bind_result (bound_value (lit ''c'') b) (\<lambda>iri.
       bind_result (bound_value (lit ''label'') b) (\<lambda>label. Inr (iri, kind, label)))) bs)
     (\<lambda>rows. Inr (filter (\<lambda>(_, _, label). strip label \<noteq> []) rows))"

definition answer :: "select_fn \<Rightarrow> pystr \<times> pystr \<Rightarrow> (pystr \<times> pystr \<times> pystr) list result" where
  "answer select q = bind_result (select (fst q)) (labelled (snd q))"

definition known_rows :: "select_fn \<Rightarrow> (pystr \<times> pystr \<times> pystr) list result" where
  "known_rows select = bind_result (map_result (answer select)
     [(SKOS_CONCEPTS_QUERY, lit ''concept''), (ONTOLOGY_CLASSES_QUERY, lit ''class''),
      (PHYSICAL_PROPERTIES_QUERY, lit ''class''), (MOLTEN_SALTS_QUERY, lit ''salt'')])
     (\<lambda>answers. Inr (concat answers))"

definition entity_of :: "(pystr \<times> pystr \<times> pystr) list \<Rightarrow> pystr \<Rightarrow> known_entity" where
  "entity_of rows iri = (let mine = filter (\<lambda>(i, _, _). i = iri) rows
     in \<lparr>ke_target_iri = iri, ke_labels = map (\<lambda>(_, _, l). l) mine, ke_kind = fst (snd (hd mine))\<rparr>)"

lemma merge_label_keys:
  "set (map fst (merge_label kind iri label m)) = insert iri (set (map fst m))
   \<and> (distinct (map fst m) \<longrightarrow> distinct (map fst (merge_label kind iri label m)))"
  by (induction kind iri label m rule: merge_label.induct) auto

definition merge_rows :: "(pystr \<times> pystr \<times> pystr) list \<Rightarrow> merged \<Rightarrow> merged" where
  "merge_rows rows m = fold (\<lambda>(iri, kind, label). merge_label kind iri label) rows m"

lemma merge_rows_append: "merge_rows (xs @ ys) m = merge_rows ys (merge_rows xs m)"
  by (simp add: merge_rows_def)

lemma merge_bindings_eq:
  "merge_bindings kind bs m = bind_result (labelled kind bs) (\<lambda>rows. Inr (merge_rows rows m))"
proof (induction kind bs m rule: merge_bindings.induct)
  case (1 kind m)
  then show ?case by (simp add: labelled_def merge_rows_def)
next
  case (2 kind b bs m)
  show ?case
  proof (cases "bound_value (lit ''c'') b"; cases "bound_value (lit ''label'') b")
    fix iri label assume "bound_value (lit ''c'') b = Inr iri" "bound_value (lit ''label'') b = Inr label"
    then show ?thesis using 2 unfolding labelled_def
      by (auto simp: merge_rows_def bind_result_def split: sum.splits)
  qed (simp_all add: labelled_def)
qed

lemma read_known_entities_rows:
  "read_known_entities select = bind_result (known_rows select) (\<lambda>rows.
     Inr (sort_key ke_target_iri (map (\<lambda>(iri, kind, labels).
       \<lparr>ke_target_iri = iri, ke_labels = labels, ke_kind = kind\<rparr>) (merge_rows rows []))))"
  unfolding read_known_entities_def known_rows_def merge_bindings_eq
  by (auto simp: answer_def bind_result_def merge_rows_append merge_rows_def split: sum.splits)

text \<open>What the dictionary holds after the rows: each IRI once, with the entity the rows make of it.\<close>

lemma merge_label_entry:
  assumes "distinct (map fst m)" "(i, k, ls) \<in> set (merge_label kind iri label m)"
  shows "if i = iri then (\<exists>ls'. ls = ls' @ [label] \<and> (i, k, ls') \<in> set m)
      \<or> (iri \<notin> set (map fst m) \<and> k = kind \<and> ls = [label]) else (i, k, ls) \<in> set m"
  using assms by (induction kind iri label m rule: merge_label.induct) (auto split: if_splits, force+)

definition faithful :: "(pystr \<times> pystr \<times> pystr) list \<Rightarrow> merged \<Rightarrow> bool" where
  "faithful rows m \<longleftrightarrow> distinct (map fst m) \<and> set (map fst m) = set (map fst rows) \<and>
     (\<forall>(i, k, ls) \<in> set m. ls = ke_labels (entity_of rows i) \<and> k = ke_kind (entity_of rows i))"

lemma entity_of_snoc:
  "ke_labels (entity_of (rows @ [(iri, kind, label)]) i) =
     ke_labels (entity_of rows i) @ (if i = iri then [label] else [])"
  "ke_kind (entity_of (rows @ [(iri, kind, label)]) i) =
     (if i \<in> set (map fst rows) then ke_kind (entity_of rows i)
      else ke_kind (entity_of [(iri, kind, label)] i))"
  by (force simp: entity_of_def Let_def hd_append filter_empty_conv image_iff)+

lemma merge_rows_faithful: "faithful rows (merge_rows rows [])"
proof (induction rows rule: rev_induct)
  case Nil
  then show ?case by (simp add: faithful_def merge_rows_def)
next
  case (snoc r rows)
  obtain iri kind label where r: "r = (iri, kind, label)" by (cases r)
  let ?m = "merge_rows rows []"
  have m: "merge_rows (rows @ [r]) [] = merge_label kind iri label ?m"
    by (simp add: merge_rows_def r)
  have keys: "distinct (map fst ?m)" "set (map fst ?m) = set (map fst rows)"
    and entries: "\<And>i k ls. (i, k, ls) \<in> set ?m \<Longrightarrow> ls = ke_labels (entity_of rows i) \<and> k = ke_kind (entity_of rows i)"
    using snoc by (auto simp: faithful_def)
  have "ls = ke_labels (entity_of (rows @ [r]) i) \<and> k = ke_kind (entity_of (rows @ [r]) i)"
    if "(i, k, ls) \<in> set (merge_label kind iri label ?m)" for i k ls
  proof (cases "i = iri")
    case True
    with merge_label_entry [OF keys(1) that] consider ls' where "ls = ls' @ [label]" "(i, k, ls') \<in> set ?m"
      | "iri \<notin> set (map fst rows)" "k = kind" "ls = [label]" using keys(2) by auto
    then show ?thesis
    proof cases
      case 1
      then have "i \<in> set (map fst rows)" using keys(2) by force
      then show ?thesis using 1 entries True unfolding r entity_of_snoc by simp
    next
      case 2
      then have "ke_labels (entity_of rows i) = []" using True by (force simp: entity_of_def Let_def filter_empty_conv)
      then show ?thesis using 2 True unfolding r entity_of_snoc by (simp add: entity_of_def)
    qed
  next
    case False
    then have "(i, k, ls) \<in> set ?m" using merge_label_entry [OF keys(1) that] by simp
    moreover from this have "i \<in> set (map fst rows)" using keys(2) by force
    ultimately show ?thesis using entries False unfolding r entity_of_snoc by simp
  qed
  then show ?case using merge_label_keys [of kind iri label ?m] keys
    unfolding faithful_def m by (auto simp: r)
qed

text \<open>Reading the known entities raises exactly what the first failing query or row raises; otherwise it
  returns one entity per IRI that has a non-blank label in one of the four answers, in order of the IRIs,
  with all its labels in the order of the queries and rows and the kind of the query that named it first.
  So the answer does not depend on how a subject's rows are interleaved with those of other subjects.\<close>

theorem read_known_entities_spec:
  "read_known_entities select = bind_result (known_rows select) (\<lambda>rows.
     Inr (map (entity_of rows) (sorted_list_of_set (set (map fst rows)))))"
proof -
  have "sort_key ke_target_iri (map (\<lambda>(iri, kind, labels).
       \<lparr>ke_target_iri = iri, ke_labels = labels, ke_kind = kind\<rparr>) (merge_rows rows []))
     = map (entity_of rows) (sorted_list_of_set (set (map fst rows)))" for rows
  proof -
    let ?m = "merge_rows rows []" and ?ent = "\<lambda>(iri, kind, labels).
      \<lparr>ke_target_iri = iri, ke_labels = labels, ke_kind = kind\<rparr>"
    have f: "distinct (map fst ?m)" "set (map fst ?m) = set (map fst rows)"
        "\<And>i k ls. (i, k, ls) \<in> set ?m \<Longrightarrow> ls = ke_labels (entity_of rows i) \<and> k = ke_kind (entity_of rows i)"
      using merge_rows_faithful [of rows] by (auto simp: faithful_def)
    have "map ?ent ?m = map (entity_of rows) (map fst ?m)"
      using f(3) by (auto simp: entity_of_def Let_def)
    moreover have "sort_key ke_target_iri (map (entity_of rows) xs) = map (entity_of rows) (sort xs)" for xs
      by (simp add: sort_key_map entity_of_def Let_def)
    moreover have "sort (map fst ?m) = sorted_list_of_set (set (map fst rows))"
      using f(1,2) by (metis distinct_remdups_id sorted_list_of_set_sort_remdups)
    ultimately show ?thesis by metis
  qed
  then show ?thesis unfolding read_known_entities_rows by simp
qed

end
