(* ===== verification/Config.thy ===== *)
theory Config
  imports Graph_Reader PyFloat
begin

text \<open>
  \<open>config.py\<close>: the configuration read from the environment, and the places of the files. Paths are
  those of \<open>pathlib\<close> on a POSIX system; \<open>place\<close> is where the operating system finds one, up to links.
\<close>

section \<open>Paths\<close>

record path =
  pa_root :: pystr
  pa_parts :: "pystr list"

definition path_parts :: "pystr \<Rightarrow> pystr list" where
  "path_parts s = filter (\<lambda>p. p \<noteq> [] \<and> p \<noteq> lit ''.'') (split_on 47 s)"

definition path_of :: "pystr \<Rightarrow> path" where
  "path_of s = \<lparr>pa_root = (if starts_with (lit ''//'') s \<and> \<not> starts_with (lit ''///'') s then lit ''//''
     else if starts_with (lit ''/'') s then lit ''/'' else []), pa_parts = path_parts s\<rparr>"

text \<open>\<open>p / s\<close>, \<open>p.parent\<close> and \<open>str(p)\<close>.\<close>

definition path_join :: "path \<Rightarrow> pystr \<Rightarrow> path" where
  "path_join p s = (if pa_root (path_of s) \<noteq> [] then path_of s else p\<lparr>pa_parts := pa_parts p @ path_parts s\<rparr>)"

definition path_parent :: "path \<Rightarrow> path" where
  "path_parent p = (if pa_parts p = [] then p else p\<lparr>pa_parts := butlast (pa_parts p)\<rparr>)"

definition path_text :: "path \<Rightarrow> pystr" where
  "path_text p = (if pa_root p = [] \<and> pa_parts p = [] then lit ''.'' else pa_root p @ join (lit ''/'') (pa_parts p))"

definition walk :: "bool \<Rightarrow> pystr \<Rightarrow> pystr list \<Rightarrow> pystr list" where
  "walk absolute p stack =
     (if p \<noteq> lit ''..'' then p # stack
      else case stack of
          [] \<Rightarrow> if absolute then [] else [p]
        | q # stack' \<Rightarrow> if q = lit ''..'' then p # stack else stack')"

definition place :: "path \<Rightarrow> bool \<times> pystr list" where
  "place p = (pa_root p \<noteq> [], rev (fold (walk (pa_root p \<noteq> [])) (pa_parts p) []))"

section \<open>The configuration\<close>

record config =
  cf_graphdb_url :: pystr
  cf_graphdb_repo :: pystr
  cf_corpus_dir :: path
  cf_msr_archive_url :: pystr
  cf_archive_subdir :: pystr
  cf_deepseek_base_url :: pystr
  cf_deepseek_api_key :: pystr
  cf_llm_model_extract :: pystr
  cf_fuzzy_threshold :: pyfloat
  cf_fuzzy_min_token_length :: int
  cf_salience_threshold :: int
  cf_mine_max_candidates :: int
  cf_spacy_model :: pystr
  cf_db_path :: path
  cf_confidence_threshold :: pyfloat
  cf_ontology_dir :: path
  cf_mention_write_batch_size :: int
  cf_disambig_concurrency :: int
  cf_disambig_cache_refresh :: bool
  cf_safety_max_chunk_tokens :: int
  cf_safety_salience_threshold :: int

definition default_config :: config where
  "default_config = \<lparr>
     cf_graphdb_url = lit ''http://localhost:7200'', cf_graphdb_repo = lit ''msr'',
     cf_corpus_dir = path_of (lit ''data/corpus''),
     cf_msr_archive_url = lit ''https://github.com/openmsr/msr-archive'', cf_archive_subdir = lit ''msr-archive'',
     cf_deepseek_base_url = [], cf_deepseek_api_key = [], cf_llm_model_extract = lit ''deepseek-v4-flash'',
     cf_fuzzy_threshold = Fin 90, cf_fuzzy_min_token_length = 3, cf_salience_threshold = 50,
     cf_mine_max_candidates = 5000, cf_spacy_model = lit ''en_core_web_sm'', cf_db_path = path_of (lit ''data/msr.db''),
     cf_confidence_threshold = Fin (1 / 2), cf_ontology_dir = path_of (lit ''ontology''),
     cf_mention_write_batch_size = 500, cf_disambig_concurrency = 24, cf_disambig_cache_refresh = False,
     cf_safety_max_chunk_tokens = 6, cf_safety_salience_threshold = 1\<rparr>"

type_synonym environment = "pystr \<rightharpoonup> pystr"

definition env_text :: "environment \<Rightarrow> string \<Rightarrow> pystr \<Rightarrow> pystr" where
  "env_text env name otherwise = (case env (lit name) of None \<Rightarrow> otherwise | Some v \<Rightarrow> v)"

definition env_path :: "environment \<Rightarrow> string \<Rightarrow> path \<Rightarrow> path" where
  "env_path env name otherwise = path_of (env_text env name (path_text otherwise))"

definition env_int :: "environment \<Rightarrow> string \<Rightarrow> int \<Rightarrow> int result" where
  "env_int env name otherwise = (case env (lit name) of None \<Rightarrow> Inr otherwise | Some v \<Rightarrow> int_of_text v)"

definition env_float :: "environment \<Rightarrow> string \<Rightarrow> pyfloat \<Rightarrow> pyfloat result" where
  "env_float env name otherwise = (case env (lit name) of
     None \<Rightarrow> Inr otherwise
   | Some v \<Rightarrow> (case py_float v of None \<Rightarrow> Inl ValueError | Some f \<Rightarrow> Inr f))"

definition env_flag :: "environment \<Rightarrow> string \<Rightarrow> bool" where
  "env_flag env name \<longleftrightarrow> lower_ascii (strip (env_text env name [])) \<in> set [lit ''1'', lit ''true'', lit ''yes'']"

definition from_env :: "environment \<Rightarrow> config result" where
  "from_env env =
     (let d = default_config in
      bind_result (env_float env ''MSR_FUZZY_THRESHOLD'' (cf_fuzzy_threshold d)) (\<lambda>fuzzy_threshold.
      bind_result (env_int env ''MSR_FUZZY_MIN_TOKEN_LENGTH'' (cf_fuzzy_min_token_length d)) (\<lambda>fuzzy_min_token_length.
      bind_result (env_int env ''MSR_SALIENCE_THRESHOLD'' (cf_salience_threshold d)) (\<lambda>salience_threshold.
      bind_result (env_int env ''MSR_MINE_MAX_CANDIDATES'' (cf_mine_max_candidates d)) (\<lambda>mine_max_candidates.
      bind_result (env_float env ''MSR_EXTRACT_CONFIDENCE_THRESHOLD'' (cf_confidence_threshold d)) (\<lambda>confidence_threshold.
      bind_result (env_int env ''MSR_MENTION_WRITE_BATCH_SIZE'' (cf_mention_write_batch_size d)) (\<lambda>mention_write_batch_size.
      bind_result (env_int env ''MSR_DISAMBIG_CONCURRENCY'' (cf_disambig_concurrency d)) (\<lambda>disambig_concurrency.
      bind_result (env_int env ''MSR_SAFETY_MAX_CHUNK_TOKENS'' (cf_safety_max_chunk_tokens d)) (\<lambda>safety_max_chunk_tokens.
      bind_result (env_int env ''MSR_SAFETY_SALIENCE_THRESHOLD'' (cf_safety_salience_threshold d)) (\<lambda>safety_salience_threshold.
      Inr \<lparr>cf_graphdb_url = env_text env ''GRAPHDB_URL'' (cf_graphdb_url d),
        cf_graphdb_repo = env_text env ''GRAPHDB_REPO'' (cf_graphdb_repo d),
        cf_corpus_dir = env_path env ''MSR_CORPUS_DIR'' (cf_corpus_dir d),
        cf_msr_archive_url = env_text env ''MSR_ARCHIVE_URL'' (cf_msr_archive_url d),
        cf_archive_subdir = cf_archive_subdir d,
        cf_deepseek_base_url = env_text env ''DEEPSEEK_BASE_URL'' (cf_deepseek_base_url d),
        cf_deepseek_api_key = env_text env ''DEEPSEEK_API_KEY'' (cf_deepseek_api_key d),
        cf_llm_model_extract = env_text env ''LLM_MODEL_EXTRACT'' (cf_llm_model_extract d),
        cf_fuzzy_threshold = fuzzy_threshold, cf_fuzzy_min_token_length = fuzzy_min_token_length,
        cf_salience_threshold = salience_threshold, cf_mine_max_candidates = mine_max_candidates,
        cf_spacy_model = env_text env ''MSR_SPACY_MODEL'' (cf_spacy_model d),
        cf_db_path = env_path env ''MSR_DB_PATH'' (cf_db_path d),
        cf_confidence_threshold = confidence_threshold,
        cf_ontology_dir = env_path env ''MSR_ONTOLOGY_DIR'' (cf_ontology_dir d),
        cf_mention_write_batch_size = mention_write_batch_size, cf_disambig_concurrency = disambig_concurrency,
        cf_disambig_cache_refresh = env_flag env ''MSR_DISAMBIG_REFRESH'',
        cf_safety_max_chunk_tokens = safety_max_chunk_tokens,
        cf_safety_salience_threshold = safety_salience_threshold\<rparr>))))))))))"

section \<open>Places\<close>

definition archive_dir :: "config \<Rightarrow> path" where
  "archive_dir c = path_join (cf_corpus_dir c) (cf_archive_subdir c)"

definition readme_path :: "config \<Rightarrow> path" where
  "readme_path c = path_join (archive_dir c) (lit ''README.md'')"

definition report_dir :: "config \<Rightarrow> pystr \<Rightarrow> path" where
  "report_dir c rep = path_join (cf_corpus_dir c) rep"

definition disambig_cache_path :: "config \<Rightarrow> path" where
  "disambig_cache_path c = path_join (cf_corpus_dir c) (lit ''disambiguation-cache.json'')"

definition sparql_update_endpoint :: "config \<Rightarrow> pystr" where
  "sparql_update_endpoint c = cf_graphdb_url c @ lit ''/repositories/'' @ cf_graphdb_repo c @ lit ''/statements''"

definition sparql_query_endpoint :: "config \<Rightarrow> pystr" where
  "sparql_query_endpoint c = cf_graphdb_url c @ lit ''/repositories/'' @ cf_graphdb_repo c"

definition segments_path :: "config \<Rightarrow> pystr \<Rightarrow> path" where
  "segments_path c rep = path_join (report_dir c rep) (lit ''segments.jsonl'')"

definition mentions_path :: "config \<Rightarrow> pystr \<Rightarrow> path" where
  "mentions_path c rep = path_join (report_dir c rep) (lit ''mentions.jsonl'')"

definition normalized_path :: "config \<Rightarrow> pystr \<Rightarrow> path" where
  "normalized_path c rep = path_join (report_dir c rep) (lit ''normalized.txt'')"

definition relations_path :: "config \<Rightarrow> pystr \<Rightarrow> path" where
  "relations_path c rep = path_join (report_dir c rep) (lit ''relations.jsonl'')"

definition qudt_units_path :: "config \<Rightarrow> path" where
  "qudt_units_path c = path_join (cf_ontology_dir c) (lit ''qudt-units.json'')"

definition safety_dir :: "config \<Rightarrow> path" where
  "safety_dir c = path_join (path_parent (cf_corpus_dir c)) (lit ''safety'')"

definition safety_text_path :: "config \<Rightarrow> pystr \<Rightarrow> path" where
  "safety_text_path c source_id = path_join (safety_dir c) (source_id @ lit ''.txt'')"

definition safety_report_dir :: "config \<Rightarrow> pystr \<Rightarrow> path" where
  "safety_report_dir c source_id = path_join (safety_dir c) source_id"

definition safety_normalized_path :: "config \<Rightarrow> pystr \<Rightarrow> path" where
  "safety_normalized_path c source_id = path_join (safety_report_dir c source_id) (lit ''normalized.txt'')"

definition safety_segments_path :: "config \<Rightarrow> pystr \<Rightarrow> path" where
  "safety_segments_path c source_id = path_join (safety_report_dir c source_id) (lit ''segments.jsonl'')"

definition safety_mentions_path :: "config \<Rightarrow> pystr \<Rightarrow> path" where
  "safety_mentions_path c source_id = path_join (safety_report_dir c source_id) (lit ''mentions.jsonl'')"

definition safety_relations_path :: "config \<Rightarrow> pystr \<Rightarrow> path" where
  "safety_relations_path c source_id = path_join (safety_report_dir c source_id) (lit ''relations.jsonl'')"


section \<open>Nothing collides\<close>

text \<open>A name that is one component of a path.\<close>

definition plain :: "pystr \<Rightarrow> bool" where
  "plain s \<longleftrightarrow> s \<noteq> [] \<and> 47 \<notin> set s \<and> s \<noteq> lit ''.'' \<and> s \<noteq> lit ''..''"

lemma split_on_absent: "c \<notin> set s \<Longrightarrow> split_on c s = [s]"
  by (induction s) auto

lemma place_join: "plain s \<Longrightarrow> place (path_join p s) = (fst (place p), snd (place p) @ [s])"
  by (cases s) (simp_all add: plain_def place_def path_join_def path_of_def path_parts_def split_on_absent walk_def
      starts_with_def lit_def)

lemma plain_names [simp]: "plain (lit ''segments.jsonl'')" "plain (lit ''mentions.jsonl'')" "plain (lit ''normalized.txt'')"
  "plain (lit ''relations.jsonl'')" "plain (lit ''README.md'')" "plain (lit ''disambiguation-cache.json'')" "plain (lit ''safety'')"
  "plain (lit ''msr-archive'')"
  by (simp_all add: plain_def lit_def)

definition artifact_names :: "pystr list" where
  "artifact_names = [lit ''segments.jsonl'', lit ''mentions.jsonl'', lit ''normalized.txt'', lit ''relations.jsonl'']"

text \<open>The artifacts of a report, in the order of these names.\<close>

definition artifacts :: "config \<Rightarrow> pystr \<Rightarrow> path list" where
  "artifacts c rep = [segments_path c rep, mentions_path c rep, normalized_path c rep, relations_path c rep]"

definition safety_artifacts :: "config \<Rightarrow> pystr \<Rightarrow> path list" where
  "safety_artifacts c rep = [safety_segments_path c rep, safety_mentions_path c rep, safety_normalized_path c rep,
     safety_relations_path c rep]"

lemma place_artifacts:
  assumes "plain rep"
  shows "map place (artifacts c rep) = map (\<lambda>n. (fst (place (cf_corpus_dir c)), snd (place (cf_corpus_dir c)) @ [rep, n])) artifact_names"
  using assms by (simp add: artifacts_def artifact_names_def segments_path_def mentions_path_def normalized_path_def
      relations_path_def report_dir_def place_join)

lemma place_safety_artifacts:
  assumes "plain rep"
  shows "map place (safety_artifacts c rep) = map (\<lambda>n. (fst (place (path_parent (cf_corpus_dir c))),
    snd (place (path_parent (cf_corpus_dir c))) @ [lit ''safety'', rep, n])) artifact_names"
  using assms by (simp add: safety_artifacts_def artifact_names_def safety_segments_path_def safety_mentions_path_def
      safety_normalized_path_def safety_relations_path_def safety_report_dir_def safety_dir_def place_join)

lemma place_readme: "plain (cf_archive_subdir c) \<Longrightarrow> place (readme_path c) =
    (fst (place (cf_corpus_dir c)), snd (place (cf_corpus_dir c)) @ [cf_archive_subdir c, lit ''README.md''])"
  by (simp add: readme_path_def archive_dir_def place_join)

lemma place_cache: "place (disambig_cache_path c) =
    (fst (place (cf_corpus_dir c)), snd (place (cf_corpus_dir c)) @ [lit ''disambiguation-cache.json''])"
  by (simp add: disambig_cache_path_def place_join)

text \<open>The last component of the corpus directory, when it has one.\<close>

lemma place_parent:
  assumes "pa_parts p \<noteq> []" "plain (last (pa_parts p))"
  shows "place p = (fst (place (path_parent p)), snd (place (path_parent p)) @ [last (pa_parts p)])"
proof -
  obtain ps l where "pa_parts p = ps @ [l]" using assms(1) by (cases "pa_parts p" rule: rev_cases) auto
  then show ?thesis using assms by (simp add: place_def path_parent_def walk_def plain_def)
qed

lemma distinct_grid:
  assumes "distinct rs" "distinct ns" "\<And>r n r' n'. h r n = h r' n' \<Longrightarrow> r = r' \<and> n = n'"
  shows "distinct (concat (map (\<lambda>r. map (h r) ns) rs))"
  using assms(1)
proof (induction rs)
  case (Cons r rs)
  then show ?case using assms(2,3) by (auto simp: distinct_map inj_on_def)
qed simp

lemma distinct_artifact_names: "distinct artifact_names"
  by (simp add: artifact_names_def lit_def)

text \<open>No two artifacts share a file. For distinct reports with plain ids (not the archive's directory, not
  the name of the cache file) and a corpus directory whose last component is not \<open>safety\<close>, the places of
  their artifacts in the corpus, of all artifacts of safety sources, of the archive's table and of the
  cache are distinct, whatever else the corpus directory is.\<close>

theorem artifact_places_distinct:
  assumes "distinct reps" "list_all plain reps" "distinct sources" "list_all plain sources"
    and "plain (cf_archive_subdir c)" "cf_archive_subdir c \<notin> set reps"
    and "pa_parts (cf_corpus_dir c) \<noteq> []" "plain (last (pa_parts (cf_corpus_dir c)))"
      "last (pa_parts (cf_corpus_dir c)) \<noteq> lit ''safety''"
  shows "distinct (map place (concat (map (artifacts c) reps) @ concat (map (safety_artifacts c) sources)
     @ [readme_path c, disambig_cache_path c]))"
proof -
  obtain a d where dir: "place (cf_corpus_dir c) = (a, d)" by (rule prod.exhaust)
  obtain b e where parent: "place (path_parent (cf_corpus_dir c)) = (b, e)" by (rule prod.exhaust)
  let ?l = "last (pa_parts (cf_corpus_dir c))"
  have de: "d = e @ [?l]" "a = b" using place_parent [OF assms(7,8)] dir parent by auto
  let ?f = "\<lambda>rep. map (\<lambda>n. (a, d @ [rep, n])) artifact_names"
  let ?g = "\<lambda>rep. map (\<lambda>n. (a, e @ [lit ''safety'', rep, n])) artifact_names"
  have "map place (concat (map (artifacts c) reps)) = concat (map ?f reps)"
    using assms(2) dir by (simp add: map_concat comp_def place_artifacts list_all_iff cong: map_cong)
  moreover have "map place (concat (map (safety_artifacts c) sources)) = concat (map ?g sources)"
    using assms(4) parent de by (simp add: map_concat comp_def place_safety_artifacts list_all_iff cong: map_cong)
  moreover have "distinct (concat (map ?f reps))" "distinct (concat (map ?g sources))"
    by (intro distinct_grid assms distinct_artifact_names, simp)+
  ultimately show ?thesis
    using assms(5,6,9) dir de by (auto simp: place_readme place_cache)
qed


lemma artifact_places_distinct_witness:
  "distinct (map place (concat (map (artifacts default_config) [lit ''ORNL-TM-2316'', lit ''ORNL-3293''])
     @ concat (map (safety_artifacts default_config) [lit ''PUB2027-SRS-123'', lit ''ORNL-3293''])
     @ [readme_path default_config, disambig_cache_path default_config]))"
  by (rule artifact_places_distinct) (simp_all add: plain_def default_config_def path_of_def path_parts_def lit_def)

section \<open>Reading the environment\<close>

text \<open>The numeric variables that are set to something \<open>int\<close> or \<open>float\<close> does not read.\<close>

definition bad_integers :: "environment \<Rightarrow> string list" where
  "bad_integers env = filter (\<lambda>n. env_int env n 0 = Inl ValueError) [''MSR_FUZZY_MIN_TOKEN_LENGTH'', ''MSR_SALIENCE_THRESHOLD'',
     ''MSR_MINE_MAX_CANDIDATES'', ''MSR_MENTION_WRITE_BATCH_SIZE'', ''MSR_DISAMBIG_CONCURRENCY'',
     ''MSR_SAFETY_MAX_CHUNK_TOKENS'', ''MSR_SAFETY_SALIENCE_THRESHOLD'']"

definition bad_floats :: "environment \<Rightarrow> string list" where
  "bad_floats env = filter (\<lambda>n. env_float env n (Fin 0) = Inl ValueError)
     [''MSR_FUZZY_THRESHOLD'', ''MSR_EXTRACT_CONFIDENCE_THRESHOLD'']"

lemma int_of_text_Inl: "int_of_text s = Inl e \<Longrightarrow> e = ValueError"
  by (auto simp: int_of_text_def Let_def split: if_splits)

lemma env_int_cases: "env_int env n d = Inl ValueError \<or> (\<exists>i. env_int env n d = Inr i)"
  using int_of_text_Inl by (cases "env (lit n)") (auto simp: env_int_def, metis obj_sumE)

lemma env_int_bad: "env_int env n d = Inl ValueError \<longleftrightarrow> env_int env n 0 = Inl ValueError"
  by (auto simp: env_int_def split: option.splits)

lemma env_float_cases: "env_float env n d = Inl ValueError \<or> (\<exists>i. env_float env n d = Inr i)"
  by (auto simp: env_float_def split: option.splits)

lemma env_float_bad: "env_float env n d = Inl ValueError \<longleftrightarrow> env_float env n (Fin 0) = Inl ValueError"
  by (auto simp: env_float_def split: option.splits)

lemma bind_result_bad:
  assumes "m = Inl ValueError \<or> (\<exists>x. m = Inr x)" "\<And>x. f x = Inl ValueError \<or> (\<exists>y. f x = Inr y)"
  shows "bind_result m f = Inl ValueError \<or> (\<exists>y. bind_result m f = Inr y)"
  using assms by (auto simp: bind_result_def split: sum.splits)

lemma from_env_outcome: "from_env env = Inl ValueError \<or> (\<exists>c. from_env env = Inr c)"
  unfolding from_env_def Let_def by (intro bind_result_bad env_int_cases env_float_cases) simp

lemma env_int_Inr: "(\<exists>i. env_int env n d = Inr i) \<longleftrightarrow> env_int env n 0 \<noteq> Inl ValueError"
  using env_int_cases [of env n d] env_int_bad [of env n d] by auto

lemma env_float_Inr: "(\<exists>i. env_float env n d = Inr i) \<longleftrightarrow> env_float env n (Fin 0) \<noteq> Inl ValueError"
  using env_float_cases [of env n d] env_float_bad [of env n d] by auto

lemma from_env_empty: "from_env Map.empty = Inr default_config"
  by (simp add: from_env_def Let_def env_float_def env_int_def env_text_def env_path_def env_flag_def default_config_def
      path_of_def path_parts_def path_text_def lit_def starts_with_def strip_def strip_by_def lower_ascii_def)

lemma bind_result_ok:
  "(\<And>x. (\<exists>y. f x = Inr y) \<longleftrightarrow> P) \<Longrightarrow> (\<exists>y. bind_result m f = Inr y) \<longleftrightarrow> (\<exists>x. m = Inr x) \<and> P"
  by (auto simp: bind_result_eq_Inr)

text \<open>The environment is read or refused as a whole. Reading it raises \<open>ValueError\<close>, the only exception,
  exactly when one of the nine numeric variables is set to a text that \<open>int\<close> or \<open>float\<close> refuses; with
  no variable set the configuration is the documented default.\<close>

theorem from_env_raises:
  "(from_env env = Inl ValueError \<longleftrightarrow> bad_integers env @ bad_floats env \<noteq> [])
   \<and> (from_env env = Inl ValueError \<or> (\<exists>c. from_env env = Inr c))
   \<and> from_env Map.empty = Inr default_config"
proof -
  let ?d = default_config
  let ?i = "\<lambda>n d. \<exists>x. env_int env n d = Inr x" and ?f = "\<lambda>n d. \<exists>x. env_float env n d = Inr x"
  have "(\<exists>c. from_env env = Inr c) \<longleftrightarrow> ?f ''MSR_FUZZY_THRESHOLD'' (cf_fuzzy_threshold ?d)
      \<and> ?i ''MSR_FUZZY_MIN_TOKEN_LENGTH'' (cf_fuzzy_min_token_length ?d) \<and> ?i ''MSR_SALIENCE_THRESHOLD'' (cf_salience_threshold ?d)
      \<and> ?i ''MSR_MINE_MAX_CANDIDATES'' (cf_mine_max_candidates ?d)
      \<and> ?f ''MSR_EXTRACT_CONFIDENCE_THRESHOLD'' (cf_confidence_threshold ?d)
      \<and> ?i ''MSR_MENTION_WRITE_BATCH_SIZE'' (cf_mention_write_batch_size ?d)
      \<and> ?i ''MSR_DISAMBIG_CONCURRENCY'' (cf_disambig_concurrency ?d)
      \<and> ?i ''MSR_SAFETY_MAX_CHUNK_TOKENS'' (cf_safety_max_chunk_tokens ?d)
      \<and> ?i ''MSR_SAFETY_SALIENCE_THRESHOLD'' (cf_safety_salience_threshold ?d) \<and> True"
    unfolding from_env_def Let_def by (rule bind_result_ok)+ simp
  then have "(\<exists>c. from_env env = Inr c) \<longleftrightarrow> bad_integers env = [] \<and> bad_floats env = []"
    unfolding env_int_Inr env_float_Inr by (simp add: bad_integers_def bad_floats_def conj_ac)
  then show ?thesis using from_env_outcome [of env] from_env_empty by auto
qed

lemma from_env_archive: "from_env env = Inr c \<Longrightarrow> cf_archive_subdir c = lit ''msr-archive''"
  by (auto simp: from_env_def Let_def bind_result_eq_Inr default_config_def)

end
