(* ===== verification/Flash_Client.thy ===== *)
theory Flash_Client
  imports Disambiguation Config
begin

text \<open>
  \<open>FlashClient\<close> of \<open>disambiguation.py\<close>: its settings, and \<open>_get_client\<close>, the double-checked lock that
  the workers of the pre-warming pool go through. A step is one access of a thread to the shared client
  or to the lock; threads interleave in any order. Making the client may raise, the \<open>n\<close>-th attempt
  gives \<open>build n\<close> (\<open>None\<close>: it raised).
\<close>

section \<open>Settings\<close>

record flash_settings =
  fs_base_url :: pystr
  fs_model :: pystr
  fs_api_key :: "pystr option"
  fs_timeout :: pyfloat
  fs_max_retries :: int

definition client_from_config :: "config \<Rightarrow> flash_settings option" where
  "client_from_config c = (if cf_deepseek_base_url c = [] then None
     else Some \<lparr>fs_base_url = cf_deepseek_base_url c, fs_model = cf_llm_model_extract c,
       fs_api_key = (if cf_deepseek_api_key c = [] then None else Some (cf_deepseek_api_key c)),
       fs_timeout = Fin 60, fs_max_retries = 5\<rparr>)"

text \<open>The key sent: a placeholder when there is none.\<close>

definition sent_api_key :: "flash_settings \<Rightarrow> pystr" where
  "sent_api_key fs = (case fs_api_key fs of None \<Rightarrow> lit ''unused'' | Some k \<Rightarrow> if k = [] then lit ''unused'' else k)"

text \<open>
  Making the client: the \<open>openai\<close> package is a parameter (\<open>openai n url key timeout retries\<close> is the \<open>n\<close>-th
  construction, \<open>None\<close> when it raises). \<open>complete\<close> sends one request through it and returns the reply's text.
\<close>

definition build_client ::
    "(nat \<Rightarrow> pystr \<Rightarrow> pystr \<Rightarrow> pyfloat \<Rightarrow> int \<Rightarrow> 'c option) \<Rightarrow> flash_settings \<Rightarrow> nat \<Rightarrow> 'c option" where
  "build_client openai fs n = openai n (fs_base_url fs) (sent_api_key fs) (fs_timeout fs) (fs_max_retries fs)"

definition flash_messages :: "pystr \<Rightarrow> pystr \<Rightarrow> json" where
  "flash_messages system_prompt user_prompt = JArr
     [JObj [(lit ''role'', JStr (lit ''system'')), (lit ''content'', JStr system_prompt)],
      JObj [(lit ''role'', JStr (lit ''user'')), (lit ''content'', JStr user_prompt)]]"

definition flash_complete ::
    "('c \<Rightarrow> pystr \<Rightarrow> json \<Rightarrow> json \<Rightarrow> 'e + pystr) \<Rightarrow> flash_settings \<Rightarrow> 'e + 'c \<Rightarrow> pystr \<Rightarrow> pystr \<Rightarrow> 'e + pystr" where
  "flash_complete create fs client system_prompt user_prompt = (case client of Inl e \<Rightarrow> Inl e
     | Inr c \<Rightarrow> create c (fs_model fs) (JObj [(lit ''type'', JStr (lit ''json_object''))]) (flash_messages system_prompt user_prompt))"

section \<open>The lock\<close>

text \<open>Where a thread is in \<open>_get_client\<close>.\<close>

datatype 'c spot = FirstCheck | Waiting | SecondCheck | Making | Unlocking | Failing | Reading | Returned "'c option" | Raised

record 'c flash =
  shared :: "'c option"
  lock :: "nat option"
  attempts :: nat
  made :: "'c list"
  threads :: "'c spot list"

definition start :: "nat \<Rightarrow> 'c flash" where
  "start n = \<lparr>shared = None, lock = None, attempts = 0, made = [], threads = replicate n FirstCheck\<rparr>"

definition go :: "nat \<Rightarrow> 'c spot \<Rightarrow> 'c flash \<Rightarrow> 'c flash" where
  "go i a s = s\<lparr>threads := (threads s)[i := a]\<rparr>"

abbreviation thread_at :: "'c flash \<Rightarrow> nat \<Rightarrow> 'c spot \<Rightarrow> bool" where
  "thread_at s i a \<equiv> i < length (threads s) \<and> threads s ! i = a"

inductive flash_step :: "(nat \<Rightarrow> 'c option) \<Rightarrow> 'c flash \<Rightarrow> 'c flash \<Rightarrow> bool" for build where
  first_none: "thread_at s i FirstCheck \<Longrightarrow> shared s = None \<Longrightarrow> flash_step build s (go i Waiting s)"
| first_some: "thread_at s i FirstCheck \<Longrightarrow> shared s \<noteq> None \<Longrightarrow> flash_step build s (go i Reading s)"
| acquire: "thread_at s i Waiting \<Longrightarrow> lock s = None \<Longrightarrow> flash_step build s (go i SecondCheck (s\<lparr>lock := Some i\<rparr>))"
| second_none: "thread_at s i SecondCheck \<Longrightarrow> shared s = None \<Longrightarrow> flash_step build s (go i Making s)"
| second_some: "thread_at s i SecondCheck \<Longrightarrow> shared s \<noteq> None \<Longrightarrow> flash_step build s (go i Unlocking s)"
| make_ok: "thread_at s i Making \<Longrightarrow> build (attempts s) = Some c \<Longrightarrow>
    flash_step build s (go i Unlocking (s\<lparr>shared := Some c, attempts := Suc (attempts s), made := made s @ [c]\<rparr>))"
| make_raises: "thread_at s i Making \<Longrightarrow> build (attempts s) = None \<Longrightarrow>
    flash_step build s (go i Failing (s\<lparr>attempts := Suc (attempts s)\<rparr>))"
| release: "thread_at s i Unlocking \<Longrightarrow> flash_step build s (go i Reading (s\<lparr>lock := None\<rparr>))"
| release_raising: "thread_at s i Failing \<Longrightarrow> flash_step build s (go i Raised (s\<lparr>lock := None\<rparr>))"
| read_client: "thread_at s i Reading \<Longrightarrow> flash_step build s (go i (Returned (shared s)) s)"

text \<open>The step of thread \<open>i\<close>, computed.\<close>

definition flash_move :: "(nat \<Rightarrow> 'c option) \<Rightarrow> nat \<Rightarrow> 'c flash \<Rightarrow> 'c flash option" where
  "flash_move build i s = (if i < length (threads s) then
     (case threads s ! i of
        FirstCheck \<Rightarrow> Some (go i (if shared s = None then Waiting else Reading) s)
      | Waiting \<Rightarrow> if lock s = None then Some (go i SecondCheck (s\<lparr>lock := Some i\<rparr>)) else None
      | SecondCheck \<Rightarrow> Some (go i (if shared s = None then Making else Unlocking) s)
      | Making \<Rightarrow> (case build (attempts s) of
            Some c \<Rightarrow> Some (go i Unlocking (s\<lparr>shared := Some c, attempts := Suc (attempts s), made := made s @ [c]\<rparr>))
          | None \<Rightarrow> Some (go i Failing (s\<lparr>attempts := Suc (attempts s)\<rparr>)))
      | Unlocking \<Rightarrow> Some (go i Reading (s\<lparr>lock := None\<rparr>))
      | Failing \<Rightarrow> Some (go i Raised (s\<lparr>lock := None\<rparr>))
      | Reading \<Rightarrow> Some (go i (Returned (shared s)) s)
      | _ \<Rightarrow> None) else None)"

fun flash_run :: "(nat \<Rightarrow> 'c option) \<Rightarrow> nat list \<Rightarrow> 'c flash \<Rightarrow> 'c flash option" where
  "flash_run build [] s = Some s"
| "flash_run build (i # is) s = Option.bind (flash_move build i s) (flash_run build is)"

lemma flash_move_step: "flash_move build i s = Some s' \<Longrightarrow> flash_step build s s'"
  by (cases "threads s ! i"; cases "build (attempts s)")
    (auto simp: flash_move_def split: if_splits intro: flash_step.intros)

lemma flash_step_move: "flash_step build s s' \<Longrightarrow> \<exists>i. flash_move build i s = Some s'"
  by (induction rule: flash_step.induct) (rule_tac x = i in exI, clarsimp simp: flash_move_def)+

lemma flash_run_steps: "flash_run build is s = Some s' \<Longrightarrow> (flash_step build ^^ length is) s s'"
proof (induction "is" arbitrary: s)
  case (Cons i "is")
  from Cons.prems obtain t where "flash_move build i s = Some t" "flash_run build is t = Some s'"
    by (auto simp: Option.bind_eq_Some_conv)
  then show ?case using flash_move_step Cons.IH unfolding length_Cons by (blast intro: relpowp_Suc_I2)
qed simp

inductive_cases flash_stepE: "flash_step build s s'"

section \<open>The invariant\<close>

definition in_lock :: "'c spot \<Rightarrow> bool" where
  "in_lock a \<longleftrightarrow> a \<in> {SecondCheck, Making, Unlocking, Failing}"

definition at_ok :: "'c option \<Rightarrow> 'c spot \<Rightarrow> bool" where
  "at_ok c a \<longleftrightarrow> (case a of Making \<Rightarrow> c = None | Unlocking \<Rightarrow> c \<noteq> None | Reading \<Rightarrow> c \<noteq> None
     | Returned r \<Rightarrow> r = c \<and> c \<noteq> None | _ \<Rightarrow> True)"

definition flash_ok :: "'c flash \<Rightarrow> bool" where
  "flash_ok s \<longleftrightarrow> made s = (case shared s of None \<Rightarrow> [] | Some c \<Rightarrow> [c])
     \<and> (\<forall>i < length (threads s). lock s = Some i \<longleftrightarrow> in_lock (threads s ! i))
     \<and> (\<forall>i. lock s = Some i \<longrightarrow> i < length (threads s))
     \<and> (\<forall>i < length (threads s). at_ok (shared s) (threads s ! i))"

lemma go_simps [simp]:
  "shared (go i a s) = shared s" "lock (go i a s) = lock s" "made (go i a s) = made s" "attempts (go i a s) = attempts s"
  "threads (go i a s) = (threads s)[i := a]"
  by (simp_all add: go_def)

lemma flash_ok_start: "flash_ok (start n)"
  by (simp add: flash_ok_def start_def in_lock_def at_ok_def)

lemma alone_in_lock:
  assumes "flash_ok s" "i < length (threads s)" "in_lock (threads s ! i)" "j < length (threads s)" "in_lock (threads s ! j)"
  shows "i = j"
proof -
  have "lock s = Some i" "lock s = Some j" using assms unfolding flash_ok_def by blast+
  then show ?thesis by simp
qed

lemma others_out:
  assumes "flash_ok s" "i < length (threads s)" "in_lock (threads s ! i)"
  shows "\<forall>j < length (threads s). j \<noteq> i \<longrightarrow> \<not> in_lock (threads s ! j)"
  using alone_in_lock [OF assms] by blast

lemma flash_ok_make:
  assumes "flash_ok s" "thread_at s i Making"
  shows "flash_ok (go i Unlocking (s\<lparr>shared := Some c, attempts := Suc (attempts s), made := made s @ [c]\<rparr>))"
proof -
  have none: "shared s = None" using assms by (auto simp: flash_ok_def at_ok_def split: spot.splits)
  have "at_ok (Some c) (threads s ! j)" if "j < length (threads s)" "j \<noteq> i" for j
  proof -
    have "\<not> in_lock (threads s ! j)" using others_out [of s i] assms that by (auto simp: in_lock_def)
    moreover have "at_ok None (threads s ! j)" using assms(1) that(1) none by (auto simp: flash_ok_def)
    ultimately show ?thesis by (cases "threads s ! j") (auto simp: at_ok_def in_lock_def)
  qed
  then show ?thesis using assms none by (auto simp: flash_ok_def in_lock_def at_ok_def nth_list_update)
qed

lemma flash_ok_release:
  assumes "flash_ok s" "i < length (threads s)" "in_lock (threads s ! i)" "\<not> in_lock a" "at_ok (shared s) a"
  shows "flash_ok (go i a (s\<lparr>lock := None\<rparr>))"
proof -
  have "\<not> in_lock ((threads s)[i := a] ! j)" if "j < length (threads s)" for j
    using that assms(4) others_out [OF assms(1-3)] by (cases "j = i") auto
  moreover have "at_ok (shared s) ((threads s)[i := a] ! j)" if "j < length (threads s)" for j
    using that assms(1,5) unfolding flash_ok_def by (cases "j = i") auto
  ultimately show ?thesis using assms(1) by (simp add: flash_ok_def)
qed

lemma flash_ok_move:
  assumes "flash_ok s" "i < length (threads s)" "in_lock a = in_lock (threads s ! i)" "at_ok (shared s) a"
  shows "flash_ok (go i a s)"
proof -
  have "in_lock ((threads s)[i := a] ! j) = in_lock (threads s ! j)" for j
    using assms(2,3) by (cases "j = i") auto
  moreover have "at_ok (shared s) ((threads s)[i := a] ! j)" if "j < length (threads s)" for j
    using that assms(1,4) unfolding flash_ok_def by (cases "j = i") auto
  ultimately show ?thesis using assms(1) by (simp add: flash_ok_def)
qed

lemma flash_ok_attempt: "flash_ok (s\<lparr>attempts := n\<rparr>) = flash_ok s"
  by (simp add: flash_ok_def)

lemma flash_ok_step: "flash_step build s s' \<Longrightarrow> flash_ok s \<Longrightarrow> flash_ok s'"
proof (induction rule: flash_step.induct)
  case (acquire s i)
  then show ?case by (auto simp: flash_ok_def in_lock_def at_ok_def nth_list_update)
next
  case (make_ok s i c)
  then show ?case by (blast intro: flash_ok_make)
next
  case (make_raises s i)
  then show ?case by (intro flash_ok_move) (auto simp: flash_ok_attempt in_lock_def at_ok_def)
next
  case (release s i)
  then have "at_ok (shared s) Unlocking" by (auto simp: flash_ok_def)
  with release show ?case by (intro flash_ok_release) (auto simp: in_lock_def at_ok_def)
next
  case (release_raising s i)
  then show ?case by (intro flash_ok_release) (auto simp: in_lock_def at_ok_def)
next
  case (second_some s i)
  then show ?case by (intro flash_ok_move) (auto simp: in_lock_def at_ok_def)
next
  case (read_client s i)
  then have "at_ok (shared s) Reading" by (auto simp: flash_ok_def)
  with read_client show ?case by (intro flash_ok_move) (auto simp: in_lock_def at_ok_def)
qed (intro flash_ok_move; auto simp: in_lock_def at_ok_def)+

section \<open>Runs\<close>

lemma flash_ok_reachable: "(flash_step build)\<^sup>*\<^sup>* (start n) s \<Longrightarrow> flash_ok s"
  by (induction rule: rtranclp_induct) (auto intro: flash_ok_start flash_ok_step)

lemma one_in_lock: "flash_ok s \<Longrightarrow> length (filter in_lock (threads s)) \<le> 1"
proof -
  assume ok: "flash_ok s"
  have "card {i. i < length (threads s) \<and> in_lock (threads s ! i)} \<le> Suc 0"
    using alone_in_lock [OF ok] by (subst card_le_Suc0_iff_eq) auto
  then show ?thesis by (simp add: length_filter_conv_card)
qed

text \<open>What a thread still has to do.\<close>

fun remaining_steps :: "'c spot \<Rightarrow> nat" where
  "remaining_steps FirstCheck = 6"
| "remaining_steps Waiting = 5"
| "remaining_steps SecondCheck = 4"
| "remaining_steps Making = 3"
| "remaining_steps Unlocking = 2"
| "remaining_steps Failing = 2"
| "remaining_steps Reading = 1"
| "remaining_steps _ = 0"

definition work_left :: "'c flash \<Rightarrow> nat" where
  "work_left s = sum_list (map remaining_steps (threads s))"

lemma sum_list_update_less:
  "i < length xs \<Longrightarrow> f a < f (xs ! i) \<Longrightarrow> sum_list (map f (xs[i := a])) < sum_list (map f xs)" for f :: "'a \<Rightarrow> nat"
proof (induction xs arbitrary: i)
  case (Cons x xs)
  then show ?case by (cases i) auto
qed simp

lemma step_works: "flash_step build s s' \<Longrightarrow> work_left s' < work_left s"
  unfolding work_left_def
  by (induction rule: flash_step.induct) (auto intro!: sum_list_update_less)

definition finished :: "'c spot \<Rightarrow> bool" where
  "finished a \<longleftrightarrow> remaining_steps a = 0"

text \<open>Unless all threads have finished some thread can move: the one in the lock, or any one that waits.\<close>

lemma not_stuck:
  assumes "flash_ok s" "\<not> list_all finished (threads s)"
  shows "\<exists>s'. flash_step build s s'"
proof -
  have moves: "\<exists>s'. flash_step build s s'" if "i < length (threads s)" "\<not> finished (threads s ! i)"
      "threads s ! i \<noteq> Waiting \<or> lock s = None" for i
  proof (cases "threads s ! i")
    case FirstCheck
    then show ?thesis using that first_none [of i s build] first_some [of i s build] by blast
  next
    case SecondCheck
    then show ?thesis using that second_none [of i s build] second_some [of i s build] by blast
  next
    case Making
    then show ?thesis using that make_ok [of i s build] make_raises [of i s build] by (cases "build (attempts s)") blast+
  qed (use that flash_step.intros [of i s build] in \<open>auto simp: finished_def\<close>)
  obtain i where i: "i < length (threads s)" "\<not> finished (threads s ! i)"
    using assms(2) by (auto simp: list_all_length)
  show ?thesis
  proof (cases "threads s ! i = Waiting \<and> lock s \<noteq> None")
    case True
    then obtain j where j: "lock s = Some j" by blast
    then have "j < length (threads s)" "in_lock (threads s ! j)" using assms(1) by (auto simp: flash_ok_def)
    then show ?thesis by (intro moves [of j]) (auto simp: finished_def in_lock_def)
  qed (use moves i in blast)
qed

lemma finished_stuck: "list_all finished (threads s) \<Longrightarrow> \<not> flash_step build s s'"
  by (auto elim!: flash_stepE simp: list_all_length finished_def)

definition raising :: "'c flash \<Rightarrow> bool" where
  "raising s \<longleftrightarrow> Failing \<in> set (threads s) \<or> Raised \<in> set (threads s)"

lemma raising_step: "flash_step build s s' \<Longrightarrow> raising s' \<Longrightarrow> raising s \<or> (\<exists>k. build k = None)"
proof (induction rule: flash_step.induct)
  case (release_raising s i)
  then have "Failing \<in> set (threads s)" by (metis nth_mem)
  then show ?case by (simp add: raising_def)
qed (auto simp: raising_def dest!: set_update_subset_insert [THEN subsetD])

lemma raise_needs_failure:
  "(flash_step build)\<^sup>*\<^sup>* (start n) s \<Longrightarrow> raising s \<Longrightarrow> \<exists>k. build k = None"
proof (induction rule: rtranclp_induct)
  case (step s s')
  then show ?case using raising_step by blast
qed (simp add: start_def raising_def)

lemma threads_kept: "(flash_step build)\<^sup>*\<^sup>* (start n) s \<Longrightarrow> length (threads s) = n"
  by (induction rule: rtranclp_induct) (auto simp: start_def elim!: flash_stepE)

lemma steps_bounded: "(flash_step build ^^ k) s s' \<Longrightarrow> k + work_left s' \<le> work_left s"
proof (induction k arbitrary: s')
  case (Suc k)
  then obtain t where "(flash_step build ^^ k) s t" "flash_step build t s'" by auto
  with Suc.IH [of t] step_works [of build t s'] show ?case by linarith
qed simp

lemma work_left_start: "work_left (start n) = 6 * n"
  by (simp add: work_left_def start_def sum_list_replicate)

text \<open>Where all threads have finished and none raised, each has the one shared client.\<close>

lemma finished_share:
  assumes "flash_ok s" "list_all finished (threads s)" "\<not> raising s" "threads s \<noteq> []"
  shows "\<exists>c. made s = [c] \<and> threads s = replicate (length (threads s)) (Returned (Some c))"
proof -
  have all: "threads s ! i = Returned (shared s) \<and> shared s \<noteq> None" if "i < length (threads s)" for i
  proof -
    have "finished (threads s ! i)" "at_ok (shared s) (threads s ! i)" using assms(1,2) that
      by (simp_all add: list_all_length flash_ok_def)
    moreover have "threads s ! i \<noteq> Raised" using assms(3) nth_mem [OF that] by (auto simp: raising_def)
    ultimately show ?thesis by (cases "threads s ! i") (auto simp: finished_def at_ok_def)
  qed
  from assms(4) all [of 0] obtain c where c: "shared s = Some c" by auto
  have "threads s = replicate (length (threads s)) (Returned (Some c))"
    using all c by (auto intro: nth_equalityI)
  moreover have "made s = [c]" using assms(1) c by (simp add: flash_ok_def)
  ultimately show ?thesis by blast
qed

section \<open>Properties\<close>

text \<open>C14. However the threads interleave, at most one client is ever made, at most one thread is between
  taking the lock and releasing it, and every call that returned, returned that client.\<close>

theorem client_built_once:
  assumes "(flash_step (build_client openai fs))\<^sup>*\<^sup>* (start n) s"
  shows "length (made s) \<le> 1 \<and> length (filter in_lock (threads s)) \<le> 1
    \<and> (\<forall>r. Returned r \<in> set (threads s) \<longrightarrow> r \<noteq> None \<and> made s = [the r])"
proof -
  have ok: "flash_ok s" using assms by (rule flash_ok_reachable)
  have "r \<noteq> None \<and> made s = [the r]" if "Returned r \<in> set (threads s)" for r
  proof -
    from that obtain i where "i < length (threads s)" "threads s ! i = Returned r" by (auto simp: in_set_conv_nth)
    then have "at_ok (shared s) (Returned r)" using ok unfolding flash_ok_def by metis
    then show ?thesis using ok by (auto simp: at_ok_def flash_ok_def)
  qed
  moreover have "length (made s) \<le> 1" using ok by (simp add: flash_ok_def split: option.splits)
  ultimately show ?thesis using one_in_lock [OF ok] by blast
qed


section \<open>A run of two threads\<close>

text \<open>Both find no client; thread 0 makes it while 1 waits for the lock, 1 then finds it at its second check.\<close>

definition flash_example :: flash_settings where
  "flash_example = \<lparr>fs_base_url = lit ''https://api'', fs_model = lit ''flash'', fs_api_key = None, fs_timeout = Fin 60, fs_max_retries = 5\<rparr>"

definition openai_example :: "nat \<Rightarrow> pystr \<Rightarrow> pystr \<Rightarrow> pyfloat \<Rightarrow> int \<Rightarrow> (nat \<times> pystr) option" where
  "openai_example n url key timeout retries = Some (n, key)"

definition flash_end :: "(nat \<times> pystr) flash" where
  "flash_end = \<lparr>shared = Some (0, lit ''unused''), lock = None, attempts = 1, made = [(0, lit ''unused'')],
     threads = [Returned (Some (0, lit ''unused'')), Returned (Some (0, lit ''unused''))]\<rparr>"

lemma flash_example_run:
  "flash_run (build_client openai_example flash_example) [0, 1, 0, 0, 0, 0, 1, 0, 1, 1, 1] (start 2) = Some flash_end"
  by (simp add: start_def flash_move_def go_def build_client_def openai_example_def flash_example_def sent_api_key_def
    flash_end_def numeral_2_eq_2)

lemma flash_example_steps: "(flash_step (build_client openai_example flash_example) ^^ 11) (start 2) flash_end"
proof -
  have "length [0, 1, 0, 0, 0, 0, 1, 0, 1, 1, 1::nat] = 11" by simp
  with flash_run_steps [OF flash_example_run] show ?thesis by metis
qed

theorem client_built_once_witness:
  "length (made flash_end) \<le> 1 \<and> length (filter in_lock (threads flash_end)) \<le> 1
    \<and> made flash_end = [(0, lit ''unused'')]"
  using client_built_once [OF relpowp_imp_rtranclp [OF flash_example_steps]] by (simp add: flash_end_def)


end
