(* ===== verification/Mining_Types.thy ===== *)
theory Mining_Types
  imports Slug Turtle
begin

text \<open>
  \<open>mining_types.py\<close> and \<open>corpora.py\<close>: the data the mining modules share, the slug of a term, and
  \<open>safe_type_ref\<close>, the one check between a string of the model and term position in an update.
\<close>

section \<open>Data\<close>

definition KIND_PROPERTY :: pystr where "KIND_PROPERTY = lit ''property''"
definition KIND_CLASS :: pystr where "KIND_CLASS = lit ''class''"
definition KIND_INSTANCE :: pystr where "KIND_INSTANCE = lit ''instance''"
definition KIND_RELATION :: pystr where "KIND_RELATION = lit ''relation''"
definition KIND_REJECT :: pystr where "KIND_REJECT = lit ''reject''"

definition VALID_KINDS :: "pystr list" where
  "VALID_KINDS = [KIND_PROPERTY, KIND_CLASS, KIND_INSTANCE, KIND_RELATION]"

lemmas kind_defs = KIND_PROPERTY_def KIND_CLASS_def KIND_INSTANCE_def KIND_RELATION_def KIND_REJECT_def

record evidence =
  ev_report :: pystr
  ev_document_iri :: pystr
  ev_sentence_text :: pystr
  ev_start_offset :: int
  ev_end_offset :: int

record observation =
  ob_document_iri :: pystr
  ob_corpus :: pystr
  ob_occurrence_count :: nat

record mined =
  ca_term :: pystr
  ca_source :: pystr
  ca_evidence :: "evidence list"
  ca_doc_frequency :: nat
  ca_surface_form :: pystr
  ca_observations :: "observation list"

record placement =
  broader_class :: "pystr option"
  quantity_kind :: "pystr option"
  canonical_unit :: "pystr option"
  pl_domain :: "pystr option"
  pl_range :: "pystr option"
  external_refs :: "pystr list"

definition no_placement :: placement where
  "no_placement = \<lparr>broader_class = None, quantity_kind = None, canonical_unit = None,
     pl_domain = None, pl_range = None, external_refs = []\<rparr>"

record triaged =
  tr_candidate :: mined
  tr_kind :: pystr
  tr_placement :: placement

section \<open>Corpora\<close>

definition CORPUS_CHEMISTRY :: pystr where "CORPUS_CHEMISTRY = lit ''msrd:corpus-chemistry''"
definition CORPUS_SAFETY :: pystr where "CORPUS_SAFETY = lit ''msrd:corpus-safety''"

definition corpus_for_genre :: "pystr \<Rightarrow> pystr" where
  "corpus_for_genre genre = (if genre = lit ''safety'' then CORPUS_SAFETY else CORPUS_CHEMISTRY)"

section \<open>Type references\<close>

definition SAFE_CURIE_PREFIXES :: "pystr list" where
  "SAFE_CURIE_PREFIXES = [lit ''msr'', lit ''msrd'', lit ''voc'']"

definition bare_char :: "nat \<Rightarrow> bool" where
  "bare_char c \<longleftrightarrow> is_alpha_ascii c \<or> is_ascii_digit c \<or> c = 95"

definition curie_char :: "nat \<Rightarrow> bool" where
  "curie_char c \<longleftrightarrow> bare_char c \<or> c = 45"

definition CURIE_LOCAL_RE :: "pystr \<Rightarrow> bool" where
  "CURIE_LOCAL_RE s \<longleftrightarrow> s \<noteq> [] \<and> is_alpha_ascii (hd s) \<and> list_all curie_char (tl s)"

definition BARE_LOCAL_RE :: "pystr \<Rightarrow> bool" where
  "BARE_LOCAL_RE s \<longleftrightarrow> s \<noteq> [] \<and> is_alpha_ascii (hd s) \<and> list_all bare_char (tl s)"

text \<open>\<open>FULL_IRI_UNSAFE_CHARS\<close>: angle brackets, the double quote, braces, bar, backslash, caret, backtick.\<close>

definition FULL_IRI_UNSAFE_CHARS :: "nat list" where
  "FULL_IRI_UNSAFE_CHARS = [60, 62, 34, 123, 125, 124, 92, 94, 96]"

definition safe_type_ref :: "pystr option \<Rightarrow> pystr option" where
  "safe_type_ref value = (case value of
       None \<Rightarrow> None
     | Some s \<Rightarrow>
         if s = [] then None
         else if has_sub (lit ''://'') s then
           (if list_ex is_space s then None
            else if list_ex (\<lambda>c. c < 32) s then None
            else if list_ex (\<lambda>c. c \<in> set FULL_IRI_UNSAFE_CHARS) s then None
            else Some (lit ''<'' @ s @ lit ''>''))
         else if 58 \<in> set s then
           (let p = takeWhile (\<lambda>c. c \<noteq> 58) s; l = after_first 58 s
            in if p \<in> set SAFE_CURIE_PREFIXES \<and> CURIE_LOCAL_RE l then Some s else None)
         else if BARE_LOCAL_RE s then Some (lit ''msr:'' @ s)
         else None)"

definition type_local_name :: "pystr \<Rightarrow> pystr" where
  "type_local_name type_ref =
     (if starts_with (lit ''<'') type_ref \<and> last type_ref = 62
      then (let inner = butlast (tl type_ref)
            in if 35 \<in> set inner then after_last 35 inner
               else if 47 \<in> set inner then after_last 47 inner else inner)
      else if 58 \<in> set type_ref then after_first 58 type_ref
      else type_ref)"

section \<open>Slugs\<close>

definition slug_alnum :: "nat \<Rightarrow> bool" where
  "slug_alnum c \<longleftrightarrow> is_lower c \<or> is_ascii_digit c"

text \<open>\<open>re.sub("[^a-z0-9]+", "-", s)\<close>.\<close>

function hyphenate_runs :: "pystr \<Rightarrow> pystr" where
  "hyphenate_runs [] = []"
| "hyphenate_runs (c # cs) = (if slug_alnum c then c # hyphenate_runs cs
     else 45 # hyphenate_runs (dropWhile (\<lambda>c. \<not> slug_alnum c) cs))"
  by pat_completeness auto
termination by (relation "measure length") (auto simp: less_Suc_eq_le length_dropWhile_le)

definition term_slug :: "pystr \<Rightarrow> pystr" where
  "term_slug term = strip_by (\<lambda>c. c = 45) (hyphenate_runs (lower_ascii term))"

section \<open>What a term may contain\<close>

definition iri_char :: "nat \<Rightarrow> bool" where
  "iri_char c \<longleftrightarrow> \<not> is_space c \<and> 32 \<le> c \<and> c \<notin> set FULL_IRI_UNSAFE_CHARS"

text \<open>An \<open>IRIREF\<close> or a prefixed name whose prefix is declared: one token, whatever follows.\<close>

definition sparql_term :: "pystr \<Rightarrow> bool" where
  "sparql_term t \<longleftrightarrow> (\<exists>i. t = 60 # i @ [62] \<and> list_all iri_char i)
     \<or> (\<exists>p l. t = p @ 58 # l \<and> p \<in> set SAFE_CURIE_PREFIXES \<and> l \<noteq> [] \<and> list_all curie_char l)"

lemma alpha_curie: "is_alpha_ascii c \<Longrightarrow> curie_char c"
  by (simp add: curie_char_def bare_char_def)

lemma CURIE_LOCAL_chars: "CURIE_LOCAL_RE s \<Longrightarrow> s \<noteq> [] \<and> list_all curie_char s"
  by (cases s) (auto simp: CURIE_LOCAL_RE_def alpha_curie)

lemma BARE_LOCAL_chars: "BARE_LOCAL_RE s \<Longrightarrow> s \<noteq> [] \<and> list_all bare_char s"
  by (cases s) (auto simp: BARE_LOCAL_RE_def bare_char_def)

lemma split_colon: "58 \<in> set s \<Longrightarrow> s = takeWhile (\<lambda>c. c \<noteq> 58) s @ 58 # after_first 58 s"
proof -
  assume "58 \<in> set s"
  then have "dropWhile (\<lambda>c. c \<noteq> 58) s \<noteq> []" by auto
  then have "dropWhile (\<lambda>c. c \<noteq> 58) s = 58 # after_first 58 s"
    using hd_dropWhile [of "\<lambda>c. c \<noteq> 58" s] by (cases "dropWhile (\<lambda>c. c \<noteq> 58) s") (auto simp: after_first_def)
  then show ?thesis using takeWhile_dropWhile_id [of "\<lambda>c. c \<noteq> 58" s] by simp
qed

lemma safe_type_ref_cases:
  assumes "safe_type_ref v = Some t"
  obtains (iri) s where "v = Some s" "t = 60 # s @ [62]" "list_all iri_char s" "has_sub (lit ''://'') s"
  | (curie) p l where "v = Some (p @ 58 # l)" "t = p @ 58 # l" "p \<in> set SAFE_CURIE_PREFIXES" "CURIE_LOCAL_RE l"
  | (bare) s where "v = Some s" "t = lit ''msr:'' @ s" "BARE_LOCAL_RE s"
proof -
  obtain s where s: "v = Some s" using assms by (cases v) (auto simp: safe_type_ref_def)
  show ?thesis
  proof (cases "has_sub (lit ''://'') s")
    case True
    then have "t = 60 # s @ [62]" "list_all iri_char s"
      using assms s by (auto simp: safe_type_ref_def list_all_iff list_ex_iff iri_char_def not_less lit_def split: if_splits)
    then show ?thesis using iri s True by blast
  next
    case no_iri: False
    show ?thesis
    proof (cases "58 \<in> set s")
      case True
      then have "t = s" "takeWhile (\<lambda>c. c \<noteq> 58) s \<in> set SAFE_CURIE_PREFIXES" "CURIE_LOCAL_RE (after_first 58 s)"
        using assms s no_iri by (auto simp: safe_type_ref_def Let_def split: if_splits)
      then show ?thesis using curie s split_colon [OF True] by metis
    next
      case False
      then have "t = lit ''msr:'' @ s" "BARE_LOCAL_RE s"
        using assms s no_iri by (auto simp: safe_type_ref_def split: if_splits)
      then show ?thesis using bare s by blast
    qed
  qed
qed

lemma curie_not_space: "curie_char c \<Longrightarrow> \<not> is_space c"
  by (auto simp: curie_char_def bare_char_def is_alpha_ascii_def is_upper_def is_lower_def is_ascii_digit_def is_space_def)

lemma sparql_term_no_space: "sparql_term t \<Longrightarrow> list_all (\<lambda>c. \<not> is_space c) t"
proof -
  have "list_all (\<lambda>c. \<not> is_space c) p" if "p \<in> set SAFE_CURIE_PREFIXES" for p
    using that by (auto simp: SAFE_CURIE_PREFIXES_def lit_def is_space_def)
  then show "sparql_term t \<Longrightarrow> list_all (\<lambda>c. \<not> is_space c) t"
    by (auto simp: sparql_term_def iri_char_def is_space_def [of 60] is_space_def [of 62] is_space_def [of 58]
        list_all_iff curie_not_space)
qed

lemma safe_type_ref_term: "safe_type_ref v = Some t \<Longrightarrow> sparql_term t"
proof (erule safe_type_ref_cases)
  fix s
  assume s: "t = lit ''msr:'' @ s" "BARE_LOCAL_RE s"
  have "list_all curie_char s"
    using BARE_LOCAL_chars [OF s(2)] by (auto simp: list_all_iff curie_char_def)
  then have "t = lit ''msr'' @ 58 # s \<and> lit ''msr'' \<in> set SAFE_CURIE_PREFIXES \<and> s \<noteq> [] \<and> list_all curie_char s"
    using s BARE_LOCAL_chars [OF s(2)] by (simp add: lit_def SAFE_CURIE_PREFIXES_def)
  then show "sparql_term t" unfolding sparql_term_def by blast
next
  fix p l
  assume "t = p @ 58 # l" "p \<in> set SAFE_CURIE_PREFIXES" "CURIE_LOCAL_RE l"
  then show "sparql_term t" using CURIE_LOCAL_chars unfolding sparql_term_def by blast
qed (auto simp: sparql_term_def)

text \<open>C20. Whatever the model asserts as a type, what reaches term position of an update is a single
  token without any white space: an IRI reference with no character that could close it, or a name
  with a declared prefix. It is the asserted string itself, at most bracketed or prefixed, and
  anything else is refused.\<close>

theorem safe_type_ref_one_term:
  "pred_option (\<lambda>t. sparql_term t \<and> list_all (\<lambda>c. \<not> is_space c) t) (safe_type_ref v)
   \<and> (safe_type_ref v = None \<or> (\<exists>s. v = Some s \<and>
        (safe_type_ref v = Some s \<or> safe_type_ref v = Some (lit ''msr:'' @ s)
         \<or> safe_type_ref v = Some (lit ''<'' @ s @ lit ''>''))))"
proof (cases "safe_type_ref v")
  case (Some t)
  from Some have "\<exists>s. v = Some s \<and> (t = s \<or> t = lit ''msr:'' @ s \<or> t = lit ''<'' @ s @ lit ''>'')"
    by (cases rule: safe_type_ref_cases) (auto simp: lit_def)
  then show ?thesis using Some safe_type_ref_term [OF Some] sparql_term_no_space by auto
qed simp

section \<open>Slugs are normal forms\<close>

lemma set_hyphenate_runs: "list_all (\<lambda>c. slug_alnum c \<or> c = 45) (hyphenate_runs s)"
  by (induction s rule: hyphenate_runs.induct) auto

lemma hyphenate_runs_no_pair: "\<not> has_sub [45, 45] (hyphenate_runs s)"
proof (induction s rule: hyphenate_runs.induct)
  case (2 c cs)
  have alnum45: "\<not> slug_alnum 45" by (simp add: slug_alnum_def is_lower_def is_ascii_digit_def)
  show ?case
  proof (cases "slug_alnum c")
    case True
    then show ?thesis using 2 alnum45 by (auto simp: starts_with_def)
  next
    case False
    let ?r = "dropWhile (\<lambda>c. \<not> slug_alnum c) cs"
    have "hyphenate_runs ?r = [] \<or> (\<exists>d ds. hyphenate_runs ?r = d # ds \<and> slug_alnum d)"
    proof (cases ?r)
      case (Cons d ds)
      then have "slug_alnum d" using hd_dropWhile [of "\<lambda>c. \<not> slug_alnum c" cs] by simp
      then show ?thesis using Cons by simp
    next
      case Nil
      show ?thesis unfolding Nil by simp
    qed
    then show ?thesis using 2 False alnum45 by (auto simp: starts_with_def)
  qed
qed simp

lemma hyphenate_runs_id:
  "list_all (\<lambda>c. slug_alnum c \<or> c = 45) s \<Longrightarrow> \<not> has_sub [45, 45] s \<Longrightarrow> hyphenate_runs s = s"
proof (induction s rule: hyphenate_runs.induct)
  case (2 c cs)
  show ?case
  proof (cases "slug_alnum c")
    case True
    then show ?thesis using 2 by simp
  next
    case False
    then have c: "c = 45" using 2 by simp
    have "dropWhile (\<lambda>c. \<not> slug_alnum c) cs = cs"
      using 2(3,4) c by (cases cs) (auto simp: starts_with_def)
    then show ?thesis using 2 False c by simp
  qed
qed simp

lemma lower_slug_id: "list_all (\<lambda>c. slug_alnum c \<or> c = 45) s \<Longrightarrow> lower_ascii s = s"
  by (induction s) (auto simp: lower_ascii_def lower_char_def slug_alnum_def is_upper_def is_lower_def is_ascii_digit_def)

text \<open>Slugs hold lower-case letters, digits and single inner hyphens, so they are local names, and
  slugging twice is slugging once.\<close>

lemma term_slug_normal:
  "list_all (\<lambda>c. slug_alnum c \<or> c = 45) (term_slug t) \<and> \<not> has_sub [45, 45] (term_slug t)
   \<and> (term_slug t = [] \<or> hd (term_slug t) \<noteq> 45 \<and> last (term_slug t) \<noteq> 45)
   \<and> term_slug (term_slug t) = term_slug t"
proof -
  let ?s = "term_slug t"
  have chars: "list_all (\<lambda>c. slug_alnum c \<or> c = 45) ?s"
    using set_hyphenate_runs [of "lower_ascii t"] set_strip_by [of "\<lambda>c. c = 45" "hyphenate_runs (lower_ascii t)"]
    by (auto simp: term_slug_def list_all_iff)
  have pair: "\<not> has_sub [45, 45] ?s"
    unfolding term_slug_def by (intro strip_by_no_pair hyphenate_runs_no_pair)
  have ends: "?s = [] \<or> hd ?s \<noteq> 45 \<and> last ?s \<noteq> 45"
    using strip_by_ends [of "\<lambda>c. c = 45" "hyphenate_runs (lower_ascii t)"] by (simp add: term_slug_def)
  have "term_slug ?s = strip_by (\<lambda>c. c = 45) ?s"
    unfolding term_slug_def [of ?s] lower_slug_id [OF chars] hyphenate_runs_id [OF chars pair] ..
  also have "\<dots> = ?s" using ends by (intro strip_by_id) simp
  finally show ?thesis using chars pair ends by blast
qed

text \<open>Different terms can share a slug, and then the IRI of their proposal.\<close>

lemma term_slug_collision: "term_slug (lit ''off-gas'') = term_slug (lit ''off gas'')"
  by (simp add: term_slug_def lower_ascii_def lower_char_def is_upper_def slug_alnum_def is_lower_def
      is_ascii_digit_def lit_def strip_by_def)

end
