(* ===== verification/Triage.thy ===== *)
theory Triage
  imports Mining_Types PyJson
begin

text \<open>
  \<open>triage.py\<close>: the prompt about one candidate and the reading of the reply. The model client and
  \<open>json.loads\<close> are arguments (\<open>None\<close>: an exception), and so is the context signal, a hint
  that only goes into the prompt.
\<close>

section \<open>The prompt\<close>

definition SAFETY_GENRE_GUIDANCE :: pystr where
  \<open>SAFETY_GENRE_GUIDANCE = concat
     [lit '' This candidate was mined from the SAFETY genre (nuclear safety-standard '',
      lit ''text: IAEA/GIF/ORNL safety-function and requirement documents), not the '',
      lit ''chemistry corpus. Safety-domain concepts are often multi-word '',
      lit ''prepositional phrases (e.g. "confinement of radioactive material", '',
      lit ''"removal of residual heat", "control of reactivity", "defence in '',
      lit ''depth") -- do NOT reject a domain-shaped safety phrase merely because '',
      lit ''it reads like standards boilerplate; reject only genuine non-concepts '',
      lit ''(OCR fragments, acronyms, proper nouns, bare citation/section-numbering '',
      lit ''text). If the confirmed kind is "class", set `broaderClass` to a Safety '',
      lit ''broader-class placement -- one of SafetyFunction, Requirement, '',
      lit ''Confinement, DefenceInDepth, or DesignBasis, whichever the candidate '',
      lit ''names or specializes. If the candidate is a linking relation between a '',
      lit ''safety function/requirement and a coolant physical property, or '',
      lit ''between a requirement and a safety function, confirm kind "relation" '',
      lit ''and set `domain`/`range` accordingly (e.g. domain SafetyFunction, range '',
      lit ''PhysicalProperty for a servedByProperty-shaped candidate; domain '',
      lit ''Requirement, range SafetyFunction for an addressesFunction-shaped '',
      lit ''candidate).'']\<close>

definition em_dash :: pystr where "em_dash = [8212]"

definition triage_prompt :: "mined \<Rightarrow> pystr option \<Rightarrow> pystr \<Rightarrow> pystr" where
  \<open>triage_prompt candidate signal genre = concat
     [lit ''Triage the following candidate term against the knowledge graph '',
      lit ''schema above and classify it into exactly one primary kind, or '',
      lit ''reject it if it is not a genuine novel ontology concept.'',
      (if genre = lit ''safety'' then SAFETY_GENRE_GUIDANCE else []), nl, nl,
      lit ''Candidate term: "'', ca_term candidate, lit ''"'', nl,
      lit ''Context-signal hint: '', (case signal of None \<Rightarrow> lit ''unclear'' | Some s \<Rightarrow> s), nl,
      lit ''Evidence sentences:'', nl,
      join nl (map (\<lambda>e. lit ''- "'' @ ev_sentence_text e @ lit ''"'') (ca_evidence candidate)), nl, nl,
      lit ''Respond with a single json object with this shape:'', nl,
      lit ''{"kind":"property|class|instance|relation|reject",'',
      lit ''"broaderClass":"<iri-or-label>?",'',
      lit ''"quantityKind":"<qk IRI>?",'',
      lit ''"canonicalUnit":"<unit IRI>?",'',
      lit ''"domain":"?","range":"?",'',
      lit ''"externalRefs":["..."]}'', nl, nl,
      lit ''Only fields relevant to the confirmed kind need be set; leave the '',
      lit ''rest unset. In particular, LEAVE canonicalUnit and quantityKind '',
      lit ''UNSET whenever the unit is ambiguous or not confidently known '', em_dash, lit '' '',
      lit ''do not guess a unit. Return "kind":"reject" (leaving every '',
      lit ''other field unset) if the candidate term is an OCR fragment, an '',
      lit ''acronym, a proper noun (a person, organization, or place name '',
      lit ''that slipped candidate enumeration), or generic boilerplate '', em_dash, lit '' '',
      lit ''i.e. not a real, novel ontology concept. Return only the json '',
      lit ''object, no other text.'']\<close>

section \<open>The reply\<close>

definition optional_str :: "json \<Rightarrow> pystr option" where
  "optional_str value = (case value of JStr s \<Rightarrow> if s = [] then None else Some s | _ \<Rightarrow> None)"

definition build_placement :: "(pystr \<times> json) list \<Rightarrow> placement" where
  "build_placement parsed =
     \<lparr>broader_class = optional_str (get_field parsed ''broaderClass''),
      quantity_kind = optional_str (get_field parsed ''quantityKind''),
      canonical_unit = optional_str (get_field parsed ''canonicalUnit''),
      pl_domain = optional_str (get_field parsed ''domain''),
      pl_range = optional_str (get_field parsed ''range''),
      external_refs = (case get_field parsed ''externalRefs'' of
         JArr items \<Rightarrow> List.map_filter as_str items | _ \<Rightarrow> [])\<rparr>"

definition classify :: "(pystr \<Rightarrow> json option) \<Rightarrow> (pystr \<Rightarrow> pystr \<Rightarrow> pystr option) \<Rightarrow>
    mined \<Rightarrow> pystr option \<Rightarrow> pystr \<Rightarrow> pystr \<Rightarrow> triaged option" where
  "classify loads ask candidate signal prompt_prefix genre =
     (case ask prompt_prefix (triage_prompt candidate signal genre) of
        None \<Rightarrow> None
      | Some raw \<Rightarrow>
          (case loads raw of
             Some (JObj parsed) \<Rightarrow>
               (case get_field parsed ''kind'' of
                  JStr kind \<Rightarrow>
                    if kind \<notin> set VALID_KINDS \<and> kind \<noteq> KIND_REJECT then None
                    else if kind = KIND_REJECT then
                      Some \<lparr>tr_candidate = candidate, tr_kind = KIND_REJECT, tr_placement = no_placement\<rparr>
                    else Some \<lparr>tr_candidate = candidate, tr_kind = kind, tr_placement = build_placement parsed\<rparr>
                | _ \<Rightarrow> None)
           | _ \<Rightarrow> None))"

definition triage_candidate :: "(mined \<Rightarrow> pystr option) \<Rightarrow> (pystr \<Rightarrow> json option) \<Rightarrow>
    (pystr \<Rightarrow> pystr \<Rightarrow> pystr option) \<Rightarrow> mined \<Rightarrow> pystr \<Rightarrow> pystr \<Rightarrow> triaged option" where
  "triage_candidate signal_kind loads ask candidate prompt_prefix genre =
     classify loads ask candidate (signal_kind candidate) prompt_prefix genre"

section \<open>Outcomes\<close>

lemma optional_str_nonempty: "optional_str j = Some s \<Longrightarrow> s \<noteq> []"
  by (auto simp: optional_str_def split: json.splits if_splits)

lemma placement_nonempty:
  "broader_class (build_placement d) \<noteq> Some []" "canonical_unit (build_placement d) \<noteq> Some []"
  "quantity_kind (build_placement d) \<noteq> Some []" "pl_domain (build_placement d) \<noteq> Some []"
  "pl_range (build_placement d) \<noteq> Some []"
  by (auto simp: build_placement_def dest: optional_str_nonempty)

definition routable :: "triaged \<Rightarrow> bool" where
  "routable t \<longleftrightarrow> tr_kind t \<in> set VALID_KINDS"

lemma reject_not_valid: "KIND_REJECT \<notin> set VALID_KINDS"
  by (simp add: VALID_KINDS_def kind_defs)

text \<open>A reply is dropped, or rejected with nothing to place, or routed with the candidate it is about.\<close>

lemma classify_cases:
  "classify loads ask c signal p genre = None
   \<or> classify loads ask c signal p genre =
       Some \<lparr>tr_candidate = c, tr_kind = KIND_REJECT, tr_placement = no_placement\<rparr>
   \<or> (\<exists>t. classify loads ask c signal p genre = Some t \<and> routable t \<and> tr_candidate t = c
       \<and> broader_class (tr_placement t) \<noteq> Some [] \<and> canonical_unit (tr_placement t) \<noteq> Some []
       \<and> quantity_kind (tr_placement t) \<noteq> Some [] \<and> pl_domain (tr_placement t) \<noteq> Some []
       \<and> pl_range (tr_placement t) \<noteq> Some [])"
proof -
  obtain out where out: "classify loads ask c signal p genre = out" by blast
  have "out = None \<or> out = Some \<lparr>tr_candidate = c, tr_kind = KIND_REJECT, tr_placement = no_placement\<rparr>
      \<or> (\<exists>kind parsed. kind \<in> set VALID_KINDS \<and>
          out = Some \<lparr>tr_candidate = c, tr_kind = kind, tr_placement = build_placement parsed\<rparr>)"
    using out unfolding classify_def by (auto split: option.splits json.splits if_splits)
  then show ?thesis unfolding out by (auto simp: routable_def placement_nonempty)
qed

lemma triage_keeps_candidate: "triage_candidate sig loads ask c p genre = Some t \<Longrightarrow> tr_candidate t = c"
  using classify_cases [of loads ask c "sig c" p genre] by (auto simp: triage_candidate_def)

end
