(* ===== verification/Mine_Provenance.thy ===== *)
theory Mine_Provenance
  imports Measurements Mining_Types
begin

text \<open>
  \<open>mine_provenance.py\<close> and \<open>auto_accept.py\<close>: the activity records and generation edges of a
  mining run, and the individuals written directly to the data graph.
\<close>

section \<open>Activities and generation edges\<close>

definition MINE_ACTIVITY_IRI :: pystr where "MINE_ACTIVITY_IRI = lit ''msrd:activity-mine''"
definition MINE_VERSION :: pystr where "MINE_VERSION = lit ''0.1.0''"
definition MINE_AGENT_IRI :: pystr where "MINE_AGENT_IRI = lit ''<agent:mine@'' @ MINE_VERSION @ lit ''>''"

definition mine_run_activity_iri :: "pystr \<Rightarrow> pystr" where
  "mine_run_activity_iri run_ts = lit ''<urn:msr:run:mine/'' @ run_ts @ lit ''>''"

definition mine_activity_insert_data :: "pystr \<Rightarrow> pystr" where
  \<open>mine_activity_insert_data run_ts = concat
     [ACTIVITY_PREFIXES, nl, lit ''INSERT DATA {'', nl, lit ''  GRAPH <urn:msr:provenance> {'', nl,
      lit ''    '', mine_run_activity_iri run_ts, lit '' a prov:Activity ;'', nl,
      lit ''        prov:wasAssociatedWith '', MINE_AGENT_IRI, lit '' ;'', nl,
      lit ''        prov:startedAtTime "'', run_ts, lit ''"^^xsd:dateTime ;'', nl,
      lit ''        prov:endedAtTime   "'', run_ts, lit ''"^^xsd:dateTime ;'', nl,
      lit ''        owl:versionInfo "'', MINE_VERSION, lit ''" .'', nl,
      lit ''  }'', nl, lit ''}'']\<close>

definition mine_stable_activity_insert_data :: pystr where
  \<open>mine_stable_activity_insert_data = concat
     [ACTIVITY_PREFIXES, nl, lit ''INSERT DATA {'', nl, lit ''  GRAPH <urn:msr:data> {'', nl,
      lit ''    '', MINE_ACTIVITY_IRI, lit '' a prov:Activity ;'', nl,
      lit ''        prov:wasAssociatedWith '', MINE_AGENT_IRI, lit '' ;'', nl,
      lit ''        owl:versionInfo "'', MINE_VERSION, lit ''" .'', nl,
      lit ''  }'', nl, lit ''}'']\<close>

definition generation_edges_insert_data :: "pystr list \<Rightarrow> pystr \<Rightarrow> pystr" where
  "generation_edges_insert_data fact_iris run_ts =
     insert_data_in PROVENANCE_PREFIXES (lit ''urn:msr:provenance'')
       (join nl (map (\<lambda>fact_iri. lit ''    '' @ fact_iri @ lit '' prov:wasGeneratedBy '' @
          mine_run_activity_iri run_ts @ lit '' .'') (sort fact_iris)))"

text \<open>The updates \<open>write_generation_edges\<close> sends.\<close>

definition generation_edge_updates :: "pystr list \<Rightarrow> pystr \<Rightarrow> pystr list" where
  "generation_edge_updates fact_iris run_ts =
     (if fact_iris = [] then [] else [generation_edges_insert_data fact_iris run_ts])"

section \<open>Individuals\<close>

definition CORE_TYPES :: "pystr list" where
  "CORE_TYPES = [lit ''msr:MoltenSalt'', lit ''msr:ChemicalCompound'', lit ''msr:Constituent'',
     lit ''msr:Substance'']"

record individual =
  in_iri :: pystr
  in_type_iri :: pystr
  in_document_iri :: pystr

definition individual_term :: "pystr \<Rightarrow> pystr" where
  "individual_term value =
     (if starts_with (lit ''<'') value \<or> has_sub (lit ''://'') value
      then (if starts_with (lit ''<'') value then value else lit ''<'' @ value @ lit ''>'')
      else value)"

definition individual_triples :: "individual \<Rightarrow> pystr" where
  "individual_triples ind = concat
     [individual_term (in_iri ind), lit '' a '', individual_term (in_type_iri ind), lit '' ;'', nl,
      lit ''    msr:autoAccepted true ;'', nl,
      lit ''    prov:wasGeneratedBy '', MINE_ACTIVITY_IRI, lit '' ;'', nl,
      lit ''    prov:wasDerivedFrom <'', in_document_iri ind, lit ''> .'']"

definition resolves_in_core :: "triaged \<Rightarrow> pystr set \<Rightarrow> bool" where
  "resolves_in_core triaged known_iris = (case broader_class (tr_placement triaged) of
       None \<Rightarrow> False
     | Some type_ref \<Rightarrow>
         if type_ref = [] then False
         else if type_ref \<in> set CORE_TYPES then True
         else type_ref \<in> known_iris)"

definition INDIVIDUAL_PREFIXES :: pystr where
  "INDIVIDUAL_PREFIXES = join nl
     [lit ''PREFIX msr: <https://w3id.org/msr-kg/ontology#>'',
      lit ''PREFIX msrd: <https://w3id.org/msr-kg/data#>'',
      lit ''PREFIX prov: <http://www.w3.org/ns/prov#>'',
      lit ''PREFIX xsd: <http://www.w3.org/2001/XMLSchema#>'']"

definition individuals_insert_data :: "individual list \<Rightarrow> pystr" where
  "individuals_insert_data individuals =
     insert_data_in INDIVIDUAL_PREFIXES (lit ''urn:msr:data'')
       (indent_block (join (nl @ nl) (map individual_triples (sort_key in_iri individuals))))"

text \<open>The updates \<open>write_auto_accepted\<close> sends.\<close>

definition auto_accepted_updates :: "individual list \<Rightarrow> pystr \<Rightarrow> pystr list" where
  "auto_accepted_updates individuals run_ts =
     (if individuals = [] then []
      else individuals_insert_data individuals # generation_edge_updates (map in_iri individuals) run_ts)"

end
