(* ===== verification/Proposals.thy ===== *)
theory Proposals
  imports Mine_Provenance "HOL-Library.Product_Lexorder"
begin

text \<open>
  \<open>proposals.py\<close>: the bundle of a proposed change, a resource with evidence and observations for
  the staging graph and axioms for a graph of its own, the two guards that reject a proposal as a
  whole, and the updates that write it.
\<close>

section \<open>Blocks\<close>

definition PROPOSAL_PREFIXES :: pystr where
  "PROPOSAL_PREFIXES = join nl
     [lit ''PREFIX msr: <https://w3id.org/msr-kg/ontology#>'',
      lit ''PREFIX msrd: <https://w3id.org/msr-kg/data#>'',
      lit ''PREFIX voc: <https://w3id.org/msr-kg/vocab#>'',
      lit ''PREFIX prov: <http://www.w3.org/ns/prov#>'',
      lit ''PREFIX rdfs: <http://www.w3.org/2000/01/rdf-schema#>'',
      lit ''PREFIX skos: <http://www.w3.org/2004/02/skos/core#>'',
      lit ''PREFIX owl: <http://www.w3.org/2002/07/owl#>'',
      lit ''PREFIX xsd: <http://www.w3.org/2001/XMLSchema#>'']"

definition evidence_iri :: "pystr \<Rightarrow> int \<Rightarrow> int \<Rightarrow> pystr" where
  "evidence_iri rep s e = lit ''msrd:evidence-'' @ rep @ lit ''-'' @ show_int s @ lit ''-'' @ show_int e"

record qudt_allowlist =
  al_units :: "pystr set"
  al_quantity_kinds :: "pystr set"

record proposal_bundle =
  pb_proposal_iri :: pystr
  pb_proposal_graph :: pystr
  pb_staging_triples :: pystr
  pb_graph_triples :: pystr
  pb_observation_iris :: "pystr list"

definition proposal_iri :: "pystr \<Rightarrow> pystr \<Rightarrow> pystr" where
  "proposal_iri kind slug = lit ''msrd:proposal-'' @ kind @ lit ''-'' @ slug"

definition proposal_graph :: "pystr \<Rightarrow> pystr \<Rightarrow> pystr" where
  "proposal_graph kind slug = lit ''urn:msr:proposal/'' @ kind @ lit ''-'' @ slug"

abbreviation evidence_node :: "evidence \<Rightarrow> pystr" where
  "evidence_node e \<equiv> evidence_iri (ev_report e) (ev_start_offset e) (ev_end_offset e)"

definition evidence_block :: "evidence \<Rightarrow> pystr" where
  \<open>evidence_block e = concat
     [evidence_node e, lit '' a msr:Evidence ;'', nl,
      lit ''    msr:evidenceText "'', escape_literal (ev_sentence_text e), lit ''"^^xsd:string ;'', nl,
      lit ''    msr:citedIn <'', ev_document_iri e, lit ''> ;'', nl,
      lit ''    msr:startOffset "'', show_int (ev_start_offset e), lit ''"^^xsd:integer ;'', nl,
      lit ''    msr:endOffset "'', show_int (ev_end_offset e), lit ''"^^xsd:integer .'']\<close>

definition doc_slug :: "pystr \<Rightarrow> pystr" where
  "doc_slug document =
     (let t = (if 35 \<in> set document then after_last 35 document else document);
          t = (if 47 \<in> set t then after_last 47 t else t)
      in term_slug t)"

definition observation_iri :: "pystr \<Rightarrow> pystr \<Rightarrow> pystr \<Rightarrow> pystr \<Rightarrow> pystr" where
  "observation_iri kind slug doc run = concat
     [lit ''msrd:obs-'', kind, lit ''-'', slug, lit ''-'', doc, lit ''-'', run]"

definition observation_block :: "observation \<Rightarrow> pystr \<Rightarrow> pystr \<Rightarrow> pystr" where
  \<open>observation_block ob iri run_ts = concat
     [iri, lit '' a msr:Observation ;'', nl,
      lit ''    msr:inDocument <'', ob_document_iri ob, lit ''> ;'', nl,
      lit ''    msr:occurrenceCount "'', show_nat (ob_occurrence_count ob), lit ''"^^xsd:integer ;'', nl,
      lit ''    msr:inCorpus '', ob_corpus ob, lit '' ;'', nl,
      lit ''    msr:observedInRun '', mine_run_activity_iri run_ts, lit '' ;'', nl,
      lit ''    prov:generatedAtTime "'', run_ts, lit ''"^^xsd:dateTime .'']\<close>

definition observation_key :: "observation \<Rightarrow> pystr list" where
  "observation_key ob = [ob_document_iri ob, ob_corpus ob]"

definition build_observations ::
    "observation list \<Rightarrow> pystr \<Rightarrow> pystr \<Rightarrow> pystr \<Rightarrow> pystr list \<times> pystr list" where
  "build_observations observations kind slug run_ts =
     (let run_slug = term_slug run_ts; ordered = sort_key observation_key observations;
          iri = (\<lambda>ob. observation_iri kind slug (doc_slug (ob_document_iri ob)) run_slug)
      in (map iri ordered, map (\<lambda>ob. observation_block ob (iri ob) run_ts) ordered))"

definition predicates_block :: "pystr \<Rightarrow> pystr list \<Rightarrow> pystr" where
  "predicates_block subject predicates = concat
     [subject, lit '' '', join (concat [lit '' ;'', nl, lit ''    '']) predicates, lit '' .'']"

definition staging_resource_block ::
    "triaged \<Rightarrow> pystr \<Rightarrow> pystr \<Rightarrow> evidence list \<Rightarrow> pystr list \<Rightarrow> pystr list \<Rightarrow> pystr" where
  \<open>staging_resource_block triaged iri graph evidence observation_iris observation_blocks =
     (let predicates =
        [lit ''a msr:ChangeProposal'',
         lit ''msr:kind "'' @ escape_literal (tr_kind triaged) @ lit ''"^^xsd:string'',
         lit ''msr:reviewStatus "pending"^^xsd:string'',
         lit ''msr:term "'' @ escape_literal (ca_term (tr_candidate triaged)) @ lit ''"^^xsd:string'',
         lit ''msr:hasProposalGraph "'' @ graph @ lit ''"^^xsd:anyURI''] @
        (if observation_iris = [] then []
         else [lit ''msr:hasObservation '' @ join (lit '', '') observation_iris]) @
        (if evidence = [] then []
         else [lit ''msr:hasEvidence '' @ join (lit '', '') (map evidence_node evidence)])
      in join (nl @ nl) (predicates_block iri predicates # map evidence_block evidence @ observation_blocks))\<close>

section \<open>Axioms\<close>

definition is_set :: "pystr option \<Rightarrow> bool" where
  "is_set v \<longleftrightarrow> v \<noteq> None \<and> v \<noteq> Some []"

definition property_block :: "pystr \<Rightarrow> pystr \<Rightarrow> placement \<Rightarrow> pystr" where
  \<open>property_block term slug pl =
     (let label = escape_literal term;
          predicates =
            [lit ''a msr:PhysicalProperty'', lit ''rdfs:label "'' @ label @ lit ''"^^xsd:string''] @
            (if is_set (canonical_unit pl)
             then [lit ''msr:canonicalUnit <'' @ the (canonical_unit pl) @ lit ''>''] else []) @
            (if is_set (quantity_kind pl)
             then [lit ''msr:quantityKind <'' @ the (quantity_kind pl) @ lit ''>''] else [])
      in concat
        [predicates_block (lit ''msr:'' @ slug) predicates, nl, nl,
         lit ''voc:'', slug, lit '' a skos:Concept ;'', nl,
         lit ''    skos:prefLabel "'', label, lit ''"^^xsd:string .''])\<close>

definition reject_external_iri :: "pystr option \<Rightarrow> bool" where
  "reject_external_iri t \<longleftrightarrow> (case t of None \<Rightarrow> False | Some s \<Rightarrow> starts_with (lit ''<'') s)"

definition ends_with :: "pystr \<Rightarrow> pystr \<Rightarrow> bool" where
  "ends_with w s \<longleftrightarrow> drop (length s - length w) s = w"

definition companion_relation_name :: "pystr \<Rightarrow> pystr" where
  "companion_relation_name name =
     (if name = [] then name
      else (let lowered = lower_char (hd name) @ tl name;
                stem = (if ends_with (lit ''or'') lowered \<or> ends_with (lit ''er'') lowered
                  then take (length lowered - 2) lowered else lowered)
            in stem @ lit ''edBy''))"

definition class_block :: "placement \<Rightarrow> pystr option" where
  \<open>class_block pl =
     (if \<not> is_set (broader_class pl) then Some []
      else (let class_term = safe_type_ref (broader_class pl)
            in if class_term = None \<or> reject_external_iri class_term then None
               else (let t = the class_term; label = type_local_name t;
                         relation_name = companion_relation_name label
                     in Some (concat
                       [t, lit '' a owl:Class ;'', nl,
                        lit ''    rdfs:label "'', escape_literal label, lit ''"^^xsd:string .'', nl, nl,
                        lit ''msr:'', relation_name, lit '' a owl:ObjectProperty ;'', nl,
                        lit ''    rdfs:range '', t, lit '' .'']))))\<close>

definition relation_block :: "pystr \<Rightarrow> placement \<Rightarrow> pystr option" where
  "relation_block slug pl =
     (let dom_term = safe_type_ref (pl_domain pl); range_term = safe_type_ref (pl_range pl)
      in if is_set (pl_domain pl) \<and> (dom_term = None \<or> reject_external_iri dom_term) then None
         else if is_set (pl_range pl) \<and> (range_term = None \<or> reject_external_iri range_term) then None
         else Some (predicates_block (lit ''msr:'' @ slug)
           ([lit ''a owl:ObjectProperty''] @
            (if is_set (pl_domain pl) then [lit ''rdfs:domain '' @ the dom_term] else []) @
            (if is_set (pl_range pl) then [lit ''rdfs:range '' @ the range_term] else []))))"

definition proposal_graph_triples :: "triaged \<Rightarrow> pystr \<Rightarrow> pystr option" where
  "proposal_graph_triples triaged slug =
     (if tr_kind triaged = KIND_PROPERTY
      then Some (property_block (ca_term (tr_candidate triaged)) slug (tr_placement triaged))
      else if tr_kind triaged = KIND_CLASS then class_block (tr_placement triaged)
      else if tr_kind triaged = KIND_RELATION then relation_block slug (tr_placement triaged)
      else Some [])"

section \<open>The bundle\<close>

definition evidence_key :: "evidence \<Rightarrow> pystr \<times> int \<times> int" where
  "evidence_key e = (ev_report e, ev_start_offset e, ev_end_offset e)"

definition build_proposal_bundle :: "triaged \<Rightarrow> qudt_allowlist \<Rightarrow> pystr \<Rightarrow> proposal_bundle option" where
  "build_proposal_bundle triaged allowlist run_ts =
     (let pl = tr_placement triaged
      in if is_set (canonical_unit pl) \<and> the (canonical_unit pl) \<notin> al_units allowlist then None
         else if is_set (quantity_kind pl) \<and> the (quantity_kind pl) \<notin> al_quantity_kinds allowlist then None
         else (let kind = tr_kind triaged; slug = term_slug (ca_term (tr_candidate triaged))
               in case proposal_graph_triples triaged slug of
                    None \<Rightarrow> None
                  | Some graph_triples \<Rightarrow>
                      (let iri = proposal_iri kind slug; graph = proposal_graph kind slug;
                           evidence = sort_key evidence_key (ca_evidence (tr_candidate triaged));
                           (iris, blocks) = build_observations (ca_observations (tr_candidate triaged)) kind slug run_ts
                       in Some \<lparr>pb_proposal_iri = iri, pb_proposal_graph = graph,
                            pb_staging_triples = staging_resource_block triaged iri graph evidence iris blocks,
                            pb_graph_triples = graph_triples, pb_observation_iris = iris\<rparr>)))"

text \<open>The updates \<open>write_proposal\<close> sends.\<close>

definition proposal_updates :: "proposal_bundle \<Rightarrow> pystr \<Rightarrow> pystr list" where
  "proposal_updates bundle extra_proposal_triples =
     insert_data_in PROPOSAL_PREFIXES (lit ''urn:msr:staging'') (indent_block (pb_staging_triples bundle)) #
     (let parts = filter (\<lambda>p. p \<noteq> []) [pb_graph_triples bundle, extra_proposal_triples]
      in if parts = [] then []
         else [insert_data_in PROPOSAL_PREFIXES (pb_proposal_graph bundle)
           (indent_block (join (nl @ nl) parts))])"

section \<open>The guards\<close>

text \<open>A reference a proposal may assert: unset, or one term of the project's own namespaces.\<close>

definition own_term :: "pystr option \<Rightarrow> bool" where
  "own_term v \<longleftrightarrow> \<not> is_set v \<or> pred_option (\<lambda>t. \<not> starts_with (lit ''<'') t) (safe_type_ref v) \<and> safe_type_ref v \<noteq> None"

definition unit_ok :: "qudt_allowlist \<Rightarrow> placement \<Rightarrow> bool" where
  "unit_ok allowlist pl \<longleftrightarrow> (\<not> is_set (canonical_unit pl) \<or> the (canonical_unit pl) \<in> al_units allowlist)
     \<and> (\<not> is_set (quantity_kind pl) \<or> the (quantity_kind pl) \<in> al_quantity_kinds allowlist)"

definition refs_ok :: "pystr \<Rightarrow> placement \<Rightarrow> bool" where
  "refs_ok kind pl \<longleftrightarrow>
     (if kind = KIND_CLASS then own_term (broader_class pl)
      else if kind = KIND_RELATION then own_term (pl_domain pl) \<and> own_term (pl_range pl) else True)"

lemma kinds_distinct:
  "KIND_PROPERTY \<noteq> KIND_CLASS" "KIND_PROPERTY \<noteq> KIND_RELATION" "KIND_CLASS \<noteq> KIND_RELATION"
  "KIND_PROPERTY \<noteq> KIND_INSTANCE" "KIND_CLASS \<noteq> KIND_INSTANCE" "KIND_RELATION \<noteq> KIND_INSTANCE"
  by (simp_all add: kind_defs)

lemma class_block_None: "class_block pl = None \<longleftrightarrow> \<not> own_term (broader_class pl)"
  by (auto simp: class_block_def own_term_def reject_external_iri_def Let_def split: option.splits)

lemma relation_block_None: "relation_block slug pl = None \<longleftrightarrow> \<not> (own_term (pl_domain pl) \<and> own_term (pl_range pl))"
  by (auto simp: relation_block_def own_term_def reject_external_iri_def Let_def split: option.splits)

lemma proposal_graph_triples_None:
  "proposal_graph_triples tr slug = None \<longleftrightarrow> \<not> refs_ok (tr_kind tr) (tr_placement tr)"
  using kinds_distinct
  by (auto simp: proposal_graph_triples_def refs_ok_def class_block_None relation_block_None)

lemma build_proposal_bundle_eq:
  "build_proposal_bundle tr allow ts =
     (if unit_ok allow (tr_placement tr) \<and> refs_ok (tr_kind tr) (tr_placement tr)
      then let slug = term_slug (ca_term (tr_candidate tr));
               iri = proposal_iri (tr_kind tr) slug; graph = proposal_graph (tr_kind tr) slug;
               obs = build_observations (ca_observations (tr_candidate tr)) (tr_kind tr) slug ts
           in Some \<lparr>pb_proposal_iri = iri, pb_proposal_graph = graph,
                pb_staging_triples = staging_resource_block tr iri graph
                  (sort_key evidence_key (ca_evidence (tr_candidate tr))) (fst obs) (snd obs),
                pb_graph_triples = the (proposal_graph_triples tr slug), pb_observation_iris = fst obs\<rparr>
      else None)"
  using proposal_graph_triples_None [of tr "term_slug (ca_term (tr_candidate tr))"]
  by (cases "proposal_graph_triples tr (term_slug (ca_term (tr_candidate tr)))")
    (auto simp: build_proposal_bundle_def unit_ok_def Let_def split: prod.split)

section \<open>Properties\<close>

text \<open>Two candidates that differ in the order of their evidence and observations only.\<close>

definition same_triaged :: "triaged \<Rightarrow> triaged \<Rightarrow> bool" where
  "same_triaged t t' \<longleftrightarrow> tr_kind t = tr_kind t' \<and> tr_placement t = tr_placement t'
     \<and> ca_term (tr_candidate t) = ca_term (tr_candidate t')
     \<and> mset (ca_evidence (tr_candidate t)) = mset (ca_evidence (tr_candidate t'))
     \<and> distinct (map evidence_key (ca_evidence (tr_candidate t)))
     \<and> mset (ca_observations (tr_candidate t)) = mset (ca_observations (tr_candidate t'))
     \<and> distinct (map observation_key (ca_observations (tr_candidate t)))"

lemma same_triaged_bundle:
  assumes "same_triaged t t'"
  shows "build_proposal_bundle t allow ts = build_proposal_bundle t' allow ts"
proof -
  have eqs: "tr_kind t = tr_kind t'" "tr_placement t = tr_placement t'"
      "ca_term (tr_candidate t) = ca_term (tr_candidate t')"
    using assms by (simp_all add: same_triaged_def)
  have evidence: "sort_key evidence_key (ca_evidence (tr_candidate t)) = sort_key evidence_key (ca_evidence (tr_candidate t'))"
    using assms by (intro sort_key_perm) (simp_all add: same_triaged_def)
  have "sort_key observation_key (ca_observations (tr_candidate t)) = sort_key observation_key (ca_observations (tr_candidate t'))"
    using assms by (intro sort_key_perm) (simp_all add: same_triaged_def)
  then have obs: "build_observations (ca_observations (tr_candidate t)) = build_observations (ca_observations (tr_candidate t'))"
    by (intro ext) (simp only: build_observations_def)
  have "proposal_graph_triples t = proposal_graph_triples t'" "staging_resource_block t = staging_resource_block t'"
    by (intro ext, simp only: proposal_graph_triples_def staging_resource_block_def eqs)+
  then show ?thesis by (simp only: build_proposal_bundle_eq eqs evidence obs)
qed

text \<open>What a proposal asserts about its types is a prefixed name of the project's namespaces.\<close>

lemma own_term_curie:
  assumes "own_term v" "is_set v"
  shows "\<exists>p l. safe_type_ref v = Some (p @ 58 # l) \<and> p \<in> set SAFE_CURIE_PREFIXES \<and> l \<noteq> [] \<and> list_all curie_char l"
proof -
  obtain t where t: "safe_type_ref v = Some t" "\<not> starts_with (lit ''<'') t"
    using assms by (auto simp: own_term_def)
  have "sparql_term t" using t(1) by (rule safe_type_ref_term)
  moreover have "\<nexists>i. t = 60 # i @ [62]" using t(2) by (auto simp: starts_with_def lit_def)
  ultimately show ?thesis using t(1) by (auto simp: sparql_term_def)
qed

lemma observation_iri_run:
  "length run = length run' \<Longrightarrow> observation_iri k s d run = observation_iri k s d' run' \<Longrightarrow> run = run'"
  by (simp add: observation_iri_def)

lemma observation_iris_other_run:
  assumes "length (term_slug ts) = length (term_slug ts')" "term_slug ts \<noteq> term_slug ts'"
  shows "set (fst (build_observations obs k s ts)) \<inter> set (fst (build_observations obs' k s ts')) = {}"
  using assms observation_iri_run by (fastforce simp: build_observations_def Let_def)


definition sample_evidence :: "int \<Rightarrow> evidence" where
  "sample_evidence i = \<lparr>ev_report = lit ''ORNL-1'', ev_document_iri = lit ''https://w3id.org/msr-kg/data#ORNL-1'',
     ev_sentence_text = lit ''graphite moderator'', ev_start_offset = i, ev_end_offset = i + 18\<rparr>"

definition sample_observation :: observation where
  "sample_observation = \<lparr>ob_document_iri = lit ''https://w3id.org/msr-kg/data#ORNL-1'',
     ob_corpus = CORPUS_CHEMISTRY, ob_occurrence_count = 3\<rparr>"

definition sample_triaged :: "evidence list \<Rightarrow> triaged" where
  "sample_triaged es = \<lparr>tr_candidate = \<lparr>ca_term = lit ''graphite'', ca_source = lit ''lexical'', ca_evidence = es,
     ca_doc_frequency = 1, ca_surface_form = [], ca_observations = [sample_observation]\<rparr>,
     tr_kind = KIND_CLASS, tr_placement = no_placement\<lparr>broader_class := Some (lit ''Moderator'')\<rparr>\<rparr>"


end
