(* ===== verification/Terms.thy ===== *)
theory Terms
  imports Mining_Types PyRegex
begin

text \<open>
  The texts side of \<open>novelty.py\<close>: tokens, n-grams, the noun-chunk and the lexical pass over the
  segments, and the two scans of the corpus. A spaCy document is the record of what the code
  reads of it; \<open>str.casefold\<close> on arbitrary text is an argument, on the ASCII tokens the patterns
  match it is \<open>lower_ascii\<close>. A file is its identifier and its text.
\<close>

section \<open>Tokens and n-grams\<close>

definition STOPWORDS :: "pystr list" where
  "STOPWORDS =
     [lit ''the'', lit ''and'', lit ''for'', lit ''with'', lit ''that'', lit ''this'',
      lit ''from'', lit ''was'', lit ''were'', lit ''are'', lit ''been'', lit ''being'',
      lit ''have'', lit ''has'', lit ''had'', lit ''not'', lit ''but'', lit ''can'',
      lit ''could'', lit ''would'', lit ''should'', lit ''will'', lit ''shall'', lit ''may'',
      lit ''might'', lit ''must'', lit ''than'', lit ''then'', lit ''when'', lit ''where'',
      lit ''which'', lit ''while'', lit ''who'', lit ''whom'', lit ''these'', lit ''those'',
      lit ''there'', lit ''their'', lit ''them'', lit ''they'', lit ''its'', lit ''into'',
      lit ''onto'', lit ''over'', lit ''under'', lit ''such'', lit ''also'', lit ''each'',
      lit ''any'', lit ''all'', lit ''some'', lit ''more'', lit ''most'', lit ''other'',
      lit ''only'', lit ''own'', lit ''same'', lit ''too'', lit ''very'', lit ''just'',
      lit ''about'', lit ''above'', lit ''after'', lit ''again'', lit ''against'',
      lit ''between'', lit ''during'', lit ''before'', lit ''below'', lit ''because'',
      lit ''does'', lit ''did'', lit ''doing'']"

definition TOKEN_RE :: rx where
  "TOKEN_RE = Cats [Plus (Chr is_alpha_ascii),
     Star (Cats [Chr (\<lambda>c. c = 45 \<or> c = 39), Plus (Chr is_alpha_ascii)])]"

definition tokenize :: "pystr \<Rightarrow> pystr list" where
  "tokenize text = filter (\<lambda>tok. 3 \<le> length tok \<and> tok \<notin> set STOPWORDS) (map lower_ascii (findall TOKEN_RE text))"

definition NGRAM_SIZES :: "nat list" where "NGRAM_SIZES = [1, 2, 3]"

definition windows :: "nat \<Rightarrow> pystr list \<Rightarrow> pystr list" where
  "windows n tokens = (if length tokens < n then []
     else map (\<lambda>i. join (lit '' '') (take n (drop i tokens))) [0..<length tokens - n + 1])"

definition keep_first :: "'a list \<Rightarrow> 'a list" where
  "keep_first xs = fold (\<lambda>x terms. if x \<in> set terms then terms else terms @ [x]) xs []"

definition ngrams :: "pystr list \<Rightarrow> pystr list" where
  "ngrams tokens = keep_first (concat (map (\<lambda>n. windows n tokens) NGRAM_SIZES))"

definition terms_in_text :: "pystr \<Rightarrow> pystr list" where
  "terms_in_text text = ngrams (tokenize text)"

definition term_multiset :: "pystr \<Rightarrow> pystr list" where
  "term_multiset text = concat (map (\<lambda>n. windows n (tokenize text)) NGRAM_SIZES)"

section \<open>Evidence\<close>

record seg_line =
  sl_report :: pystr
  sl_char_start :: int
  sl_text :: pystr

definition segment_evidence :: "seg_line \<Rightarrow> evidence" where
  "segment_evidence s = \<lparr>ev_report = sl_report s, ev_document_iri = MSRD @ sl_report s,
     ev_sentence_text = sl_text s, ev_start_offset = sl_char_start s,
     ev_end_offset = sl_char_start s + int (length (sl_text s))\<rparr>"

text \<open>\<open>bucket.setdefault((report, char_start), evidence)\<close> in the bucket of a term.\<close>

definition add_to_bucket :: "evidence \<Rightarrow> evidence list \<Rightarrow> evidence list" where
  "add_to_bucket e bucket =
     (if list_ex (\<lambda>x. ev_report x = ev_report e \<and> ev_start_offset x = ev_start_offset e) bucket
      then bucket else bucket @ [e])"

fun add_evidence :: "pystr \<Rightarrow> evidence \<Rightarrow> (pystr \<times> evidence list) list \<Rightarrow> (pystr \<times> evidence list) list" where
  "add_evidence term e [] = [(term, [e])]"
| "add_evidence term e ((t, bucket) # terms) =
     (if t = term then (t, add_to_bucket e bucket) # terms else (t, bucket) # add_evidence term e terms)"

definition enumerate_lexical_terms :: "seg_line list \<Rightarrow> (pystr \<times> evidence list) list" where
  "enumerate_lexical_terms segs = fold (\<lambda>s terms.
     fold (\<lambda>term terms. add_evidence term (segment_evidence s) terms) (terms_in_text (sl_text s)) terms) segs []"

section \<open>Noun chunks\<close>

record token =
  tk_text :: pystr
  tk_lemma :: pystr
  tk_is_alpha :: bool
  tk_is_stop :: bool
  tk_ent_type :: pystr
  tk_pos :: pystr

record doc =
  d_tokens :: "token list"
  d_noun_chunks :: "(nat \<times> nat) list"
  d_span_text :: "nat \<Rightarrow> nat \<Rightarrow> pystr"

definition DROPPED_ENT_TYPES :: "pystr list" where
  "DROPPED_ENT_TYPES =
     [lit ''PERSON'', lit ''ORG'', lit ''GPE'', lit ''LOC'', lit ''FAC'', lit ''NORP'', lit ''DATE'',
      lit ''TIME'', lit ''CARDINAL'', lit ''ORDINAL'', lit ''MONEY'', lit ''PERCENT'', lit ''QUANTITY'']"

definition MAX_CHUNK_TOKENS :: int where "MAX_CHUNK_TOKENS = 3"

definition surviving_chunk_tokens :: "doc \<Rightarrow> nat \<times> nat \<Rightarrow> nat list" where
  "surviving_chunk_tokens d chunk = filter (\<lambda>i. let tok = d_tokens d ! i in
     tk_is_alpha tok \<and> \<not> tk_is_stop tok \<and> 3 \<le> length (tk_text tok)
     \<and> tk_ent_type tok \<notin> set DROPPED_ENT_TYPES) [fst chunk..<snd chunk]"

function merge_chunks :: "doc \<Rightarrow> (nat \<times> nat) list \<Rightarrow> (nat \<times> nat) list" where
  "merge_chunks d [] = []"
| "merge_chunks d [chunk] = [chunk]"
| "merge_chunks d ((s, e) # (s', e') # chunks) =
     (if s' = e + 1 \<and> tk_pos (d_tokens d ! e) = lit ''ADP'' then merge_chunks d ((s, e') # chunks)
      else (s, e) # merge_chunks d ((s', e') # chunks))"
  by pat_completeness auto
termination by (relation "measure (length \<circ> snd)") auto

definition merge_prepositional_chunks :: "doc \<Rightarrow> (nat \<times> nat) list" where
  "merge_prepositional_chunks d = merge_chunks d (d_noun_chunks d)"

definition survivor_span_tokens :: "nat list \<Rightarrow> nat list" where
  "survivor_span_tokens survivors = (if survivors = [] then [] else [hd survivors..<Suc (last survivors)])"

text \<open>The term of one chunk, \<open>None\<close> when nothing of it survives.\<close>

definition chunk_term :: "(pystr \<Rightarrow> pystr) \<Rightarrow> pystr \<Rightarrow> int \<Rightarrow> doc \<Rightarrow> nat \<times> nat \<Rightarrow> pystr option" where
  "chunk_term casefold genre safety_max_chunk_tokens d chunk =
     (let window = (if genre = lit ''safety'' then safety_max_chunk_tokens else MAX_CHUNK_TOKENS);
          survivors = surviving_chunk_tokens d chunk;
          kept = (if window < int (length survivors) then slice_from (- window) survivors else survivors);
          lemma_of = (\<lambda>i. casefold (tk_lemma (d_tokens d ! i)));
          term = (if genre = lit ''safety''
            then join (lit '' '') (map lemma_of (filter (\<lambda>i. tk_is_alpha (d_tokens d ! i)) (survivor_span_tokens kept)))
            else join (lit '' '') (map lemma_of kept))
      in if survivors = [] \<or> term = [] then None else Some term)"

definition doc_chunks :: "pystr \<Rightarrow> doc \<Rightarrow> (nat \<times> nat) list" where
  "doc_chunks genre d = (if genre = lit ''safety'' then merge_prepositional_chunks d else d_noun_chunks d)"

text \<open>All hits in order: the term, its evidence and the chunk's text.\<close>

definition spacy_hits :: "(pystr \<Rightarrow> pystr) \<Rightarrow> pystr \<Rightarrow> int \<Rightarrow> (pystr \<Rightarrow> doc) \<Rightarrow> seg_line list \<Rightarrow>
    (pystr \<times> evidence \<times> pystr) list" where
  "spacy_hits casefold genre width nlp segs = concat (map (\<lambda>s. let d = nlp (sl_text s) in
     List.map_filter (\<lambda>chunk. map_option (\<lambda>term. (term, segment_evidence s, d_span_text d (fst chunk) (snd chunk)))
       (chunk_term casefold genre width d chunk)) (doc_chunks genre d)) segs)"

definition shorter_text :: "pystr \<Rightarrow> pystr \<Rightarrow> bool" where
  "shorter_text a b \<longleftrightarrow> length a < length b \<or> length a = length b \<and> a < b"

definition enumerate_spacy_terms :: "(pystr \<Rightarrow> pystr) \<Rightarrow> pystr \<Rightarrow> int \<Rightarrow> (pystr \<Rightarrow> doc) \<Rightarrow> seg_line list \<Rightarrow>
    (pystr \<times> evidence list \<times> pystr) list" where
  "enumerate_spacy_terms casefold genre width nlp segs =
     (let hits = spacy_hits casefold genre width nlp segs;
          buckets = fold (\<lambda>(term, e, _) terms. add_evidence term e terms) hits []
      in map (\<lambda>(term, bucket). (term, bucket,
           py_min shorter_text (map (\<lambda>(_, _, surface). surface) (filter (\<lambda>(t, _, _). t = term) hits)))) buckets)"

section \<open>Corpus scans\<close>

text \<open>\<open>_build_corpus_index_with_ids\<close>, on the files found: their identifiers and texts.\<close>

definition index_documents :: "(pystr \<Rightarrow> pystr) \<Rightarrow> (pystr \<times> pystr) list \<Rightarrow> (pystr \<times> pystr) list" where
  "index_documents casefold files = map (\<lambda>(stem, text). (MSRD @ stem, casefold text)) files"

definition count_document :: "pystr set \<Rightarrow> pystr \<Rightarrow> (pystr \<Rightarrow> nat) \<Rightarrow> (pystr \<Rightarrow> nat)" where
  "count_document terms text counts =
     (let doc_terms = set (terms_in_text text)
      in (\<lambda>term. if term \<in> doc_terms \<and> term \<in> terms then counts term + 1 else counts term))"

text \<open>As \<open>.get(term, 0)\<close> of the dictionary returned.\<close>

definition score_document_frequency :: "pystr set \<Rightarrow> (pystr \<times> pystr) list \<Rightarrow> pystr \<Rightarrow> nat" where
  "score_document_frequency terms docs = fold (\<lambda>(_, text). count_document terms text) docs (\<lambda>_. 0)"

definition observe_document :: "pystr set \<Rightarrow> pystr \<Rightarrow> pystr \<times> pystr \<Rightarrow>
    (pystr \<Rightarrow> observation list) \<Rightarrow> (pystr \<Rightarrow> observation list)" where
  "observe_document terms corpus d observations =
     (let counter = count_list (term_multiset (snd d))
      in (\<lambda>term. if counter term \<noteq> 0 \<and> term \<in> terms
         then observations term @ [\<lparr>ob_document_iri = fst d, ob_corpus = corpus, ob_occurrence_count = counter term\<rparr>]
         else observations term))"

text \<open>As \<open>.get(term, [])\<close> of the dictionary returned.\<close>

definition score_document_observations ::
    "pystr set \<Rightarrow> pystr \<Rightarrow> (pystr \<times> pystr) list \<Rightarrow> pystr \<Rightarrow> observation list" where
  "score_document_observations terms genre docs =
     fold (observe_document terms (corpus_for_genre genre)) docs (\<lambda>_. [])"

section \<open>The two scans agree\<close>

lemma set_keep_first: "set (keep_first xs) = set xs \<and> distinct (keep_first xs)"
proof -
  have "set (fold (\<lambda>x terms. if x \<in> set terms then terms else terms @ [x]) xs acc) = set acc \<union> set xs
      \<and> distinct (fold (\<lambda>x terms. if x \<in> set terms then terms else terms @ [x]) xs acc)" if "distinct acc" for acc
    using that by (induction xs arbitrary: acc) auto
  from this [of "[]"] show ?thesis by (simp add: keep_first_def)
qed

lemma set_terms_in_text: "set (terms_in_text text) = set (term_multiset text)"
  by (simp add: terms_in_text_def ngrams_def term_multiset_def set_keep_first)

lemma score_document_frequency_eq:
  "score_document_frequency terms docs t =
     (if t \<in> terms then length (filter (\<lambda>(_, text). t \<in> set (term_multiset text)) docs) else 0)"
proof -
  have "fold (\<lambda>(_, text). count_document terms text) docs c t = c t +
      (if t \<in> terms then length (filter (\<lambda>(_, text). t \<in> set (term_multiset text)) docs) else 0)" for c
    by (induction docs arbitrary: c) (auto simp: count_document_def set_terms_in_text)
  then show ?thesis by (simp add: score_document_frequency_def)
qed

lemma count_list_pos: "0 < count_list xs x \<longleftrightarrow> x \<in> set xs"
  by (induction xs) auto

lemma score_document_observations_eq:
  "score_document_observations terms genre docs t =
     (if t \<in> terms then map (\<lambda>(iri, text). \<lparr>ob_document_iri = iri, ob_corpus = corpus_for_genre genre,
          ob_occurrence_count = count_list (term_multiset text) t\<rparr>)
        (filter (\<lambda>(_, text). t \<in> set (term_multiset text)) docs) else [])"
proof -
  have "fold (observe_document terms corpus) docs c t = c t @
      (if t \<in> terms then map (\<lambda>(iri, text). \<lparr>ob_document_iri = iri, ob_corpus = corpus,
          ob_occurrence_count = count_list (term_multiset text) t\<rparr>)
        (filter (\<lambda>(_, text). t \<in> set (term_multiset text)) docs) else [])" for c corpus
    by (induction docs arbitrary: c) (auto simp: observe_document_def Let_def count_list_pos)
  then show ?thesis by (simp add: score_document_observations_def)
qed

lemma scans_agree:
  "length (score_document_observations terms genre docs t) = score_document_frequency terms docs t"
  by (simp add: score_document_observations_eq score_document_frequency_eq)

lemma occurrences_positive:
  "list_all (\<lambda>ob. 0 < ob_occurrence_count ob) (score_document_observations terms genre docs t)"
  by (auto simp: score_document_observations_eq list_all_iff count_list_pos)

end
