(* ===== verification/Novelty.thy ===== *)
theory Novelty
  imports Terms Linker
begin

text \<open>
  The filter side of \<open>novelty.py\<close>: the index of known labels that excludes a candidate, and
  \<open>mine_candidates\<close>, which excludes, bounds and annotates what the passes of \<open>Terms\<close> found.
\<close>

section \<open>Token sequences\<close>

definition is_alnum_ascii :: "nat \<Rightarrow> bool" where
  "is_alnum_ascii c \<longleftrightarrow> is_alpha_ascii c \<or> is_ascii_digit c"

text \<open>\<open>_CAMEL_SPLIT_RE.sub(" ", text)\<close>: a space at each position the two lookarounds describe.\<close>

definition camel_boundary :: "nat option \<Rightarrow> nat \<Rightarrow> pystr \<Rightarrow> bool" where
  "camel_boundary prev c cs \<longleftrightarrow> (case prev of None \<Rightarrow> False | Some p \<Rightarrow>
     (is_lower p \<or> is_ascii_digit p) \<and> is_upper c
     \<or> is_upper p \<and> is_upper c \<and> cs \<noteq> [] \<and> is_lower (hd cs))"

fun camel_split :: "nat option \<Rightarrow> pystr \<Rightarrow> pystr" where
  "camel_split prev [] = []"
| "camel_split prev (c # cs) = (if camel_boundary prev c cs then [32] else []) @ c # camel_split (Some c) cs"

text \<open>\<open>[tok for tok in _SEPARATOR_RE.split(text) if tok]\<close>.\<close>

function alnum_runs :: "pystr \<Rightarrow> pystr list" where
  "alnum_runs [] = []"
| "alnum_runs (c # cs) = (if is_alnum_ascii c
     then (c # takeWhile is_alnum_ascii cs) # alnum_runs (dropWhile is_alnum_ascii cs)
     else alnum_runs cs)"
  by pat_completeness auto
termination by (relation "measure length") (auto simp: less_Suc_eq_le length_dropWhile_le)

definition normalize_plain_tokens :: "pystr \<Rightarrow> pystr list" where
  "normalize_plain_tokens text = map lower_ascii (alnum_runs text)"

definition normalize_token_sequence :: "pystr \<Rightarrow> pystr list" where
  "normalize_token_sequence text = normalize_plain_tokens (camel_split None text)"

definition normalize_salt_label :: "pystr \<Rightarrow> pystr list" where
  "normalize_salt_label label = normalize_plain_tokens (takeWhile (\<lambda>c. c \<noteq> 40) label)"

section \<open>The exclusion index\<close>

type_synonym exclusion_index = "(nat \<times> pystr list list) list"

fun add_to_length :: "pystr list \<Rightarrow> exclusion_index \<Rightarrow> exclusion_index" where
  "add_to_length s [] = [(length s, [s])]"
| "add_to_length s ((n, seqs) # by_length) =
     (if n = length s then (n, s # seqs) # by_length else (n, seqs) # add_to_length s by_length)"

definition build_index :: "pystr list list \<Rightarrow> exclusion_index" where
  "build_index sequences = fold (\<lambda>s by_length. if s = [] then by_length else add_to_length s by_length) sequences []"

definition index_contains :: "exclusion_index \<Rightarrow> pystr \<Rightarrow> bool" where
  "index_contains by_length term =
     (let term_tokens = normalize_token_sequence term; n = length term_tokens
      in if n = 0 then False
         else list_ex (\<lambda>(len, seqs). len \<le> n \<and>
           list_ex (\<lambda>start. take len (drop start term_tokens) \<in> set seqs) [0..<n - len + 1]) by_length)"

text \<open>The labels of the graph and the spans already linked; empty sequences are left out.\<close>

definition exclusion_sequences :: "known_entity list \<Rightarrow> pystr list \<Rightarrow> mention_record list \<Rightarrow> pystr list list" where
  "exclusion_sequences entities role_reactor_labels mentions = filter (\<lambda>s. s \<noteq> [])
     (concat (map (\<lambda>entity. map (if ke_kind entity = lit ''salt'' then normalize_salt_label
          else normalize_token_sequence) (ke_labels entity)) entities) @
      map normalize_token_sequence role_reactor_labels @
      map (\<lambda>m. normalize_plain_tokens (mn_surface m))
        (filter (\<lambda>m. mn_status m = lit ''linked'' \<and> mn_surface m \<noteq> []) mentions))"

definition build_exclusion_set :: "known_entity list \<Rightarrow> pystr list \<Rightarrow> mention_record list \<Rightarrow> exclusion_index" where
  "build_exclusion_set entities labels mentions = build_index (exclusion_sequences entities labels mentions)"

text \<open>What the filter relies on: a term is excluded when some indexed sequence occurs in it whole.\<close>

locale exclusion_filter =
  fixes build :: "pystr list list \<Rightarrow> 'i" and member :: "'i \<Rightarrow> pystr \<Rightarrow> bool"
    and tokens :: "pystr \<Rightarrow> pystr list"
  assumes member_build: "member (build ss) t \<longleftrightarrow> (\<exists>s \<in> set ss. s \<noteq> [] \<and> sublist s (tokens t))"
begin

lemma member_mono: "set ss \<subseteq> set ss' \<Longrightarrow> member (build ss) t \<Longrightarrow> member (build ss') t"
  by (auto simp: member_build)

lemma member_extended:
  "sublist (tokens t) (tokens u) \<Longrightarrow> member (build ss) t \<Longrightarrow> member (build ss) u"
  by (auto simp: member_build intro: sublist_order.order_trans)

end

definition listed :: "exclusion_index \<Rightarrow> nat \<Rightarrow> pystr list \<Rightarrow> bool" where
  "listed by_length len x \<longleftrightarrow> list_ex (\<lambda>(n, seqs). n = len \<and> x \<in> set seqs) by_length"

lemma listed_simps [simp]:
  "\<not> listed [] len x"
  "listed ((n, seqs) # by_length) len x \<longleftrightarrow> n = len \<and> x \<in> set seqs \<or> listed by_length len x"
  by (simp_all add: listed_def)

lemma listed_add: "listed (add_to_length s by_length) len x \<longleftrightarrow> len = length s \<and> x = s \<or> listed by_length len x"
  by (induction s by_length rule: add_to_length.induct) auto

lemma listed_build_index: "listed (build_index ss) len x \<longleftrightarrow> x \<in> set ss \<and> x \<noteq> [] \<and> len = length x"
proof -
  have "listed (fold (\<lambda>s by_length. if s = [] then by_length else add_to_length s by_length) ss acc) len x \<longleftrightarrow>
      x \<in> set ss \<and> x \<noteq> [] \<and> len = length x \<or> listed acc len x" for acc
    by (induction ss arbitrary: acc) (auto simp: listed_add)
  from this [of "[]"] show ?thesis by (simp add: build_index_def)
qed

lemma listedI: "(len, seqs) \<in> set by_length \<Longrightarrow> x \<in> set seqs \<Longrightarrow> listed by_length len x"
  by (auto simp: listed_def list_ex_iff)

lemma listedE: "listed by_length len x \<Longrightarrow> (\<And>seqs. (len, seqs) \<in> set by_length \<Longrightarrow> x \<in> set seqs \<Longrightarrow> P) \<Longrightarrow> P"
  by (auto simp: listed_def list_ex_iff)

lemma index_contains_listed:
  "index_contains by_length t \<longleftrightarrow> normalize_token_sequence t \<noteq> [] \<and>
     (\<exists>len i. len \<le> length (normalize_token_sequence t) \<and> i < length (normalize_token_sequence t) - len + 1 \<and>
        listed by_length len (take len (drop i (normalize_token_sequence t))))" (is "?l \<longleftrightarrow> ?r")
proof
  assume ?l
  then obtain len seqs i where i: "(len, seqs) \<in> set by_length" "len \<le> length (normalize_token_sequence t)"
      "i < length (normalize_token_sequence t) - len + 1" "take len (drop i (normalize_token_sequence t)) \<in> set seqs"
      and "normalize_token_sequence t \<noteq> []"
    unfolding index_contains_def Let_def list_ex_iff by (fastforce split: if_splits simp del: upt_Suc)
  then show ?r using listedI [OF i(1,4)] by blast
next
  assume ?r
  then obtain len i seqs where "normalize_token_sequence t \<noteq> []" "len \<le> length (normalize_token_sequence t)"
      "i < length (normalize_token_sequence t) - len + 1" "(len, seqs) \<in> set by_length"
      "take len (drop i (normalize_token_sequence t)) \<in> set seqs"
    by (auto elim: listedE)
  then show ?l unfolding index_contains_def Let_def list_ex_iff
    by (auto intro!: bexI [of _ "(len, seqs)"] bexI [of _ i] simp del: upt_Suc)
qed

lemma sublist_slice:
  assumes "s \<noteq> []"
  shows "sublist s xs \<longleftrightarrow> length s \<le> length xs \<and>
    (\<exists>i < length xs - length s + 1. take (length s) (drop i xs) = s)"
proof
  assume "sublist s xs"
  then obtain p q where "xs = p @ s @ q" by (auto simp: sublist_def)
  then show "length s \<le> length xs \<and> (\<exists>i < length xs - length s + 1. take (length s) (drop i xs) = s)"
    by (intro conjI exI [of _ "length p"]) auto
next
  assume "length s \<le> length xs \<and> (\<exists>i < length xs - length s + 1. take (length s) (drop i xs) = s)"
  then obtain i where "s = take (length s) (drop i xs)" by metis
  then have "xs = take i xs @ s @ drop (length s) (drop i xs)" by (metis append_take_drop_id)
  then show "sublist s xs" unfolding sublist_def by blast
qed

lemma index_contains_build:
  "index_contains (build_index ss) t \<longleftrightarrow> (\<exists>s \<in> set ss. s \<noteq> [] \<and> sublist s (normalize_token_sequence t))"
  (is "_ \<longleftrightarrow> (\<exists>s \<in> _. s \<noteq> [] \<and> sublist s ?xs)")
proof -
  have "(\<exists>len i. len \<le> length ?xs \<and> i < length ?xs - len + 1 \<and>
        listed (build_index ss) len (take len (drop i ?xs))) \<longleftrightarrow> (\<exists>s \<in> set ss. s \<noteq> [] \<and> sublist s ?xs)"
    (is "?l \<longleftrightarrow> ?r")
  proof
    assume ?l
    then obtain len i where i: "i < length ?xs - len + 1" "len \<le> length ?xs"
        "take len (drop i ?xs) \<in> set ss" "take len (drop i ?xs) \<noteq> []"
      unfolding listed_build_index by blast
    moreover have "sublist (take len (drop i ?xs)) ?xs"
      by (metis sublist_drop sublist_order.order_trans sublist_take)
    ultimately show ?r by blast
  next
    assume ?r
    then obtain s where s: "s \<in> set ss" "s \<noteq> []" "sublist s ?xs" by blast
    then obtain i where i: "length s \<le> length ?xs" "i < length ?xs - length s + 1" "take (length s) (drop i ?xs) = s"
      by (auto simp: sublist_slice)
    then have "listed (build_index ss) (length s) (take (length s) (drop i ?xs))"
      using s unfolding listed_build_index by simp
    then show ?l using i by blast
  qed
  then show ?thesis unfolding index_contains_listed by auto
qed

interpretation label_index: exclusion_filter build_index index_contains normalize_token_sequence
  by unfold_locales (rule index_contains_build)

section \<open>Mining\<close>

text \<open>The terms a pass found: with the evidence and, from the noun-chunk pass, a surface form.\<close>

definition enumerate_terms :: "(pystr \<Rightarrow> pystr) \<Rightarrow> pystr \<Rightarrow> int \<Rightarrow> (pystr \<Rightarrow> doc) option \<Rightarrow> seg_line list \<Rightarrow>
    (pystr \<times> evidence list \<times> pystr) list" where
  "enumerate_terms casefold genre width pipeline segs = (case pipeline of
       Some parse \<Rightarrow> enumerate_spacy_terms casefold genre width parse segs
     | None \<Rightarrow> map (\<lambda>(term, evidence). (term, evidence, [])) (enumerate_lexical_terms segs))"

definition read_miss_candidates :: "(pystr \<Rightarrow> pystr) \<Rightarrow> pystr \<Rightarrow> mention_record list \<Rightarrow> mined list" where
  "read_miss_candidates casefold rep records = map (\<lambda>r.
     \<lparr>ca_term = casefold (mn_surface r), ca_source = lit ''miss'',
      ca_evidence = [\<lparr>ev_report = rep, ev_document_iri = MSRD @ rep, ev_sentence_text = mn_surface r,
        ev_start_offset = mn_start r, ev_end_offset = mn_end r\<rparr>],
      ca_doc_frequency = 0, ca_surface_form = mn_surface r, ca_observations = []\<rparr>)
     (filter (\<lambda>r. mn_status r = lit ''novel'') records)"

record mine_config =
  salience_threshold :: int
  safety_salience_threshold :: int
  mine_max_candidates :: int

definition salience_floor :: "mine_config \<Rightarrow> pystr \<Rightarrow> int" where
  "salience_floor config genre =
     (if genre = lit ''safety'' then safety_salience_threshold config else salience_threshold config)"

definition lexical_candidate :: "pystr \<times> evidence list \<times> pystr \<Rightarrow> mined" where
  "lexical_candidate entry = (case entry of (term, evidence, surface) \<Rightarrow>
     \<lparr>ca_term = term, ca_source = lit ''lexical'', ca_evidence = evidence, ca_doc_frequency = 0,
      ca_surface_form = surface, ca_observations = []\<rparr>)"

text \<open>Both loops that build \<open>scored\<close>: a survivor with its frequency, when that reaches the floor.\<close>

definition score_candidates :: "(pystr \<Rightarrow> nat) \<Rightarrow> int \<Rightarrow> mined list \<Rightarrow> mined list" where
  "score_candidates frequencies lowest survivors =
     map (\<lambda>c. c\<lparr>ca_doc_frequency := frequencies (ca_term c), ca_observations := []\<rparr>)
       (filter (\<lambda>c. lowest \<le> int (frequencies (ca_term c))) survivors)"

definition ceiling_key :: "mined \<Rightarrow> int \<times> pystr" where
  "ceiling_key c = (- int (ca_doc_frequency c), ca_term c)"

definition bound_candidates :: "int \<Rightarrow> mined list \<Rightarrow> mined list" where
  "bound_candidates limit scored =
     (if limit < int (length scored) then slice_to limit (sort_key ceiling_key scored) else scored)"

definition annotate :: "(pystr \<Rightarrow> observation list) \<Rightarrow> mined \<Rightarrow> mined" where
  "annotate observations_by_term c =
     c\<lparr>ca_observations := observations_by_term (ca_term c),
       ca_doc_frequency := length (observations_by_term (ca_term c))\<rparr>"

definition mine_candidates :: "mine_config \<Rightarrow> pystr \<Rightarrow> (pystr \<times> evidence list \<times> pystr) list \<Rightarrow> mined list \<Rightarrow>
    exclusion_index \<Rightarrow> (pystr \<times> pystr) list \<Rightarrow> mined list" where
  "mine_candidates config genre lexical_evidence miss_candidates exclusion docs =
     (let surviving_lexical = filter (\<lambda>(term, _). \<not> index_contains exclusion term) lexical_evidence;
          surviving_miss = filter (\<lambda>c. \<not> index_contains exclusion (ca_term c)) miss_candidates;
          survivors = map lexical_candidate surviving_lexical @ surviving_miss;
          frequencies = score_document_frequency (set (map ca_term survivors)) docs;
          scored = bound_candidates (mine_max_candidates config)
            (score_candidates frequencies (salience_floor config genre) survivors);
          observations = score_document_observations (set (map ca_term scored)) genre docs
      in sort_key ca_term (map (annotate observations) scored))"

text \<open>What one pass reads: the segments, the mentions of each report, the labels of the graph, the files.\<close>

record mine_input =
  mi_pipeline :: "(pystr \<Rightarrow> doc) option"
  mi_segments :: "seg_line list"
  mi_mentions :: "(pystr \<times> mention_record list) list"
  mi_entities :: "known_entity list"
  mi_role_reactor_labels :: "pystr list"
  mi_files :: "(pystr \<times> pystr) list"

definition mine_corpus :: "(pystr \<Rightarrow> pystr) \<Rightarrow> mine_config \<Rightarrow> pystr \<Rightarrow> int \<Rightarrow> mine_input \<Rightarrow> mined list" where
  "mine_corpus casefold config genre width input = mine_candidates config genre
     (enumerate_terms casefold genre width (mi_pipeline input) (mi_segments input))
     (concat (map (\<lambda>(rep, records). read_miss_candidates casefold rep records) (mi_mentions input)))
     (build_exclusion_set (mi_entities input) (mi_role_reactor_labels input) (concat (map snd (mi_mentions input))))
     (index_documents casefold (mi_files input))"

section \<open>What is retained\<close>

text \<open>How many documents contain a term.\<close>

definition containing :: "(pystr \<times> pystr) list \<Rightarrow> pystr \<Rightarrow> (pystr \<times> pystr) list" where
  "containing docs t = filter (\<lambda>(_, text). t \<in> set (term_multiset text)) docs"

text \<open>The candidates that are known to nobody and frequent enough, with what the scans say of them.\<close>

definition observed :: "pystr \<Rightarrow> (pystr \<times> pystr) list \<Rightarrow> mined \<Rightarrow> mined" where
  "observed genre docs c =
     c\<lparr>ca_doc_frequency := length (containing docs (ca_term c)),
       ca_observations := map (\<lambda>(iri, text). \<lparr>ob_document_iri = iri, ob_corpus = corpus_for_genre genre,
          ob_occurrence_count = count_list (term_multiset text) (ca_term c)\<rparr>) (containing docs (ca_term c))\<rparr>"

definition eligible :: "mine_config \<Rightarrow> pystr \<Rightarrow> (pystr \<times> evidence list \<times> pystr) list \<Rightarrow> mined list \<Rightarrow>
    pystr list list \<Rightarrow> (pystr \<times> pystr) list \<Rightarrow> mined list" where
  "eligible config genre lexical misses known docs = map (observed genre docs)
     (filter (\<lambda>c. salience_floor config genre \<le> int (length (containing docs (ca_term c)))
          \<and> \<not> list_ex (\<lambda>s. s \<noteq> [] \<and> sublist s (normalize_token_sequence (ca_term c))) known)
        (map lexical_candidate lexical @ misses))"

lemma lexical_filter:
  "map lexical_candidate (filter (\<lambda>(term, _). P term) entries) =
   filter (\<lambda>c. P (ca_term c)) (map lexical_candidate entries)"
  by (induction entries) (auto simp: lexical_candidate_def)

lemma mine_candidates_annotated:
  fixes genre docs lexical misses known config
  defines "survivors \<equiv> filter (\<lambda>c. \<not> index_contains (build_index known) (ca_term c)) (map lexical_candidate lexical @ misses)"
  defines "scored \<equiv> score_candidates (score_document_frequency (set (map ca_term survivors)) docs)
     (salience_floor config genre) survivors"
  shows "mine_candidates config genre lexical misses (build_index known) docs =
      sort_key ca_term (map (observed genre docs) (bound_candidates (mine_max_candidates config) scored))
    \<and> map (observed genre docs) scored = eligible config genre lexical misses known docs
    \<and> list_all (\<lambda>c. ceiling_key c = ceiling_key (observed genre docs c)) scored"
proof -
  let ?kept = "bound_candidates (mine_max_candidates config) scored"
  let ?obs = "score_document_observations (set (map ca_term ?kept)) genre docs"
  have freq: "score_document_frequency (set (map ca_term survivors)) docs (ca_term c) = length (containing docs (ca_term c))"
    if "c \<in> set survivors" for c
    using that by (simp add: score_document_frequency_eq containing_def)
  have kept: "map (annotate ?obs) ?kept = map (observed genre docs) ?kept"
    by (auto simp: annotate_def observed_def score_document_observations_eq containing_def)
  have "map lexical_candidate (filter (\<lambda>(term, _). \<not> index_contains (build_index known) term) lexical) @
      filter (\<lambda>c. \<not> index_contains (build_index known) (ca_term c)) misses = survivors"
    unfolding lexical_filter survivors_def filter_append ..
  then have "mine_candidates config genre lexical misses (build_index known) docs =
      sort_key ca_term (map (annotate ?obs) ?kept)"
    unfolding mine_candidates_def Let_def scored_def by (simp only:)
  then have "mine_candidates config genre lexical misses (build_index known) docs =
      sort_key ca_term (map (observed genre docs) ?kept)"
    unfolding kept .
  moreover have "map (observed genre docs) scored = eligible config genre lexical misses known docs"
  proof -
    have "filter (\<lambda>c. salience_floor config genre \<le> int (score_document_frequency (set (map ca_term survivors)) docs (ca_term c))) survivors
        = filter (\<lambda>c. salience_floor config genre \<le> int (length (containing docs (ca_term c)))) survivors"
      using freq by (intro filter_cong refl) simp
    then show ?thesis
      unfolding scored_def score_candidates_def eligible_def
      by (simp add: observed_def comp_def survivors_def label_index.member_build list_ex_iff conj_commute)
  qed
  moreover have "list_all (\<lambda>c. ceiling_key c = ceiling_key (observed genre docs c)) scored"
    using freq by (auto simp: scored_def score_candidates_def list_all_iff ceiling_key_def observed_def)
  ultimately show ?thesis by blast
qed

lemma mset_bound: "mset (bound_candidates n xs) = mset (slice_to n (sort_key ceiling_key xs))"
  by (simp add: bound_candidates_def slice_to_all)

lemma bound_candidates_map:
  assumes "list_all (\<lambda>c. ceiling_key c = ceiling_key (g c)) xs"
  shows "map g (bound_candidates n xs) = bound_candidates n (map g xs)"
proof -
  have "sort_key (\<lambda>x. ceiling_key (g x)) xs = sort_key ceiling_key xs"
    using assms by (intro sort_key_cong) (auto simp: list_all_iff)
  then show ?thesis by (simp add: bound_candidates_def sort_key_map slice_to_map)
qed

lemma mine_candidates_eligible:
  "mine_candidates config genre lexical misses (build_index known) docs =
   sort_key ca_term (bound_candidates (mine_max_candidates config) (eligible config genre lexical misses known docs))"
  using mine_candidates_annotated [of config genre lexical misses known docs] bound_candidates_map by metis

text \<open>C22. A mining pass retains, in the order of their terms, the candidates in whose token sequence no
  known label occurs whole and that enough documents contain, cut at the configured number to those with
  the smallest key of frequency and term; each carries one observation per document that contains it,
  with the positive number of its occurrences there, and its frequency is the number of its observations.\<close>

theorem mine_candidates_spec:
  "sorted (map ca_term (mine_candidates config genre lexical misses (build_index known) docs))
   \<and> mset (mine_candidates config genre lexical misses (build_index known) docs) =
      mset (slice_to (mine_max_candidates config) (sort_key ceiling_key (eligible config genre lexical misses known docs)))
   \<and> list_all (\<lambda>c. ca_doc_frequency c = length (ca_observations c)
          \<and> list_all (\<lambda>ob. 0 < ob_occurrence_count ob) (ca_observations c)
          \<and> map ob_document_iri (ca_observations c) = map fst (containing docs (ca_term c)))
        (mine_candidates config genre lexical misses (build_index known) docs)"
proof -
  have "c \<in> set (eligible config genre lexical misses known docs) \<Longrightarrow> \<exists>d. c = observed genre docs d" for c
    by (auto simp: eligible_def)
  then have "c \<in> set (mine_candidates config genre lexical misses (build_index known) docs) \<Longrightarrow>
      \<exists>d. c = observed genre docs d" for c
    unfolding mine_candidates_eligible bound_candidates_def by (auto split: if_splits dest: set_slice_to)
  then show ?thesis
    by (fastforce simp: list_all_iff observed_def containing_def count_list_pos mset_bound
        mine_candidates_eligible)
qed

lemma nonempty_sequences: "s \<in> set (exclusion_sequences entities labels mentions) \<Longrightarrow> s \<noteq> []"
  by (auto simp: exclusion_sequences_def)

text \<open>C28. A candidate is excluded exactly when the token sequence of some known label, role or linked
  span occurs in its own as one contiguous run.\<close>

theorem build_exclusion_set_spec:
  "index_contains (build_exclusion_set entities labels mentions) t \<longleftrightarrow>
   list_ex (\<lambda>s. sublist s (normalize_token_sequence t)) (exclusion_sequences entities labels mentions)"
  unfolding build_exclusion_set_def label_index.member_build list_ex_iff
  using nonempty_sequences by blast

text \<open>Two files of one name in different directories count as two documents with one IRI.\<close>

lemma doc_frequency_counts_files:
  "t \<in> set (term_multiset (casefold text)) \<Longrightarrow>
   map ob_document_iri (score_document_observations {t} genre (index_documents casefold [(stem, text), (stem, text)]) t)
     = [MSRD @ stem, MSRD @ stem]"
  by (simp add: score_document_observations_eq index_documents_def)

end
