(* ===== verification/Mine_Runner.thy ===== *)
theory Mine_Runner
  imports Novelty Triage Proposals
begin

text \<open>
  \<open>mine_runner.py\<close>: one run of the miner, from the candidates to the updates and the summary.
  The model client is an argument (\<open>None\<close>: not configured), and so are the allowlist and the
  known IRIs; the endpoint is that of \<open>Sparql\<close>.
\<close>

section \<open>Triage\<close>

definition as_type_ref :: "pystr option \<Rightarrow> pystr option" where
  "as_type_ref value = safe_type_ref value"

definition first_evidence_document_iri :: "triaged \<Rightarrow> pystr option" where
  "first_evidence_document_iri triaged =
     (let evidence = ca_evidence (tr_candidate triaged)
      in if evidence = [] then None else Some (ev_document_iri (hd (sort_key evidence_key evidence))))"

text \<open>\<open>_triage_worker\<close>: an exception of the client is a dropped candidate too.\<close>

definition triage_worker :: "(mined \<Rightarrow> pystr option) \<Rightarrow> (pystr \<Rightarrow> json option) \<Rightarrow> (pystr \<Rightarrow> pystr \<Rightarrow> pystr option) \<Rightarrow>
    pystr \<Rightarrow> pystr \<Rightarrow> mined \<Rightarrow> triaged option" where
  "triage_worker signal_kind loads ask prompt_prefix genre candidate =
     triage_candidate signal_kind loads ask candidate prompt_prefix genre"

text \<open>\<open>_triage_all\<close>: a pool without workers is refused, otherwise every candidate has its slot.\<close>

definition triage_all :: "int \<Rightarrow> nat list \<Rightarrow> (mined \<Rightarrow> triaged option) \<Rightarrow> mined list \<Rightarrow>
    (mined \<times> triaged option) list result" where
  "triage_all max_workers schedule worker candidates =
     (if max_workers \<le> 0 then Inl ValueError
      else Inr (zip candidates (pool_map schedule worker candidates)))"

section \<open>Routing\<close>

record run_state =
  accepted_updates :: "pystr list"
  proposals_by_kind :: "(pystr \<times> nat) list"
  auto_accepted :: "individual list"
  fact_iris :: "pystr list"
  rejected :: nat
  triage_rejected :: nat
  dropped_malformed :: nat
  dropped :: nat

text \<open>\<open>d[k] = d.get(k, 0) + 1\<close>.\<close>

fun bump :: "pystr \<Rightarrow> (pystr \<times> nat) list \<Rightarrow> (pystr \<times> nat) list" where
  "bump k [] = [(k, 1)]"
| "bump k ((k', n) # d) = (if k' = k then (k', n + 1) # d else (k', n) # bump k d)"

definition route_instance :: "pystr set \<Rightarrow> triaged \<Rightarrow> run_state \<Rightarrow> run_state" where
  "route_instance known triaged st =
     (case (first_evidence_document_iri triaged, as_type_ref (broader_class (tr_placement triaged))) of
        (Some document, Some type_iri) \<Rightarrow>
          if resolves_in_core triaged known
          then st\<lparr>auto_accepted := auto_accepted st @
            [\<lparr>in_iri = lit ''msrd:'' @ term_slug (ca_term (tr_candidate triaged)), in_type_iri = type_iri,
              in_document_iri = document\<rparr>]\<rparr>
          else st\<lparr>dropped := dropped st + 1\<rparr>
      | _ \<Rightarrow> st\<lparr>dropped := dropped st + 1\<rparr>)"

text \<open>The individual that rides with the proposal of a class.\<close>

definition companion :: "triaged \<Rightarrow> individual option" where
  "companion triaged =
     (case (as_type_ref (broader_class (tr_placement triaged)), first_evidence_document_iri triaged) of
        (Some type_iri, Some document) \<Rightarrow>
          Some \<lparr>in_iri = lit ''msrd:'' @ term_slug (ca_term (tr_candidate triaged)), in_type_iri = type_iri,
            in_document_iri = document\<rparr>
      | _ \<Rightarrow> None)"

definition route_proposal :: "endpoint \<Rightarrow> qudt_allowlist \<Rightarrow> pystr \<Rightarrow> individual option \<Rightarrow> triaged \<Rightarrow>
    run_state \<Rightarrow> run_state \<times> unit result" where
  "route_proposal post allowlist run_ts rides_with triaged st =
     (case build_proposal_bundle triaged allowlist run_ts of
        None \<Rightarrow> (st\<lparr>rejected := rejected st + 1\<rparr>, Inr ())
      | Some bundle \<Rightarrow>
          (case send_all post (proposal_updates bundle (case rides_with of None \<Rightarrow> [] | Some i \<Rightarrow> individual_triples i))
             (accepted_updates st) of
             (acc, Inl e) \<Rightarrow> (st\<lparr>accepted_updates := acc\<rparr>, Inl e)
           | (acc, Inr _) \<Rightarrow> (st\<lparr>accepted_updates := acc,
               fact_iris := fact_iris st @ [pb_proposal_iri bundle] @ pb_observation_iris bundle @
                 (case rides_with of None \<Rightarrow> [] | Some i \<Rightarrow> [in_iri i]),
               proposals_by_kind := bump (tr_kind triaged) (proposals_by_kind st)\<rparr>, Inr ())))"

definition route :: "endpoint \<Rightarrow> qudt_allowlist \<Rightarrow> pystr set \<Rightarrow> pystr \<Rightarrow> triaged option \<Rightarrow>
    run_state \<Rightarrow> run_state \<times> unit result" where
  "route post allowlist known run_ts outcome st =
     (case outcome of
        None \<Rightarrow> (st\<lparr>dropped_malformed := dropped_malformed st + 1\<rparr>, Inr ())
      | Some triaged \<Rightarrow>
          if tr_kind triaged = KIND_REJECT then (st\<lparr>triage_rejected := triage_rejected st + 1\<rparr>, Inr ())
          else if tr_kind triaged = KIND_INSTANCE then (route_instance known triaged st, Inr ())
          else if tr_kind triaged = KIND_CLASS
          then route_proposal post allowlist run_ts (companion triaged) triaged st
          else if tr_kind triaged \<in> {KIND_PROPERTY, KIND_RELATION}
          then route_proposal post allowlist run_ts None triaged st
          else (st\<lparr>dropped := dropped st + 1\<rparr>, Inr ()))"

fun route_all :: "endpoint \<Rightarrow> qudt_allowlist \<Rightarrow> pystr set \<Rightarrow> pystr \<Rightarrow> (mined \<times> triaged option) list \<Rightarrow>
    run_state \<Rightarrow> run_state \<times> unit result" where
  "route_all post allowlist known run_ts [] st = (st, Inr ())"
| "route_all post allowlist known run_ts ((c, outcome) # rest) st =
     (case route post allowlist known run_ts outcome st of
        (st, Inl e) \<Rightarrow> (st, Inl e)
      | (st, Inr _) \<Rightarrow> route_all post allowlist known run_ts rest st)"

section \<open>The run\<close>

record summary =
  sm_candidates :: nat
  sm_proposals_by_kind :: "(pystr \<times> nat) list"
  sm_auto_accepted :: nat
  sm_rejected :: nat
  sm_triage_rejected :: nat
  sm_dropped_malformed :: nat
  sm_dropped :: nat

definition ZERO_SUMMARY :: summary where
  "ZERO_SUMMARY = \<lparr>sm_candidates = 0, sm_proposals_by_kind = [], sm_auto_accepted = 0, sm_rejected = 0,
     sm_triage_rejected = 0, sm_dropped_malformed = 0, sm_dropped = 0\<rparr>"

definition start_state :: "pystr list \<Rightarrow> run_state" where
  "start_state acc = \<lparr>accepted_updates = acc, proposals_by_kind = [], auto_accepted = [], fact_iris = [],
     rejected = 0, triage_rejected = 0, dropped_malformed = 0, dropped = 0\<rparr>"

definition summarize :: "mined list \<Rightarrow> run_state \<Rightarrow> summary" where
  "summarize candidates st =
     \<lparr>sm_candidates = length candidates, sm_proposals_by_kind = proposals_by_kind st,
      sm_auto_accepted = length (auto_accepted st), sm_rejected = rejected st,
      sm_triage_rejected = triage_rejected st, sm_dropped_malformed = dropped_malformed st,
      sm_dropped = dropped st\<rparr>"

text \<open>\<open>write_auto_accepted\<close> and \<open>write_generation_edges\<close>, as the last updates of a run.\<close>

definition final_updates :: "pystr \<Rightarrow> run_state \<Rightarrow> pystr list" where
  "final_updates run_ts st = auto_accepted_updates (auto_accepted st) run_ts @
     (if fact_iris st = [] then []
      else generation_edge_updates (sorted_list_of_set (set (fact_iris st))) run_ts)"

definition run_mine :: "endpoint \<Rightarrow> (mined \<Rightarrow> triaged option) option \<Rightarrow> qudt_allowlist \<Rightarrow> pystr set \<Rightarrow>
    int \<Rightarrow> nat list \<Rightarrow> pystr \<Rightarrow> mined list \<Rightarrow> pystr list \<Rightarrow> pystr list \<times> summary result" where
  "run_mine post client allowlist known max_workers schedule run_ts candidates acc =
     (case client of
        None \<Rightarrow> (acc, Inr ZERO_SUMMARY)
      | Some worker \<Rightarrow>
          (case send_all post [mine_stable_activity_insert_data, mine_activity_insert_data run_ts] acc of
             (acc, Inl e) \<Rightarrow> (acc, Inl e)
           | (acc, Inr _) \<Rightarrow>
               (case triage_all max_workers schedule worker candidates of
                  Inl e \<Rightarrow> (acc, Inl e)
                | Inr triaged_candidates \<Rightarrow>
                    (case route_all post allowlist known run_ts triaged_candidates (start_state acc) of
                       (st, Inl e) \<Rightarrow> (accepted_updates st, Inl e)
                     | (st, Inr _) \<Rightarrow>
                         (case send_all post (final_updates run_ts st) (accepted_updates st) of
                            (acc, Inl e) \<Rightarrow> (acc, Inl e)
                          | (acc, Inr _) \<Rightarrow> (acc, Inr (summarize candidates st)))))))"

section \<open>Decisions\<close>

text \<open>What becomes of a candidate, apart from any effect.\<close>

datatype decision = Malformed | Refused | Unplaceable | Guarded | Accepted individual
  | Proposed pystr proposal_bundle "individual option"

definition propose :: "qudt_allowlist \<Rightarrow> pystr \<Rightarrow> individual option \<Rightarrow> triaged \<Rightarrow> decision" where
  "propose allowlist run_ts rides_with triaged = (case build_proposal_bundle triaged allowlist run_ts of
       None \<Rightarrow> Guarded | Some bundle \<Rightarrow> Proposed (tr_kind triaged) bundle rides_with)"

definition decide :: "qudt_allowlist \<Rightarrow> pystr set \<Rightarrow> pystr \<Rightarrow> triaged option \<Rightarrow> decision" where
  "decide allowlist known run_ts outcome = (case outcome of
       None \<Rightarrow> Malformed
     | Some t \<Rightarrow>
         if tr_kind t = KIND_REJECT then Refused
         else if tr_kind t = KIND_INSTANCE then
           (if resolves_in_core t known then case_option Unplaceable Accepted (companion t) else Unplaceable)
         else if tr_kind t = KIND_CLASS then propose allowlist run_ts (companion t) t
         else if routable t then propose allowlist run_ts None t
         else Unplaceable)"

fun decision_updates :: "decision \<Rightarrow> pystr list" where
  "decision_updates (Proposed _ bundle rides_with) =
     proposal_updates bundle (case rides_with of None \<Rightarrow> [] | Some i \<Rightarrow> individual_triples i)"
| "decision_updates _ = []"

fun decision_iris :: "decision \<Rightarrow> pystr list" where
  "decision_iris (Proposed _ bundle rides_with) = pb_proposal_iri bundle # pb_observation_iris bundle @
     (case rides_with of None \<Rightarrow> [] | Some i \<Rightarrow> [in_iri i])"
| "decision_iris _ = []"

fun accepted_individual :: "decision \<Rightarrow> individual option" where
  "accepted_individual (Accepted i) = Some i"
| "accepted_individual _ = None"

fun proposed_kind :: "decision \<Rightarrow> pystr option" where
  "proposed_kind (Proposed k _ _) = Some k"
| "proposed_kind _ = None"

text \<open>All updates of a run, in order: the activities, then the facts, then their attribution.\<close>

definition mining_plan :: "pystr \<Rightarrow> decision list \<Rightarrow> pystr list" where
  "mining_plan run_ts ds =
     [mine_stable_activity_insert_data, mine_activity_insert_data run_ts] @
     concat (map decision_updates ds) @
     auto_accepted_updates (List.map_filter accepted_individual ds) run_ts @
     generation_edge_updates (sorted_list_of_set (set (concat (map decision_iris ds)))) run_ts"

text \<open>Every candidate is counted under one heading.\<close>

definition accounts :: "decision list \<Rightarrow> summary \<Rightarrow> bool" where
  "accounts ds s \<longleftrightarrow> sm_candidates s = length ds
     \<and> sm_candidates s = sum_list (map snd (sm_proposals_by_kind s)) + sm_auto_accepted s + sm_rejected s
         + sm_triage_rejected s + sm_dropped_malformed s + sm_dropped s
     \<and> distinct (map fst (sm_proposals_by_kind s))
     \<and> list_all (\<lambda>(k, n). n = length (filter (\<lambda>d. proposed_kind d = Some k) ds)) (sm_proposals_by_kind s)
     \<and> sm_auto_accepted s = length (List.map_filter accepted_individual ds)
     \<and> sm_dropped_malformed s = count_list ds Malformed \<and> sm_triage_rejected s = count_list ds Refused
     \<and> sm_rejected s = count_list ds Guarded \<and> sm_dropped s = count_list ds Unplaceable"

section \<open>The run follows its decisions\<close>

fun tally :: "decision \<Rightarrow> run_state \<Rightarrow> run_state" where
  "tally Malformed st = st\<lparr>dropped_malformed := dropped_malformed st + 1\<rparr>"
| "tally Refused st = st\<lparr>triage_rejected := triage_rejected st + 1\<rparr>"
| "tally Unplaceable st = st\<lparr>dropped := dropped st + 1\<rparr>"
| "tally Guarded st = st\<lparr>rejected := rejected st + 1\<rparr>"
| "tally (Accepted i) st = st\<lparr>auto_accepted := auto_accepted st @ [i]\<rparr>"
| "tally (Proposed k bundle rides_with) st =
     st\<lparr>fact_iris := fact_iris st @ decision_iris (Proposed k bundle rides_with),
        proposals_by_kind := bump k (proposals_by_kind st)\<rparr>"

lemma tally_log [simp]:
  "accepted_updates (tally d st) = accepted_updates st"
  "tally d (st\<lparr>accepted_updates := acc\<rparr>) = (tally d st)\<lparr>accepted_updates := acc\<rparr>"
  by (cases d; simp)+

lemma fold_tally_log [simp]:
  "accepted_updates (fold tally ds st) = accepted_updates st"
  "fold tally ds (st\<lparr>accepted_updates := acc\<rparr>) = (fold tally ds st)\<lparr>accepted_updates := acc\<rparr>"
  by (induction ds arbitrary: st) simp_all

definition after_updates :: "endpoint \<Rightarrow> pystr list \<Rightarrow> (run_state \<Rightarrow> run_state) \<Rightarrow> run_state \<Rightarrow> run_state \<times> unit result" where
  "after_updates post us f st = (case send_all post us (accepted_updates st) of
     (acc, Inl e) \<Rightarrow> (st\<lparr>accepted_updates := acc\<rparr>, Inl e)
   | (acc, Inr _) \<Rightarrow> ((f st)\<lparr>accepted_updates := acc\<rparr>, Inr ()))"

lemma after_no_updates [simp]: "after_updates post [] (tally d) st = (tally d st, Inr ())"
  by (cases d) (simp_all add: after_updates_def)

lemma route_proposal_decision:
  "route_proposal post allow ts r t st =
   after_updates post (decision_updates (propose allow ts r t)) (tally (propose allow ts r t)) st"
proof (cases "build_proposal_bundle t allow ts")
  case (Some b)
  show ?thesis
    by (simp add: route_proposal_def propose_def Some after_updates_def split: prod.split sum.split)
qed (simp add: route_proposal_def propose_def)

lemma route_instance_decision:
  "route_instance known t st =
   tally (if resolves_in_core t known then case_option Unplaceable Accepted (companion t) else Unplaceable) st"
  by (simp add: route_instance_def companion_def split: option.split)

lemma route_decision:
  "route post allow known ts out st =
   after_updates post (decision_updates (decide allow known ts out)) (tally (decide allow known ts out)) st"
proof (cases out)
  case (Some t)
  have rest: "routable t \<longleftrightarrow> tr_kind t \<in> {KIND_PROPERTY, KIND_RELATION}"
    if "tr_kind t \<noteq> KIND_INSTANCE" "tr_kind t \<noteq> KIND_CLASS"
    using that by (auto simp: routable_def VALID_KINDS_def)
  have instance_silent: "decision_updates (if b then case_option Unplaceable Accepted i else Unplaceable) = []" for b i
    by (simp split: option.split)
  show ?thesis
    unfolding Some route_def decide_def option.case
    using rest by (auto simp: route_proposal_decision route_instance_decision instance_silent)
qed (simp add: route_def decide_def)

lemma route_all_decisions:
  fixes outs allow known ts
  defines "ds \<equiv> map (decide allow known ts) (map snd outs)"
  shows "case send_all post (concat (map decision_updates ds)) (accepted_updates st) of
     (acc, Inl e) \<Rightarrow> accepted_updates (fst (route_all post allow known ts outs st)) = acc
        \<and> snd (route_all post allow known ts outs st) = Inl e
   | (acc, Inr _) \<Rightarrow> route_all post allow known ts outs st = ((fold tally ds st)\<lparr>accepted_updates := acc\<rparr>, Inr ())"
  unfolding ds_def
proof (induction outs arbitrary: st)
  case (Cons co outs)
  let ?d = "decide allow known ts (snd co)"
  obtain acc r where first_sent: "send_all post (decision_updates ?d) (accepted_updates st) = (acc, r)" by fastforce
  show ?case
  proof (cases r)
    case (Inl e)
    then show ?thesis
      using first_sent by (cases co) (simp add: send_all_append route_decision after_updates_def)
  next
    case (Inr u)
    let ?st = "(tally ?d st)\<lparr>accepted_updates := acc\<rparr>"
    have "route_all post allow known ts (co # outs) st = route_all post allow known ts outs ?st"
      using first_sent Inr by (cases co) (simp add: route_decision after_updates_def)
    moreover have "send_all post (concat (map decision_updates (map (decide allow known ts) (map snd (co # outs)))))
        (accepted_updates st) =
        send_all post (concat (map decision_updates (map (decide allow known ts) (map snd outs)))) (accepted_updates ?st)"
      using first_sent Inr by (simp add: send_all_append)
    ultimately show ?thesis using Cons.IH [of ?st] by (simp split: prod.splits sum.splits)
  qed
qed simp

section \<open>The accounts of a run\<close>

lemma bump_set: "fst ` set (bump k d) = insert k (fst ` set d)"
  by (induction k d rule: bump.induct) auto

lemma bump_keys: "distinct (map fst d) \<Longrightarrow> distinct (map fst (bump k d))"
proof (induction k d rule: bump.induct)
  case (2 k k' n d)
  then show ?case using bump_set [of k d] by auto
qed simp

lemma bump_total: "sum_list (map snd (bump k d)) = sum_list (map snd d) + 1"
  by (induction k d rule: bump.induct) auto

lemma bump_lookup: "map_of (bump k d) k' = (if k' = k then Some (case map_of d k of None \<Rightarrow> 1 | Some n \<Rightarrow> n + 1) else map_of d k')"
  by (induction k d rule: bump.induct) auto

definition kind_count :: "decision list \<Rightarrow> pystr \<Rightarrow> nat" where
  "kind_count ds k = length (filter (\<lambda>d. proposed_kind d = Some k) ds)"

text \<open>What the state holds once the decisions \<open>ds\<close> are carried out.\<close>

definition tallied :: "decision list \<Rightarrow> run_state \<Rightarrow> bool" where
  "tallied ds st \<longleftrightarrow> auto_accepted st = List.map_filter accepted_individual ds
     \<and> fact_iris st = concat (map decision_iris ds)
     \<and> dropped_malformed st = count_list ds Malformed \<and> triage_rejected st = count_list ds Refused
     \<and> rejected st = count_list ds Guarded \<and> dropped st = count_list ds Unplaceable
     \<and> distinct (map fst (proposals_by_kind st))
     \<and> (\<forall>k. kind_count ds k = (case map_of (proposals_by_kind st) k of None \<Rightarrow> 0 | Some n \<Rightarrow> n))
     \<and> length ds = sum_list (map snd (proposals_by_kind st)) + length (auto_accepted st) + rejected st
         + triage_rejected st + dropped_malformed st + dropped st"

lemma count_list_snoc: "count_list (xs @ [y]) x = count_list xs x + (if y = x then 1 else 0)"
  by (induction xs) auto

lemma map_filter_snoc: "List.map_filter f (xs @ ys) = List.map_filter f xs @ List.map_filter f ys"
  by (simp add: List.map_filter_def)

lemma tallied_step: "tallied ds st \<Longrightarrow> tallied (ds @ [d]) (tally d st)"
  by (cases d) (auto simp: tallied_def count_list_snoc map_filter_snoc kind_count_def bump_keys bump_total
      bump_lookup map_filter_simps split: option.splits)

lemma tallied_fold: "tallied ds st \<Longrightarrow> tallied (ds @ ds') (fold tally ds' st)"
proof (induction ds' arbitrary: ds st)
  case (Cons d ds')
  from Cons.IH [OF tallied_step [OF Cons.prems]] show ?case by simp
qed simp

lemma tallied_start: "tallied ds (fold tally ds (start_state acc))"
  using tallied_fold [of "[]" "start_state acc" ds]
  by (simp add: tallied_def start_state_def kind_count_def map_filter_simps)

lemma tallied_log [simp]: "tallied ds (st\<lparr>accepted_updates := acc\<rparr>) = tallied ds st"
  by (simp add: tallied_def)

lemma tallied_accounts:
  assumes "tallied ds st" "length cs = length ds"
  shows "accounts ds (summarize cs st)"
proof -
  have "n = kind_count ds k" if "(k, n) \<in> set (proposals_by_kind st)" for k n
    using that assms(1) by (simp add: tallied_def map_of_is_SomeI)
  then show ?thesis
    using assms by (auto simp: accounts_def summarize_def tallied_def list_all_iff kind_count_def)
qed

lemma tallied_final:
  "tallied ds st \<Longrightarrow> final_updates ts st =
     auto_accepted_updates (List.map_filter accepted_individual ds) ts @
     generation_edge_updates (sorted_list_of_set (set (concat (map decision_iris ds)))) ts"
  by (simp add: final_updates_def tallied_def generation_edge_updates_def)

section \<open>Properties of a run\<close>

abbreviation decisions :: "qudt_allowlist \<Rightarrow> pystr set \<Rightarrow> pystr \<Rightarrow> (mined \<Rightarrow> triaged option) \<Rightarrow> mined list \<Rightarrow> decision list" where
  "decisions allow known ts worker cs \<equiv> map (\<lambda>c. decide allow known ts (worker c)) cs"

lemma run_mine_eq:
  assumes "send_all post [mine_stable_activity_insert_data, mine_activity_insert_data ts] acc = (a, r)"
    "triage_all workers schedule worker cs = Inr outs"
  shows "run_mine post (Some worker) allow known workers schedule ts cs acc =
    (case r of Inl e \<Rightarrow> (a, Inl e)
     | Inr _ \<Rightarrow> (case route_all post allow known ts outs (start_state a) of
         (st, Inl e) \<Rightarrow> (accepted_updates st, Inl e)
       | (st, Inr _) \<Rightarrow> (case send_all post (final_updates ts st) (accepted_updates st) of
           (acc, Inl e) \<Rightarrow> (acc, Inl e) | (acc, Inr _) \<Rightarrow> (acc, Inr (summarize cs st)))))"
  unfolding run_mine_def option.case assms prod.case sum.case ..

lemma run_mine_plan:
  fixes allow known ts worker cs
  defines "ds \<equiv> decisions allow known ts worker cs"
  assumes "set schedule = {..<length cs}" "0 < workers"
  shows "\<exists>s. accounts ds s \<and> run_mine post (Some worker) allow known workers schedule ts cs acc =
    (case send_all post (mining_plan ts ds) acc of (acc, Inl e) \<Rightarrow> (acc, Inl e) | (acc, Inr _) \<Rightarrow> (acc, Inr s))"
proof -
  let ?acts = "[mine_stable_activity_insert_data, mine_activity_insert_data ts]"
  let ?outs = "zip cs (pool_map schedule worker cs)"
  let ?facts = "concat (map decision_updates ds)"
  let ?st = "fold tally ds (start_state acc)"
  let ?fin = "final_updates ts ?st"
  have zip: "map snd ?outs = map worker cs" using assms(2) by (simp add: pool_map_eq)
  have ds: "map (decide allow known ts) (map snd ?outs) = ds" unfolding zip ds_def by simp
  have triage: "triage_all workers schedule worker cs = Inr ?outs" using assms(3) by (simp add: triage_all_def)
  have plan: "mining_plan ts ds = ?acts @ ?facts @ ?fin"
    by (simp add: mining_plan_def tallied_final [OF tallied_start])
  have same: "fold tally ds (start_state a) = ?st\<lparr>accepted_updates := a\<rparr>" for a
  proof -
    have "start_state a = (start_state acc)\<lparr>accepted_updates := a\<rparr>" by (simp add: start_state_def)
    then show ?thesis by simp
  qed
  have "run_mine post (Some worker) allow known workers schedule ts cs acc =
    (case send_all post (?acts @ ?facts @ ?fin) acc of (acc, Inl e) \<Rightarrow> (acc, Inl e) | (acc, Inr _) \<Rightarrow> (acc, Inr (summarize cs ?st)))"
  proof -
    obtain a r where a: "send_all post ?acts acc = (a, r)" by fastforce
    obtain b q where b: "send_all post ?facts a = (b, q)" by fastforce
    have start: "accepted_updates (start_state a) = a" by (simp add: start_state_def)
    note routed = route_all_decisions [of post allow known ts ?outs "start_state a", unfolded ds start b prod.case]
    have final: "summarize cs (?st\<lparr>accepted_updates := b\<rparr>) = summarize cs ?st"
        "final_updates ts (?st\<lparr>accepted_updates := b\<rparr>) = ?fin"
      by (simp_all add: summarize_def final_updates_def)
    note eq = run_mine_eq [OF a triage]
    show ?thesis
    proof (cases r)
      case (Inl e)
      show ?thesis unfolding eq send_all_append [of post ?acts] a Inl by simp
    next
      case r: (Inr u)
      show ?thesis
      proof (cases q)
        case (Inl e)
        then obtain st where "route_all post allow known ts ?outs (start_state a) = (st, Inl e)" "accepted_updates st = b"
          using routed by (cases "route_all post allow known ts ?outs (start_state a)") simp
        then show ?thesis
          unfolding eq send_all_append [of post ?acts] send_all_append [of post ?facts] a r
          by (simp add: b Inl)
      next
        case (Inr u')
        then have "route_all post allow known ts ?outs (start_state a) = (?st\<lparr>accepted_updates := b\<rparr>, Inr ())"
          using routed by (simp add: same [of a])
        then show ?thesis
          unfolding eq send_all_append [of post ?acts] send_all_append [of post ?facts] a r
          by (simp add: b Inr final)
      qed
    qed
  qed
  moreover have "accounts ds (summarize cs ?st)"
    by (rule tallied_accounts [OF tallied_start]) (simp add: ds_def)
  ultimately show ?thesis unfolding plan by blast
qed

text \<open>C19. A run sends one planned sequence of updates: the two activity records, then what its decisions
  about the candidates assert, in candidate order, then the accepted individuals and the attribution of
  every proposal, observation and companion to the run. What the store accepts is a prefix of that
  sequence, and the run returns a summary exactly when it is all of it. The summary counts each candidate
  under one heading.\<close>

theorem run_mine_outcomes:
  assumes "set schedule = {..<length cs}" "0 < workers"
  shows "\<exists>k \<le> length (mining_plan ts (decisions allow known ts worker cs)).
      fst (run_mine post (Some worker) allow known workers schedule ts cs acc) =
        acc @ take k (mining_plan ts (decisions allow known ts worker cs))
    \<and> (case snd (run_mine post (Some worker) allow known workers schedule ts cs acc) of
         Inl _ \<Rightarrow> k < length (mining_plan ts (decisions allow known ts worker cs))
       | Inr s \<Rightarrow> k = length (mining_plan ts (decisions allow known ts worker cs))
           \<and> accounts (decisions allow known ts worker cs) s)"
proof -
  let ?plan = "mining_plan ts (decisions allow known ts worker cs)"
  let ?run = "run_mine post (Some worker) allow known workers schedule ts cs acc"
  obtain s where s: "accounts (decisions allow known ts worker cs) s"
      "?run = (case send_all post ?plan acc of (acc, Inl e) \<Rightarrow> (acc, Inl e) | (acc, Inr _) \<Rightarrow> (acc, Inr s))"
    using run_mine_plan [OF assms] by blast
  obtain k where k: "k \<le> length ?plan" "fst (send_all post ?plan acc) = acc @ take k ?plan"
      "snd (send_all post ?plan acc) = Inr () \<longleftrightarrow> k = length ?plan"
    using send_all_prefix by blast
  have "fst ?run = acc @ take k ?plan \<and>
      (case snd ?run of Inl _ \<Rightarrow> k < length ?plan | Inr s \<Rightarrow> k = length ?plan \<and> accounts (decisions allow known ts worker cs) s)"
    using s k by (cases "send_all post ?plan acc"; cases "snd (send_all post ?plan acc)") auto
  then show ?thesis using k(1) by blast
qed

definition sample_worker :: "mined \<Rightarrow> triaged option" where
  "sample_worker c = (if ca_term c = lit ''graphite'' then Some (sample_triaged [sample_evidence 7]) else None)"

definition sample_candidates :: "mined list" where
  "sample_candidates = [tr_candidate (sample_triaged []), (tr_candidate (sample_triaged []))\<lparr>ca_term := lit ''x''\<rparr>]"

definition sample_allowlist :: qudt_allowlist where
  "sample_allowlist = \<lparr>al_units = {}, al_quantity_kinds = {}\<rparr>"

lemma sample_schedule: "set [1, 0] = {..<length sample_candidates}"
  by (auto simp: sample_candidates_def)

lemma run_mine_outcomes_witness:
  "\<forall>post acc. \<exists>k. fst (run_mine post (Some sample_worker) sample_allowlist {} 4 [1, 0] (lit ''t1'') sample_candidates acc) =
     acc @ take k (mining_plan (lit ''t1'') (decisions sample_allowlist {} (lit ''t1'') sample_worker sample_candidates))"
  using run_mine_outcomes [OF sample_schedule, of 4 "lit ''t1''" sample_allowlist "{}" sample_worker] by fastforce

text \<open>C27. On an endpoint that accepts its updates a run ends with a summary, whatever the model replied, and
  everything planned is in the store: the miner drops candidates, it does not stop at them.\<close>

theorem run_mine_completes:
  assumes "set schedule = {..<length cs}" "0 < workers"
    "\<And>acc u. update_outcome (post acc u) = Inr ()"
  shows "\<exists>s. run_mine post (Some worker) allow known workers schedule ts cs acc =
      (acc @ mining_plan ts (decisions allow known ts worker cs), Inr s)
    \<and> accounts (decisions allow known ts worker cs) s"
proof -
  have "send_all post us acc = (acc @ us, Inr ())" for us
    by (induction us arbitrary: acc) (simp_all add: update_def assms(3))
  moreover obtain s where "accounts (decisions allow known ts worker cs) s"
    "run_mine post (Some worker) allow known workers schedule ts cs acc =
      (case send_all post (mining_plan ts (decisions allow known ts worker cs)) acc of
         (acc, Inl e) \<Rightarrow> (acc, Inl e) | (acc, Inr _) \<Rightarrow> (acc, Inr s))"
    using run_mine_plan [OF assms(1,2)] by blast
  ultimately show ?thesis by auto
qed

lemma run_mine_completes_witness:
  "\<exists>s. run_mine (\<lambda>_ _. Some \<lparr>is_error = False, response_text = []\<rparr>) (Some sample_worker) sample_allowlist {} 4 [1, 0]
      (lit ''t1'') sample_candidates [] =
     (mining_plan (lit ''t1'') (decisions sample_allowlist {} (lit ''t1'') sample_worker sample_candidates), Inr s)"
proof -
  have accepts: "update_outcome (Some \<lparr>is_error = False, response_text = []\<rparr>) = Inr ()"
    by (simp add: update_outcome_def)
  from run_mine_completes [OF sample_schedule, of 4 "\<lambda>_ _. Some \<lparr>is_error = False, response_text = []\<rparr>"
      sample_worker sample_allowlist "{}" "lit ''t1''" "[]"] accepts
  show ?thesis by auto
qed

section \<open>Type references of instances\<close>

text \<open>An accepted individual's type is one term of an update.\<close>

lemma companion_type_term: "companion t = Some i \<Longrightarrow> sparql_term (in_type_iri i)"
  by (auto simp: companion_def as_type_ref_def safe_type_ref_term split: option.splits)

text \<open>A core class named without its prefix is normalized for the individual but not for the test, so the
  candidate is dropped.\<close>

lemma bare_core_type_dropped:
  "safe_type_ref (Some (lit ''MoltenSalt'')) = Some (lit ''msr:MoltenSalt'')
   \<and> lit ''msr:MoltenSalt'' \<in> set CORE_TYPES
   \<and> \<not> resolves_in_core ((sample_triaged [])\<lparr>tr_placement := no_placement\<lparr>broader_class := Some (lit ''MoltenSalt'')\<rparr>\<rparr>) {}"
  by (simp add: safe_type_ref_def BARE_LOCAL_RE_def bare_char_def is_alpha_ascii_def is_upper_def is_lower_def
      starts_with_def lit_def CORE_TYPES_def resolves_in_core_def no_placement_def)

end
