(* ===== verification/Normalizer.thy ===== *)
theory Normalizer
  imports Slug
begin

text \<open>
  \<open>normalizer.py\<close>: the conservative cleaning of OCR text. Each substitution of the module is a
  scanner over the code points; the patterns are such that a match is determined by its start.
\<close>

section \<open>The five steps\<close>

definition LIGATURE_MAP :: "nat \<Rightarrow> pystr" where
  "LIGATURE_MAP c =
     (if c = 64256 then lit ''ff'' else if c = 64257 then lit ''fi'' else if c = 64258 then lit ''fl''
      else if c = 64259 then lit ''ffi'' else if c = 64260 then lit ''ffl'' else [c])"

definition control_char :: "nat \<Rightarrow> bool" where
  "control_char c \<longleftrightarrow> c < 9 \<or> c = 11 \<or> c = 12 \<or> 14 \<le> c \<and> c < 32"

definition apply_ocr_confusions :: "pystr \<Rightarrow> pystr" where
  "apply_ocr_confusions text = filter (\<lambda>c. \<not> control_char c) (concat (map LIGATURE_MAP text))"

definition blank :: "nat \<Rightarrow> bool" where
  "blank c \<longleftrightarrow> c = 32 \<or> c = 9"

text \<open>What follows \<open>[ \t]*\r?\n[ \t]*\<close> at the start of a text.\<close>

definition after_break :: "pystr \<Rightarrow> pystr option" where
  "after_break s =
     (let t = dropWhile blank s; u = (if t \<noteq> [] \<and> hd t = 13 then tl t else t)
      in if u \<noteq> [] \<and> hd u = 10 then Some (dropWhile blank (tl u)) else None)"

lemma after_break_length: "after_break s = Some t \<Longrightarrow> length t < length s"
proof -
  assume a: "after_break s = Some t"
  let ?t = "dropWhile blank s" and ?u = "if dropWhile blank s \<noteq> [] \<and> hd (dropWhile blank s) = 13
    then tl (dropWhile blank s) else dropWhile blank s"
  have u: "?u \<noteq> []" "t = dropWhile blank (tl ?u)" using a by (auto simp: after_break_def Let_def split: if_splits)
  have "length ?u \<le> length s" using length_dropWhile_le [of blank s] by (auto intro: le_trans)
  moreover have "length t \<le> length (tl ?u)" using u(2) length_dropWhile_le by metis
  moreover have "length (tl ?u) < length ?u" using u(1) by (cases ?u) auto
  ultimately show ?thesis by linarith
qed

text \<open>The two substitutions of \<open>_dehyphenate\<close>; \<open>soft\<close> is the lookbehind \<open>(?<=[a-z])\<close>.\<close>

function join_soft :: "bool \<Rightarrow> pystr \<Rightarrow> pystr" where
  "join_soft soft [] = []"
| "join_soft soft (c # cs) =
     (case after_break cs of
        Some rest \<Rightarrow> if soft \<and> c = 45 \<and> rest \<noteq> [] \<and> is_lower (hd rest) then join_soft False rest
          else c # join_soft (is_lower c) cs
      | None \<Rightarrow> c # join_soft (is_lower c) cs)"
  by pat_completeness auto
termination by (relation "measure (length \<circ> snd)") (auto dest: after_break_length)

function join_kept :: "pystr \<Rightarrow> pystr" where
  "join_kept [] = []"
| "join_kept (c # cs) =
     (case after_break cs of
        Some rest \<Rightarrow> if c = 45 then 45 # join_kept rest else c # join_kept cs
      | None \<Rightarrow> c # join_kept cs)"
  by pat_completeness auto
termination by (relation "measure length") (auto dest: after_break_length)

definition dehyphenate :: "pystr \<Rightarrow> pystr" where
  "dehyphenate text = join_kept (join_soft False text)"

definition INTRA_WORD_SPLIT_TABLE :: "(pystr \<times> pystr) list" where
  "INTRA_WORD_SPLIT_TABLE =
     [(lit ''THERMAL-STRE SS'', lit ''THERMAL-STRESS''), (lit ''CORRO SION'', lit ''CORROSION''),
      (lit ''MODERA TOR'', lit ''MODERATOR'')]"

definition rejoin_intra_word_splits :: "pystr \<Rightarrow> pystr" where
  "rejoin_intra_word_splits text =
     fold (\<lambda>(split_word, joined) text. replace split_word joined text) INTRA_WORD_SPLIT_TABLE text"

text \<open>\<open>[ \t]+\<close> to a space, \<open>[ \t]+\n\<close> to a newline, \<open>\n{3,}\<close> to two, a single newline to a space.\<close>

function collapse_blanks :: "pystr \<Rightarrow> pystr" where
  "collapse_blanks [] = []"
| "collapse_blanks (c # cs) = (if blank c then 32 # collapse_blanks (dropWhile blank cs) else c # collapse_blanks cs)"
  by pat_completeness auto
termination by (relation "measure length") (auto simp: less_Suc_eq_le length_dropWhile_le)

function strip_line_ends :: "pystr \<Rightarrow> pystr" where
  "strip_line_ends [] = []"
| "strip_line_ends (c # cs) =
     (let rest = dropWhile blank cs
      in if blank c \<and> rest \<noteq> [] \<and> hd rest = 10 then 10 # strip_line_ends (tl rest)
         else c # strip_line_ends cs)"
  by pat_completeness auto
termination
proof (relation "measure length")
  fix c :: nat and cs :: pystr and rest
  assume "rest = dropWhile blank cs"
  then have "length rest \<le> length cs" by (simp add: length_dropWhile_le)
  then show "(tl rest, c # cs) \<in> measure length" by simp
qed simp_all

definition newline_run :: "pystr \<Rightarrow> nat" where
  "newline_run s = length (takeWhile (\<lambda>c. c = 10) s)"

function bound_breaks :: "pystr \<Rightarrow> pystr" where
  "bound_breaks [] = []"
| "bound_breaks (c # cs) =
     (if c = 10 then replicate (min 2 (Suc (newline_run cs))) 10 @ bound_breaks (dropWhile (\<lambda>c. c = 10) cs)
      else c # bound_breaks cs)"
  by pat_completeness auto
termination by (relation "measure length") (auto simp: less_Suc_eq_le length_dropWhile_le)

fun fold_newlines :: "bool \<Rightarrow> pystr \<Rightarrow> pystr" where
  "fold_newlines after_newline [] = []"
| "fold_newlines after_newline (c # cs) =
     (if c = 10 \<and> \<not> after_newline \<and> (cs = [] \<or> hd cs \<noteq> 10) then 32 else c) # fold_newlines (c = 10) cs"

definition normalize_whitespace :: "pystr \<Rightarrow> pystr" where
  "normalize_whitespace text =
     fold_newlines False (bound_breaks (strip_line_ends (collapse_blanks
       (replace [13] [10] (replace [13, 10] [10] text)))))"

text \<open>Subscript digits, superscript digits and signs.\<close>

definition SUB_SUPERSCRIPT_TABLE :: "nat \<Rightarrow> nat" where
  "SUB_SUPERSCRIPT_TABLE c =
     (if 8320 \<le> c \<and> c \<le> 8329 then c - 8320 + 48
      else if c = 8304 then 48 else if c = 185 then 49 else if c = 178 then 50 else if c = 179 then 51
      else if 8308 \<le> c \<and> c \<le> 8313 then c - 8304 + 48
      else if c = 8315 then 45 else if c = 8314 then 43 else c)"

definition normalize_sub_superscripts :: "pystr \<Rightarrow> pystr" where
  "normalize_sub_superscripts text = map SUB_SUPERSCRIPT_TABLE text"

definition normalize_text :: "pystr \<Rightarrow> pystr" where
  "normalize_text text = normalize_sub_superscripts (normalize_whitespace (rejoin_intra_word_splits
     (dehyphenate (apply_ocr_confusions text))))"

section \<open>Nothing visible is lost\<close>

text \<open>Everything but blanks, line breaks and hyphens.\<close>

definition ink :: "nat \<Rightarrow> bool" where
  "ink c \<longleftrightarrow> c \<notin> {9, 10, 13, 32, 45}"

lemma ink_blank: "blank c \<Longrightarrow> \<not> ink c"
  by (auto simp: blank_def ink_def)

lemma filter_dropWhile: "(\<And>c. p c \<Longrightarrow> \<not> q c) \<Longrightarrow> filter q (dropWhile p s) = filter q s"
  by (induction s) auto

lemma ink_after_break: "after_break s = Some t \<Longrightarrow> filter ink t = filter ink s"
proof -
  assume a: "after_break s = Some t"
  let ?t = "dropWhile blank s"
  have s: "filter ink ?t = filter ink s" by (rule filter_dropWhile) (rule ink_blank)
  show ?thesis
  proof (cases "?t \<noteq> [] \<and> hd ?t = 13")
    case True
    then obtain v where v: "?t = 13 # 10 # v" "t = dropWhile blank v"
      using a by (cases ?t; cases "tl ?t") (auto simp: after_break_def Let_def split: if_splits)
    have "filter ink t = filter ink v" unfolding v(2) by (rule filter_dropWhile) (rule ink_blank)
    then show ?thesis using s v(1) by (simp add: ink_def)
  next
    case False
    then obtain v where v: "?t = 10 # v" "t = dropWhile blank v"
      using a by (cases ?t) (auto simp: after_break_def Let_def split: if_splits)
    have "filter ink t = filter ink v" unfolding v(2) by (rule filter_dropWhile) (rule ink_blank)
    then show ?thesis using s v(1) by (simp add: ink_def)
  qed
qed

lemma ink_join_soft: "filter ink (join_soft soft s) = filter ink s"
  by (induction soft s rule: join_soft.induct)
    (auto split: option.split simp: ink_after_break, simp add: ink_def)

lemma ink_join_kept: "filter ink (join_kept s) = filter ink s"
  by (induction s rule: join_kept.induct) (auto split: option.split simp: ink_after_break)

lemma filter_replace: "filter p old = filter p new \<Longrightarrow> filter p (replace old new s) = filter p s"
proof (induction old new s rule: replace.induct)
  case (2 old new x xs)
  show ?case
  proof (cases "old \<noteq> [] \<and> starts_with old (x # xs)")
    case True
    then have split: "x # xs = old @ drop (length old) (x # xs)"
      using append_take_drop_id [of "length old" "x # xs"] by (simp only: starts_with_def)
    have "filter p (replace old new (x # xs)) = filter p old @ filter p (drop (length old) (x # xs))"
      using True 2 by simp
    also have "\<dots> = filter p (old @ drop (length old) (x # xs))" by simp
    finally show ?thesis using split by simp
  qed (use 2 in auto)
qed simp

lemma ink_rejoin: "filter ink (rejoin_intra_word_splits s) = filter ink s"
  by (simp add: rejoin_intra_word_splits_def INTRA_WORD_SPLIT_TABLE_def filter_replace lit_def ink_def)

lemma ink_collapse_blanks: "filter ink (collapse_blanks s) = filter ink s"
  by (induction s rule: collapse_blanks.induct) (auto simp: ink_blank filter_dropWhile, simp add: ink_def)

lemma ink_strip_line_ends: "filter ink (strip_line_ends s) = filter ink s"
proof (induction s rule: strip_line_ends.induct)
  case (2 c cs)
  let ?rest = "dropWhile blank cs"
  have rest: "filter ink ?rest = filter ink cs" by (rule filter_dropWhile) (rule ink_blank)
  show ?case
  proof (cases "blank c \<and> ?rest \<noteq> [] \<and> hd ?rest = 10")
    case True
    then obtain v where "?rest = 10 # v" by (cases ?rest) auto
    moreover have "\<not> ink 10" by (simp add: ink_def)
    ultimately show ?thesis using True 2(1) [OF refl] rest by (simp add: ink_blank)
  next
    case False
    then have "strip_line_ends (c # cs) = c # strip_line_ends cs" by (simp only: strip_line_ends.simps Let_def if_False)
    then show ?thesis using 2(2) [OF refl False] by simp
  qed
qed simp

lemma ink_bound_breaks: "filter ink (bound_breaks s) = filter ink s"
  by (induction s rule: bound_breaks.induct)
    (auto simp: filter_dropWhile ink_def newline_run_def filter_empty_conv)

lemma ink_fold_newlines: "filter ink (fold_newlines b s) = filter ink s"
  by (induction b s rule: fold_newlines.induct) (auto simp: ink_def)

lemma ink_normalize_whitespace: "filter ink (normalize_whitespace s) = filter ink s"
  by (simp add: normalize_whitespace_def ink_fold_newlines ink_bound_breaks ink_strip_line_ends
      ink_collapse_blanks filter_replace ink_def)

section \<open>The shape of the result\<close>

text \<open>The lengths of the maximal runs of newlines.\<close>

function newline_runs :: "pystr \<Rightarrow> nat list" where
  "newline_runs [] = []"
| "newline_runs (c # cs) = (if c = 10 then Suc (newline_run cs) # newline_runs (dropWhile (\<lambda>c. c = 10) cs)
     else newline_runs cs)"
  by pat_completeness auto
termination by (relation "measure length") (auto simp: less_Suc_eq_le length_dropWhile_le)

lemma bound_breaks_not_newline:
  "cs = [] \<or> hd cs \<noteq> 10 \<Longrightarrow> bound_breaks cs = [] \<or> hd (bound_breaks cs) \<noteq> 10"
  by (cases cs) auto

lemma after_run: "dropWhile (\<lambda>c. c = 10) cs = [] \<or> hd (dropWhile (\<lambda>c. c = (10::nat)) cs) \<noteq> 10"
  using hd_dropWhile [of "\<lambda>c. c = 10" cs] by blast

lemma newline_run_append:
  "s = [] \<or> hd s \<noteq> 10 \<Longrightarrow> newline_run (replicate n 10 @ s) = n
     \<and> dropWhile (\<lambda>c. c = 10) (replicate n 10 @ s) = s"
  by (induction n; cases s) (auto simp: newline_run_def)

lemma newline_runs_bound: "list_all (\<lambda>n. n \<le> 2) (newline_runs (bound_breaks s))"
proof (induction s rule: bound_breaks.induct)
  case (2 c cs)
  show ?case
  proof (cases "c = 10")
    case True
    let ?rest = "bound_breaks (dropWhile (\<lambda>c. c = 10) cs)" and ?n = "min 1 (newline_run cs)"
    have "?rest = [] \<or> hd ?rest \<noteq> 10" using after_run by (rule bound_breaks_not_newline)
    from newline_run_append [OF this, of ?n] have "newline_run (replicate ?n 10 @ ?rest) = ?n"
      "dropWhile (\<lambda>c. c = 10) (replicate ?n 10 @ ?rest) = ?rest" by blast+
    moreover have "bound_breaks (c # cs) = 10 # replicate ?n 10 @ ?rest"
      using True by (cases "newline_run cs") simp_all
    ultimately have "newline_runs (bound_breaks (c # cs)) = Suc ?n # newline_runs ?rest" by simp
    then show ?thesis using 2 True by simp
  qed (use 2 in simp)
qed simp

lemma fold_newlines_start: "cs = [] \<or> hd cs \<noteq> 10 \<Longrightarrow> fold_newlines b cs = fold_newlines b' cs"
  by (cases cs) auto

lemma newline_run_0: "newline_run cs = 0 \<longleftrightarrow> cs = [] \<or> hd cs \<noteq> 10"
  by (cases cs) (auto simp: newline_run_def)

lemma newline_run_fold: "cs = [] \<or> hd cs \<noteq> 10 \<Longrightarrow> newline_run (fold_newlines False cs) = 0"
  by (cases cs) (auto simp: newline_run_def)

lemma newline_runs_fold:
  "list_all (\<lambda>n. n \<le> 2) (newline_runs s) \<Longrightarrow> list_all (\<lambda>n. n = 2) (newline_runs (fold_newlines False s))"
proof (induction s rule: newline_runs.induct)
  case (2 c cs)
  show ?case
  proof (cases "c = 10")
    case True
    then have n: "newline_run cs \<le> 1" using 2(3) by simp
    show ?thesis
    proof (cases "newline_run cs")
      case 0
      then have cs: "cs = [] \<or> hd cs \<noteq> 10" by (simp add: newline_run_0)
      then have "dropWhile (\<lambda>c. c = 10) cs = cs" by (cases cs) auto
      then show ?thesis
        using 2(1) [OF True] 2(3) True cs fold_newlines_start [OF cs, of True False] by simp
    next
      case (Suc m)
      then obtain ds where ds: "cs = 10 # ds" "newline_run ds = 0"
        using n by (cases cs) (auto simp: newline_run_def split: if_splits)
      then have nd: "ds = [] \<or> hd ds \<noteq> 10" by (simp add: newline_run_0)
      have "dropWhile (\<lambda>c. c = 10) ds = ds" using nd by (cases ds) auto
      moreover have "dropWhile (\<lambda>c. c = 10) (fold_newlines False ds) = fold_newlines False ds"
        using newline_run_fold [OF nd] by (cases "fold_newlines False ds") (auto simp: newline_run_def split: if_splits)
      moreover have "newline_run (10 # fold_newlines False ds) = 1"
        using newline_run_fold [OF nd] by (simp add: newline_run_def)
      ultimately show ?thesis
        using 2(1) [OF True] 2(3) True ds fold_newlines_start [OF nd, of True False] by simp
    qed
  next
    case False
    then show ?thesis using 2 by simp
  qed
qed simp

lemma table_newline: "SUB_SUPERSCRIPT_TABLE c = 10 \<longleftrightarrow> c = 10"
  by (auto simp: SUB_SUPERSCRIPT_TABLE_def)

lemma newline_runs_table: "newline_runs (map SUB_SUPERSCRIPT_TABLE s) = newline_runs s"
proof (induction s rule: newline_runs.induct)
  case (2 c cs)
  then show ?case
    by (auto simp: table_newline newline_run_def takeWhile_map dropWhile_map comp_def)
qed simp

lemma newline_runs_normalize_text: "list_all (\<lambda>n. n = 2) (newline_runs (normalize_text s))"
  by (simp add: normalize_text_def normalize_sub_superscripts_def newline_runs_table normalize_whitespace_def
      newline_runs_fold newline_runs_bound)

text \<open>No step but the character tables adds a character other than a space, newline or hyphen.\<close>

lemma set_after_break: "after_break s = Some t \<Longrightarrow> set t \<subseteq> set s"
  by (auto simp: after_break_def Let_def split: if_splits dest!: set_dropWhileD list.set_sel(2) [rotated])

lemma set_join_soft: "set (join_soft b s) \<subseteq> set s"
proof (induction b s rule: join_soft.induct)
  case (2 soft c cs)
  show ?case
  proof (cases "after_break cs")
    case (Some t)
    then show ?thesis using 2(2,3) [OF Some] set_after_break [OF Some] by auto
  qed (use 2(1) in auto)
qed simp

lemma set_join_kept: "set (join_kept s) \<subseteq> set s"
proof (induction s rule: join_kept.induct)
  case (2 c cs)
  show ?case
  proof (cases "after_break cs")
    case (Some t)
    then show ?thesis using 2(2,3) [OF Some] set_after_break [OF Some] by auto
  qed (use 2(1) in auto)
qed simp

lemma set_replace: "set (replace old new s) \<subseteq> set new \<union> set s"
proof (induction old new s rule: replace.induct)
  case (2 old new x xs)
  then show ?case using set_drop_subset [of "length old" "x # xs"] by (simp del: drop_Cons') blast
qed simp

lemma set_rejoin: "set (rejoin_intra_word_splits s) \<subseteq> set s \<union> {c. 32 \<le> c}"
proof -
  have "set (replace old new u) \<subseteq> set s \<union> {c. 32 \<le> c}"
    if "set u \<subseteq> set s \<union> {c. 32 \<le> c}" "list_all (\<lambda>c. 32 \<le> c) new" for old new u
    using set_replace [of old new u] that by (auto simp: list_all_iff)
  then show ?thesis by (simp add: rejoin_intra_word_splits_def INTRA_WORD_SPLIT_TABLE_def lit_def)
qed

lemma set_collapse_blanks: "set (collapse_blanks s) \<subseteq> insert 32 (set s - {9})"
  by (induction s rule: collapse_blanks.induct) (auto simp: blank_def dest: set_dropWhileD)

lemma set_strip_line_ends: "set (strip_line_ends s) \<subseteq> insert 10 (set s)"
proof (induction s rule: strip_line_ends.induct)
  case (2 c cs)
  have "set (tl d) \<subseteq> set d" for d :: pystr by (cases d) auto
  then have "set (tl (dropWhile blank cs)) \<subseteq> set cs" by (meson set_dropWhileD subset_iff)
  then show ?case using 2 by (auto simp: Let_def)
qed simp

lemma set_bound_breaks: "set (bound_breaks s) \<subseteq> insert 10 (set s)"
  by (induction s rule: bound_breaks.induct) (auto dest: set_dropWhileD)

lemma set_fold_newlines: "set (fold_newlines b s) \<subseteq> insert 32 (set s)"
  by (induction b s rule: fold_newlines.induct) auto

lemma replace_cr: "13 \<notin> set (replace [13] [10] s)"
  by (induction "[13] :: pystr" "[10] :: pystr" s rule: replace.induct) (auto simp: starts_with_def)

lemma set_normalize_whitespace: "set (normalize_whitespace s) \<subseteq> {10, 32} \<union> (set s - {9, 13})"
proof -
  let ?a = "replace [13] [10] (replace [13, 10] [10] s)"
  have "set ?a \<subseteq> insert 10 (set s) - {13}"
    using set_replace [of "[13]" "[10]" "replace [13, 10] [10] s"] set_replace [of "[13, 10]" "[10]" s] replace_cr
    by auto
  moreover have "set (normalize_whitespace s) \<subseteq> {10, 32} \<union> (set ?a - {9})"
  proof -
    have "set (strip_line_ends (collapse_blanks ?a)) \<subseteq> {10, 32} \<union> (set ?a - {9})"
      using set_strip_line_ends [of "collapse_blanks ?a"] set_collapse_blanks [of ?a] by blast
    then have "set (bound_breaks (strip_line_ends (collapse_blanks ?a))) \<subseteq> {10, 32} \<union> (set ?a - {9})"
      using set_bound_breaks [of "strip_line_ends (collapse_blanks ?a)"] by blast
    then show ?thesis
      unfolding normalize_whitespace_def
      using set_fold_newlines [of False "bound_breaks (strip_line_ends (collapse_blanks ?a))"] by blast
  qed
  ultimately show ?thesis by auto
qed

lemma set_apply_ocr_confusions: "c \<in> set (apply_ocr_confusions s) \<Longrightarrow> c \<in> {9, 10, 13} \<or> 32 \<le> c"
  by (auto simp: apply_ocr_confusions_def control_char_def)

lemma normalize_text_chars: "c \<in> set (normalize_text s) \<Longrightarrow> c = 10 \<or> 32 \<le> c"
proof -
  let ?a = "rejoin_intra_word_splits (dehyphenate (apply_ocr_confusions s))"
  have a: "c \<in> {9, 10, 13} \<or> 32 \<le> c" if "c \<in> set ?a" for c
    using that set_rejoin [of "dehyphenate (apply_ocr_confusions s)"] set_join_kept set_join_soft set_apply_ocr_confusions
    unfolding dehyphenate_def by blast
  assume "c \<in> set (normalize_text s)"
  then obtain d where d: "c = SUB_SUPERSCRIPT_TABLE d" "d \<in> set (normalize_whitespace ?a)"
    by (auto simp: normalize_text_def normalize_sub_superscripts_def)
  then have "d = 10 \<or> 32 \<le> d" using set_normalize_whitespace [of ?a] a by fastforce
  then show ?thesis using d(1) by (auto simp: SUB_SUPERSCRIPT_TABLE_def)
qed

lemma ink_table: "filter ink (map SUB_SUPERSCRIPT_TABLE s) = filter ink (map SUB_SUPERSCRIPT_TABLE (filter ink s))"
proof -
  have "\<not> ink c \<Longrightarrow> \<not> ink (SUB_SUPERSCRIPT_TABLE c)" for c
    by (auto simp: SUB_SUPERSCRIPT_TABLE_def ink_def)
  then show ?thesis by (induction s) auto
qed

lemma normalize_text_ink:
  "filter ink (normalize_text s) = filter ink (normalize_sub_superscripts (apply_ocr_confusions s))"
proof -
  have "filter ink (map SUB_SUPERSCRIPT_TABLE (normalize_whitespace (rejoin_intra_word_splits (dehyphenate t))))
      = filter ink (map SUB_SUPERSCRIPT_TABLE t)" for t
    unfolding ink_table [of "normalize_whitespace _"]
    by (simp add: ink_normalize_whitespace ink_rejoin dehyphenate_def ink_join_kept ink_join_soft
        ink_table [symmetric])
  then show ?thesis by (simp add: normalize_text_def normalize_sub_superscripts_def)
qed


text \<open>A line that starts with a blank leaves two spaces, which a second pass would collapse.\<close>

lemma normalize_text_double_space:
  "normalize_text (lit ''x'' @ [10] @ lit '' y'') = lit ''x  y'' \<and> normalize_text (lit ''x  y'') = lit ''x y''"
  by (simp add: normalize_text_def apply_ocr_confusions_def LIGATURE_MAP_def control_char_def lit_def
      dehyphenate_def after_break_def blank_def rejoin_intra_word_splits_def INTRA_WORD_SPLIT_TABLE_def
      starts_with_def normalize_whitespace_def newline_run_def normalize_sub_superscripts_def
      SUB_SUPERSCRIPT_TABLE_def)

end
