(* ===== verification/Segmenter.thy ===== *)
theory Segmenter
  imports Normalizer
begin

text \<open>
  \<open>segmenter.py\<close>: sentences with offsets into the normalized text. The sentence splitter of pysbd
  is an argument; its documented promise with \<open>clean=False\<close>, that the sentences are the text, is
  the hypothesis \<open>non_destructive\<close>.
\<close>

section \<open>Paragraphs and sentences\<close>

record text_segment =
  ts_report :: pystr
  ts_index :: nat
  ts_text :: pystr
  ts_char_start :: nat
  ts_char_end :: nat

definition slice :: "pystr \<Rightarrow> nat \<Rightarrow> nat \<Rightarrow> pystr" where
  "slice s a b = take (b - a) (drop a s)"

text \<open>The spans between the matches of \<open>\n{2,}\<close>; \<open>start\<close> is where the current one began.\<close>

function paragraphs :: "nat \<Rightarrow> nat \<Rightarrow> pystr \<Rightarrow> (nat \<times> nat) list" where
  "paragraphs start i [] = [(start, i)]"
| "paragraphs start i (c # cs) =
     (let n = newline_run (c # cs)
      in if 2 \<le> n then (start, i) # paragraphs (i + n) (i + n) (drop n (c # cs))
         else paragraphs start (i + 1) cs)"
  by pat_completeness auto
termination by (relation "measure (\<lambda>(start, i, s). length s)") auto

text \<open>\<open>text.find(w, start)\<close>.\<close>

definition find_from :: "pystr \<Rightarrow> pystr \<Rightarrow> nat \<Rightarrow> nat option" where
  "find_from text w start = find (\<lambda>i. starts_with w (drop i text)) [start..<Suc (length text)]"

text \<open>The spans of the sentences of one paragraph, with the cursor and the fallback.\<close>

fun locate :: "pystr \<Rightarrow> nat \<Rightarrow> nat \<Rightarrow> pystr list \<Rightarrow> (nat \<times> nat) list" where
  "locate text paragraph_start cursor [] = []"
| "locate text paragraph_start cursor (sentence # sentences) =
     (let stripped = strip sentence
      in if stripped = [] then locate text paragraph_start cursor sentences
         else (let found = (case find_from text stripped cursor of
                     None \<Rightarrow> find_from text stripped paragraph_start | Some i \<Rightarrow> Some i)
               in case found of
                    None \<Rightarrow> locate text paragraph_start cursor sentences
                  | Some start \<Rightarrow> (start, start + length stripped) #
                      locate text paragraph_start (start + length stripped) sentences))"

definition segment_spans :: "(pystr \<Rightarrow> pystr list) \<Rightarrow> pystr \<Rightarrow> (nat \<times> nat) list" where
  "segment_spans splitter text =
     concat (map (\<lambda>(a, b). locate text a a (splitter (slice text a b))) (paragraphs 0 0 text))"

definition segment_text :: "(pystr \<Rightarrow> pystr list) \<Rightarrow> pystr \<Rightarrow> pystr \<Rightarrow> text_segment list" where
  "segment_text splitter text rep = map (\<lambda>(i, a, b). \<lparr>ts_report = rep, ts_index = i, ts_text = slice text a b,
     ts_char_start = a, ts_char_end = b\<rparr>) (zip [0..<length (segment_spans splitter text)] (segment_spans splitter text))"

text \<open>What \<open>run_normalize\<close> and \<open>normalize_and_segment\<close> write for the text of a file.\<close>

definition run_normalize :: "(pystr \<Rightarrow> pystr list) \<Rightarrow> pystr \<Rightarrow> pystr \<Rightarrow> pystr \<times> text_segment list" where
  "run_normalize splitter rep raw_text =
     (let normalized = normalize_text raw_text in (normalized, segment_text splitter normalized rep))"

section \<open>Offsets\<close>

text \<open>Spans in order, each inside the text and not empty, and only white space before, between and after.\<close>

fun covers :: "pystr \<Rightarrow> nat \<Rightarrow> nat \<Rightarrow> (nat \<times> nat) list \<Rightarrow> bool" where
  "covers text i n [] \<longleftrightarrow> i \<le> n \<and> list_all is_space (slice text i n)"
| "covers text i n ((a, b) # spans) \<longleftrightarrow> i \<le> a \<and> a < b \<and> b \<le> n \<and> list_all is_space (slice text i a)
     \<and> covers text b n spans"

lemma find_from_Some:
  "find_from text w start = Some i \<Longrightarrow> start \<le> i \<and> i \<le> length text \<and> starts_with w (drop i text)"
  by (auto simp: find_from_def find_Some_iff nth_append)

lemma find_from_first:
  assumes "starts_with w (drop i text)" "start \<le> i" "i \<le> length text"
    "\<And>j. start \<le> j \<Longrightarrow> j < i \<Longrightarrow> \<not> starts_with w (drop j text)"
  shows "find_from text w start = Some i"
proof -
  have "[start..<Suc (length text)] = [start..<i] @ i # [Suc i..<Suc (length text)]"
    using assms(2,3) upt_add_eq_append [of start i "Suc (length text) - i"] by (simp add: upt_conv_Cons del: upt_Suc)
  moreover have "find (\<lambda>i. starts_with w (drop i text)) [start..<i] = None"
    using assms(4) by (auto simp: find_None_iff)
  moreover have "find p (xs @ ys) = (case find p xs of None \<Rightarrow> find p ys | Some x \<Rightarrow> Some x)" for p :: "nat \<Rightarrow> bool" and xs ys
    by (induction xs) auto
  ultimately show ?thesis using assms(1) by (simp add: find_from_def)
qed

lemma strip_split:
  obtains l r where "s = l @ strip s @ r" "list_all is_space l" "list_all is_space r"
proof -
  let ?d = "dropWhile is_space s"
  have "s = takeWhile is_space s @ ?d" by simp
  moreover have "rev ?d = takeWhile is_space (rev ?d) @ dropWhile is_space (rev ?d)" by simp
  then have "?d = strip s @ rev (takeWhile is_space (rev ?d))"
    unfolding strip_def strip_by_def by (metis rev_append rev_rev_ident)
  ultimately have "s = takeWhile is_space s @ strip s @ rev (takeWhile is_space (rev ?d))" by metis
  then show ?thesis
    by (rule that) (auto simp: list_all_iff dest: set_takeWhileD)
qed

lemma slice_append: "slice (p @ s @ q) (length p) (length p + length s) = s"
  by (simp add: slice_def)

lemma slice_join:
  assumes "i \<le> m" "m \<le> k"
  shows "slice s i k = slice s i m @ slice s m k"
proof -
  obtain d where "m = i + d" using le_Suc_ex [OF assms(1)] by blast
  moreover obtain e where "k = m + e" using le_Suc_ex [OF assms(2)] by blast
  ultimately show ?thesis by (simp add: slice_def take_add) (simp add: add.commute)
qed

lemma covers_extend:
  "covers text m n spans \<Longrightarrow> i \<le> m \<Longrightarrow> list_all is_space (slice text i m) \<Longrightarrow> m \<le> length text \<Longrightarrow> covers text i n spans"
proof -
  assume "covers text m n spans" "i \<le> m" "list_all is_space (slice text i m)" "m \<le> length text"
  moreover have "list_all is_space (slice text i k)"
    if "m \<le> k" "list_all is_space (slice text m k)" for k
    using that calculation slice_join [of i m k] by simp
  ultimately show ?thesis by (cases spans) auto
qed

lemma covers_append:
  "covers text i m xs \<Longrightarrow> covers text m n ys \<Longrightarrow> m \<le> length text \<Longrightarrow> covers text i n (xs @ ys)"
proof (induction xs arbitrary: i)
  case Nil
  then show ?case using covers_extend by auto
next
  case (Cons x xs)
  have "m \<le> n" using Cons.prems(2)
  proof (induction ys arbitrary: m)
    case (Cons y ys)
    then show ?case by (cases y) (force intro: le_trans)
  qed simp
  then show ?case using Cons by (cases x) auto
qed

lemma starts_with_append: "starts_with w (w @ v)"
  by (simp add: starts_with_def)

lemma locate_covers:
  assumes "text = pre @ ws @ concat ss @ post" "list_all is_space ws" "length pre = cursor"
  shows "covers text cursor (length (pre @ ws @ concat ss)) (locate text paragraph_start cursor ss)"
  using assms
proof (induction ss arbitrary: pre ws cursor)
  case Nil
  then show ?case by (auto simp: slice_def)
next
  case (Cons s ss)
  obtain l r where s: "s = l @ strip s @ r" "list_all is_space l" "list_all is_space r" by (rule strip_split)
  show ?case
  proof (cases "strip s = []")
    case True
    have "text = pre @ (ws @ s) @ concat ss @ post" "list_all is_space (ws @ s)"
      using Cons.prems s True by (auto simp: list_all_iff)
    from Cons.IH [OF this Cons.prems(3)] show ?thesis using True by simp
  next
    case False
    let ?w = "strip s" and ?pre = "pre @ ws @ l" and ?i = "length (pre @ ws @ l)"
    have whole: "text = ?pre @ ?w @ r @ concat ss @ post" using Cons.prems(1) s(1) by (metis append.assoc concat.simps(2))
    have hd_w: "\<not> is_space (hd ?w)" using strip_by_ends [of is_space s] False by (simp add: strip_def)
    have "find_from text ?w cursor = Some ?i"
    proof (rule find_from_first)
      show "starts_with ?w (drop ?i text)" by (subst whole) (simp add: starts_with_append)
      show "cursor \<le> ?i" "?i \<le> length text" using Cons.prems(3) by (simp, subst whole, simp)
      fix j
      assume j: "cursor \<le> j" "j < ?i"
      show "\<not> starts_with ?w (drop j text)"
      proof
        assume "starts_with ?w (drop j text)"
        then have "hd ?w = hd (drop j text)" using False by (metis hd_take length_greater_0_conv starts_with_def)
        moreover have "hd (drop j text) = (ws @ l) ! (j - cursor)"
          using j Cons.prems(3) by (subst whole) (simp add: hd_drop_conv_nth nth_append)
        moreover have "(ws @ l) ! (j - cursor) \<in> set (ws @ l)" using j Cons.prems(3) by (intro nth_mem) simp
        ultimately show False using hd_w Cons.prems(2) s(2) by (auto simp: list_all_iff)
      qed
    qed
    then have loc: "locate text paragraph_start cursor (s # ss) =
        (?i, ?i + length ?w) # locate text paragraph_start (?i + length ?w) ss"
      using False by (simp add: Let_def)
    have "text = (?pre @ ?w) @ r @ concat ss @ post" using whole by simp
    from Cons.IH [OF this s(3)] have "covers text (?i + length ?w) (length ((?pre @ ?w) @ r @ concat ss))
        (locate text paragraph_start (?i + length ?w) ss)" by (simp add: add.assoc)
    moreover have n: "length ((?pre @ ?w) @ r @ concat ss) = length (pre @ ws @ concat (s # ss))"
      by (subst (2) s(1)) simp
    ultimately have rest: "covers text (?i + length ?w) (length (pre @ ws @ concat (s # ss)))
        (locate text paragraph_start (?i + length ?w) ss)" by (simp only:)
    have "slice text cursor ?i = ws @ l"
      using Cons.prems(3) by (subst whole) (simp add: slice_def)
    then have "list_all is_space (slice text cursor ?i)" using Cons.prems(2) s(2) by simp
    moreover have "cursor \<le> ?i" "?i < ?i + length ?w" using Cons.prems(3) False by simp_all
    moreover have "?i + length ?w \<le> length (pre @ ws @ concat (s # ss))" unfolding n [symmetric] by simp
    ultimately show ?thesis unfolding loc covers.simps using rest by blast
  qed
qed

lemma newline_space: "is_space 10"
  by (simp add: is_space_def)

lemma paragraphs_cover:
  assumes "\<And>a b. a \<le> b \<Longrightarrow> b \<le> length text \<Longrightarrow> covers text a b (f (a, b))"
  shows "drop i text = s \<Longrightarrow> start \<le> i \<Longrightarrow> i \<le> length text \<Longrightarrow>
    covers text start (length text) (concat (map f (paragraphs start i s)))"
proof (induction start i s rule: paragraphs.induct)
  case (1 start i)
  then show ?case using assms by simp
next
  case (2 start i c cs)
  let ?n = "newline_run (c # cs)"
  show ?case
  proof (cases "2 \<le> ?n")
    case True
    have n: "?n \<le> length (c # cs)" unfolding newline_run_def by (rule length_takeWhile_le)
    have len: "length (c # cs) = length text - i" using 2(3) by (metis length_drop)
    have rest: "covers text (i + ?n) (length text) (concat (map f (paragraphs (i + ?n) (i + ?n) (drop ?n (c # cs)))))"
      by (rule 2(1) [OF refl True]) (use 2(3,5) n len in \<open>metis add.commute drop_drop\<close>, simp, use 2(5) n len in simp)
    have "slice text i (i + ?n) = takeWhile (\<lambda>c. c = 10) (c # cs)"
      unfolding slice_def 2(3) newline_run_def by (simp add: takeWhile_eq_take [symmetric] del: takeWhile.simps)
    then have "list_all is_space (slice text i (i + ?n))"
      by (auto simp: list_all_iff newline_space dest: set_takeWhileD split: if_splits)
    then have "covers text i (length text) (concat (map f (paragraphs (i + ?n) (i + ?n) (drop ?n (c # cs)))))"
      using covers_extend [OF rest] n len 2(5) by simp
    moreover have "paragraphs start i (c # cs) = (start, i) # paragraphs (i + ?n) (i + ?n) (drop ?n (c # cs))"
      using True by (simp add: Let_def)
    moreover have "covers text start i (f (start, i))" using assms 2(4,5) by simp
    ultimately show ?thesis using covers_append 2(5) by (simp del: paragraphs.simps)
  next
    case False
    have "i < length text" using 2(3,5) by (cases "i < length text") auto
    moreover have "drop (i + 1) text = cs" using arg_cong [OF 2(3), of tl] by (simp add: drop_Suc tl_drop)
    ultimately have "covers text start (length text) (concat (map f (paragraphs start (i + 1) cs)))"
      using 2(4) by (intro 2(2) [OF refl False]) simp_all
    moreover have "paragraphs start i (c # cs) = paragraphs start (i + 1) cs"
      using False by (simp add: Let_def)
    ultimately show ?thesis by (simp only:)
  qed
qed

section \<open>Properties\<close>

lemma segment_spans_cover:
  assumes "\<And>p. concat (splitter p) = p"
  shows "covers text 0 (length text) (segment_spans splitter text)"
  unfolding segment_spans_def
proof (rule paragraphs_cover [where i = 0 and s = "text"])
  fix a b
  assume ab: "a \<le> b" "b \<le> length text"
  have "text = take a text @ [] @ concat (splitter (slice text a b)) @ drop b text"
    unfolding assms slice_def using ab by (metis append.left_neutral append_take_drop_id drop_drop le_add_diff_inverse2)
  from locate_covers [OF this] ab
  show "covers text a b (case (a, b) of (a, b) \<Rightarrow> locate text a a (splitter (slice text a b)))"
    by (simp add: assms slice_def)
qed simp_all

lemma locate_slices:
  "list_all (\<lambda>(a, b). a < b \<and> b \<le> length text \<and> strip (slice text a b) = slice text a b) (locate text p i ss)"
proof (induction ss arbitrary: i)
  case (Cons s ss)
  have hit: "j < j + length (strip s) \<and> j + length (strip s) \<le> length text
      \<and> strip (slice text j (j + length (strip s))) = slice text j (j + length (strip s))"
    if "find_from text (strip s) k = Some j" "strip s \<noteq> []" for j k
  proof -
    have j: "take (length (strip s)) (drop j text) = strip s"
      using find_from_Some [OF that(1)] by (simp add: starts_with_def)
    then have "length (strip s) \<le> length (drop j text)" by (metis length_take min.cobounded1)
    moreover have "strip (strip s) = strip s"
      unfolding strip_def by (rule strip_by_id) (rule strip_by_ends)
    moreover have "j \<le> length text" using find_from_Some [OF that(1)] by simp
    ultimately show ?thesis using j that(2) by (auto simp: slice_def)
  qed
  show ?case
    using Cons.IH by (auto simp: Let_def hit split: option.split)
qed simp

lemma segment_spans_slices:
  "list_all (\<lambda>(a, b). a < b \<and> b \<le> length text \<and> strip (slice text a b) = slice text a b) (segment_spans splitter text)"
  using locate_slices by (fastforce simp: segment_spans_def list_all_iff)

text \<open>The visible characters of a text.\<close>

definition visible :: "pystr \<Rightarrow> pystr" where
  "visible s = filter (\<lambda>c. \<not> is_space c) s"

lemma covers_visible:
  "covers text i n spans \<Longrightarrow> visible (slice text i n) = concat (map (\<lambda>(a, b). visible (slice text a b)) spans)"
proof (induction spans arbitrary: i)
  case Nil
  then show ?case by (simp add: visible_def list_all_iff)
next
  case (Cons x spans)
  obtain a b where x: "x = (a, b)" by fastforce
  have c: "i \<le> a" "a < b" "b \<le> n" "list_all is_space (slice text i a)" "covers text b n spans"
    using Cons.prems x by simp_all
  have "slice text i n = slice text i a @ slice text a b @ slice text b n"
    using slice_join [of i a n] slice_join [of a b n] c by simp
  moreover have "visible (slice text i a) = []" using c(4) by (simp add: visible_def list_all_iff)
  ultimately show ?case using Cons.IH [OF c(5)] x by (simp add: visible_def)
qed

text \<open>Where newlines come in pairs, a paragraph is a single line.\<close>

lemma drop_newline_run: "drop (newline_run s) s = dropWhile (\<lambda>c. c = 10) s"
  unfolding newline_run_def by (rule dropWhile_eq_drop [symmetric])

lemma paragraphs_single_line:
  "drop i text = s \<Longrightarrow> start \<le> i \<Longrightarrow> 10 \<notin> set (slice text start i) \<Longrightarrow> list_all (\<lambda>n. n = 2) (newline_runs s) \<Longrightarrow>
   (a, b) \<in> set (paragraphs start i s) \<Longrightarrow> 10 \<notin> set (slice text a b)"
proof (induction start i s rule: paragraphs.induct)
  case (1 start i)
  then show ?case by simp
next
  case (2 start i c cs)
  let ?n = "newline_run (c # cs)"
  show ?case
  proof (cases "2 \<le> ?n")
    case True
    then have c: "c = 10" by (simp add: newline_run_def split: if_splits)
    have next_par: "drop (i + ?n) text = drop ?n (c # cs)" using 2(3) by (metis add.commute drop_drop)
    have "newline_runs (c # cs) = ?n # newline_runs (drop ?n (c # cs))"
      unfolding drop_newline_run using c by (simp add: newline_run_def)
    then have "list_all (\<lambda>n. n = 2) (?n # newline_runs (drop ?n (c # cs)))" using 2(6) by (simp only:)
    then have "list_all (\<lambda>n. n = 2) (newline_runs (drop ?n (c # cs)))" by (rule list.pred_inject(2) [THEN iffD1, THEN conjunct2])
    moreover have "(a, b) = (start, i) \<or> (a, b) \<in> set (paragraphs (i + ?n) (i + ?n) (drop ?n (c # cs)))"
      using 2(7) True by (simp add: Let_def)
    ultimately show ?thesis using 2(1) [OF refl True next_par] 2(5) by (auto simp: slice_def)
  next
    case False
    have c: "c \<noteq> 10"
    proof
      assume "c = 10"
      then have "?n = 2" using 2(6) by (simp add: newline_run_def)
      then show False using False by simp
    qed
    have "drop (i + 1) text = cs" using arg_cong [OF 2(3), of tl] by (simp add: drop_Suc tl_drop)
    moreover have "slice text i (i + 1) = [c]" unfolding slice_def 2(3) by simp
    then have "10 \<notin> set (slice text start (i + 1))"
      using slice_join [of start i "i + 1" "text"] 2(4,5) c by simp
    moreover have "list_all (\<lambda>n. n = 2) (newline_runs cs)" using 2(6) c by simp
    moreover have "(a, b) \<in> set (paragraphs start (i + 1) cs)" using 2(7) False by (simp add: Let_def)
    ultimately show ?thesis using 2(2) [OF refl False] 2(4) by simp
  qed
qed

lemma locate_sentence:
  "(x, y) \<in> set (locate text p i ss) \<Longrightarrow> \<exists>s \<in> set ss. slice text x y = strip s"
proof (induction ss arbitrary: i)
  case (Cons s ss)
  have "slice text j (j + length (strip s)) = strip s" if "find_from text (strip s) k = Some j" for j k
    using find_from_Some [OF that] by (simp add: starts_with_def slice_def)
  then show ?case using Cons by (fastforce simp: Let_def split: if_splits option.splits)
qed simp

lemma segment_spans_single_line:
  assumes "\<And>p. concat (splitter p) = p" "list_all (\<lambda>n. n = 2) (newline_runs text)"
    "(x, y) \<in> set (segment_spans splitter text)"
  shows "10 \<notin> set (slice text x y)"
proof -
  obtain a b where ab: "(a, b) \<in> set (paragraphs 0 0 text)" "(x, y) \<in> set (locate text a a (splitter (slice text a b)))"
    using assms(3) by (auto simp: segment_spans_def)
  obtain s where s: "s \<in> set (splitter (slice text a b))" "slice text x y = strip s"
    using locate_sentence [OF ab(2)] by blast
  have "set s \<subseteq> set (concat (splitter (slice text a b)))" using s(1) by auto
  then have "set s \<subseteq> set (slice text a b)" by (simp only: assms(1))
  moreover have "10 \<notin> set (slice text a b)"
    by (rule paragraphs_single_line [OF _ _ _ assms(2) ab(1)]) (simp_all add: slice_def)
  ultimately show ?thesis using s(2) set_strip_by [of is_space s] by (auto simp: strip_def)
qed

definition spans_of :: "text_segment list \<Rightarrow> (nat \<times> nat) list" where
  "spans_of = map (\<lambda>sg. (ts_char_start sg, ts_char_end sg))"

lemma spans_of_segments: "spans_of (segment_text splitter text rep) = segment_spans splitter text"
  by (rule nth_equalityI) (simp_all add: spans_of_def segment_text_def split_beta)

lemma segment_text_slices: "sg \<in> set (segment_text splitter text rep) \<Longrightarrow>
    ts_text sg = slice text (ts_char_start sg) (ts_char_end sg)
    \<and> (ts_char_start sg, ts_char_end sg) \<in> set (segment_spans splitter text) \<and> ts_report sg = rep"
  by (auto simp: segment_text_def dest: set_zip_rightD)

text \<open>Whatever the sentence splitter returns, every segment written is the slice of the normalized text
  at its offsets, not empty and without white space at its ends, and segments are numbered from 0.\<close>

theorem segment_text_offsets:
  "map ts_index (segment_text splitter text rep) = [0..<length (segment_text splitter text rep)]
   \<and> list_all (\<lambda>sg. ts_report sg = rep \<and> ts_text sg = slice text (ts_char_start sg) (ts_char_end sg)
        \<and> ts_char_start sg < ts_char_end sg \<and> ts_char_end sg \<le> length text \<and> strip (ts_text sg) = ts_text sg)
      (segment_text splitter text rep)"
proof
  show "map ts_index (segment_text splitter text rep) = [0..<length (segment_text splitter text rep)]"
    by (rule nth_equalityI) (simp_all add: segment_text_def split_beta)
  show "list_all (\<lambda>sg. ts_report sg = rep \<and> ts_text sg = slice text (ts_char_start sg) (ts_char_end sg)
        \<and> ts_char_start sg < ts_char_end sg \<and> ts_char_end sg \<le> length text \<and> strip (ts_text sg) = ts_text sg)
      (segment_text splitter text rep)"
    using segment_spans_slices [of "text" splitter] segment_text_slices by (fastforce simp: list_all_iff)
qed



end
