(* ===== verification/Manifest.thy ===== *)
theory Manifest
  imports PyRegex Turtle Slug
begin

text \<open>
  \<open>manifest.py\<close> and \<open>safety_manifest.py\<close>: the rows of the archive's table of documents, and the
  safety sources that are declared as data.
\<close>

section \<open>The archive\<close>

record manifest_record =
  mr_report_number :: pystr
  mr_title :: pystr
  mr_date :: pystr
  mr_ocr_path :: pystr

text \<open>\<open>\[([^\]]*)\]\(([^)]*)\)\<close>, capturing the text.\<close>

definition LINK_RE :: rx where
  "LINK_RE = Cats [Is 91, Group (Star (Chr (\<lambda>c. c \<noteq> 93))), Is 93, Is 40, Star (Chr (\<lambda>c. c \<noteq> 41)), Is 41]"

text \<open>\<open>\[[^\]]*\]\((?P<target>ocr/[^)]+\.txt)\)\<close> in any case, capturing the target.\<close>

definition OCR_LINK_RE :: rx where
  "OCR_LINK_RE = Cats [Is 91, Star (Chr (\<lambda>c. c \<noteq> 93)), Is 93, Is 40,
     Group (Cats [IsAnyCase 111, IsAnyCase 99, IsAnyCase 114, Is 47, Plus (Chr (\<lambda>c. c \<noteq> 41)),
       Is 46, IsAnyCase 116, IsAnyCase 120, IsAnyCase 116]), Is 41]"

text \<open>\<open>^:?-{2,}:?$\<close>.\<close>

definition SEPARATOR_CELL_RE :: rx where
  "SEPARATOR_CELL_RE = Cats [Opt (Is 58), Is 45, Is 45, Star (Is 45), Opt (Is 58), EndOfText]"

definition link_text_or_raw :: "pystr \<Rightarrow> pystr" where
  "link_text_or_raw cell = (case search LINK_RE cell 0 of
       Some (_, _, Some g) \<Rightarrow> strip g
     | _ \<Rightarrow> strip cell)"

definition row_cells :: "pystr \<Rightarrow> pystr list" where
  "row_cells stripped = (let cells = map strip (split_on 124 stripped);
       cells = dropWhile (\<lambda>c. c = []) cells
     in rev (dropWhile (\<lambda>c. c = []) (rev cells)))"

text \<open>The record of one line; \<open>None\<close> when the line is skipped.\<close>

definition parse_row :: "pystr \<Rightarrow> manifest_record option" where
  "parse_row line =
     (let stripped = strip line
      in if \<not> starts_with (lit ''|'') stripped then None
         else (case row_cells stripped of
             [title, report_cell, date, ocr] \<Rightarrow>
               if list_all (\<lambda>cell. match_at_start SEPARATOR_CELL_RE cell \<noteq> None) [title, report_cell, date, ocr] then None
               else (case search OCR_LINK_RE ocr 0 of
                   Some (_, _, Some target) \<Rightarrow>
                     (let report_number = link_text_or_raw report_cell
                      in if report_number = [] then None
                         else Some \<lparr>mr_report_number = report_number, mr_title = link_text_or_raw title,
                           mr_date = date, mr_ocr_path = target\<rparr>)
                 | _ \<Rightarrow> None)
           | _ \<Rightarrow> None))"

definition parse_manifest :: "pystr \<Rightarrow> manifest_record list" where
  "parse_manifest readme_text = List.map_filter parse_row (splitlines readme_text)"

definition resolve_ocr_path :: "manifest_record list \<Rightarrow> pystr \<Rightarrow> pystr result" where
  "resolve_ocr_path records report_number =
     (case find (\<lambda>r. mr_report_number r = report_number) records of
        Some r \<Rightarrow> Inr (mr_ocr_path r) | None \<Rightarrow> Inl KeyError)"

section \<open>The safety sources\<close>

record safety_source =
  ss_id :: pystr
  ss_title :: pystr
  ss_publisher :: pystr
  ss_rights :: pystr
  ss_url :: pystr
  ss_date :: pystr
  ss_pdf_filename :: pystr
  ss_page_ranges :: "(nat \<times> nat) list option"
  ss_sections :: pystr

definition PUB2027_SRS_123 :: safety_source where
  "PUB2027_SRS_123 = \<lparr>ss_id = lit ''PUB2027-SRS-123'',
     ss_title = concat [lit ''Applicability of IAEA Safety Standards to Non-Water Cooled '',
       lit ''Reactors and Small Modular Reactors''],
     ss_publisher = lit ''IAEA'',
     ss_rights = concat [[169], lit '' IAEA '', [8212], lit '' all rights reserved''],
     ss_url = lit ''https://www-pub.iaea.org/MTCD/Publications/PDF/PUB2027_Web.pdf'',
     ss_date = lit ''2023-11'', ss_pdf_filename = lit ''PUB2027_SRS-123.pdf'',
     ss_page_ranges = Some [(17, 17), (50, 88), (231, 237)],
     ss_sections = concat [[167], lit ''2.1.2.5 / '', [167], lit ''3.2 / '', [167], lit ''5.1.8'']\<rparr>"

definition GIF_HOLCOMB_MSR_SAFETY :: safety_source where
  "GIF_HOLCOMB_MSR_SAFETY = \<lparr>ss_id = lit ''GIF-Holcomb-MSR-safety'',
     ss_title = lit ''Molten Salt Reactor Safety Analysis - A U.S. Perspective'',
     ss_publisher = lit ''Generation IV International Forum'', ss_rights = lit ''public'',
     ss_url = concat [lit ''https://www.gen-4.org/sites/default/files/2024-09/'',
       lit ''Dr.%20Dave%20Holcomb%2026%20AUG%202020_GIF.pdf''],
     ss_date = lit ''2020-08-26'', ss_pdf_filename = lit ''GIF_Holcomb_MSR-safety-analysis.pdf'',
     ss_page_ranges = None, ss_sections = lit ''whole document''\<rparr>"

definition ORNL_TM_2006_12 :: safety_source where
  "ORNL_TM_2006_12 = \<lparr>ss_id = lit ''ORNL-TM-2006-12'',
     ss_title = concat [lit ''Assessment of Candidate Molten Salt Coolants for the Advanced '',
       lit ''High-Temperature Reactor (AHTR)''],
     ss_publisher = lit ''Oak Ridge National Laboratory'', ss_rights = lit ''public'',
     ss_url = lit ''https://info.ornl.gov/sites/publications/Files/Pub57476.pdf'',
     ss_date = lit ''2006-03'', ss_pdf_filename = lit ''ORNL-TM-2006-12_coolant-assessment.pdf'',
     ss_page_ranges = None, ss_sections = lit ''whole document''\<rparr>"

definition ORNL_MSR_TECH_SAFETY :: safety_source where
  "ORNL_MSR_TECH_SAFETY = \<lparr>ss_id = lit ''ORNL-MSR-tech-safety'',
     ss_title = concat [lit ''Molten Salt Reactor Technical and Safety Considerations Outside '',
       lit ''of Guidance Documents''],
     ss_publisher = lit ''Oak Ridge National Laboratory'', ss_rights = lit ''public'',
     ss_url = lit ''https://info.ornl.gov/sites/publications/Files/Pub181692.pdf'',
     ss_date = lit ''2022-07'', ss_pdf_filename = lit ''ORNL_MSR-technical-safety-considerations.pdf'',
     ss_page_ranges = None, ss_sections = lit ''whole document''\<rparr>"

definition SAFETY_SOURCES :: "safety_source list" where
  "SAFETY_SOURCES = [PUB2027_SRS_123, GIF_HOLCOMB_MSR_SAFETY, ORNL_TM_2006_12, ORNL_MSR_TECH_SAFETY]"

definition get_source :: "pystr \<Rightarrow> safety_source result" where
  "get_source source_id = (case find (\<lambda>s. ss_id s = source_id) SAFETY_SOURCES of
     Some s \<Rightarrow> Inr s | None \<Rightarrow> Inl KeyError)"

text \<open>\<open>extract_pdf_text\<close> on the pages' texts: an index past the end raises (\<open>None\<close>).\<close>

definition page_indices :: "safety_source \<Rightarrow> nat \<Rightarrow> nat list" where
  "page_indices source total_pages = (case ss_page_ranges source of
       None \<Rightarrow> [0..<total_pages]
     | Some ranges \<Rightarrow> concat (map (\<lambda>(s, e). [s - 1..<e]) ranges))"

definition extract_pdf_text :: "safety_source \<Rightarrow> pystr list \<Rightarrow> pystr option" where
  "extract_pdf_text source pages =
     (if list_all (\<lambda>i. i < length pages) (page_indices source (length pages))
      then Some (join (nl @ nl) (map (\<lambda>i. pages ! i) (page_indices source (length pages)))) else None)"

section \<open>Properties\<close>

lemma set_strip_subset: "set (strip s) \<subseteq> set s"
  by (simp add: strip_def set_strip_by)

lemma split_on_ne: "split_on c s \<noteq> []"
  by (cases s) auto

lemma split_on_parts_subset: "x \<in> set (split_on c s) \<Longrightarrow> set x \<subseteq> set s"
proof (induction s arbitrary: x)
  case (Cons a s)
  obtain h t where "split_on c s = h # t" using split_on_ne by (metis list.exhaust)
  moreover have "set y \<subseteq> set s" if "y \<in> set (h # t)" for y using Cons.IH that calculation by simp
  ultimately show ?case using Cons.prems by (fastforce split: if_splits)
qed simp

lemma link_text_subset: "set (link_text_or_raw cell) \<subseteq> set cell"
  unfolding link_text_or_raw_def
  using set_strip_subset search_within by (fastforce split: option.splits)

lemma row_cells_subset: "x \<in> set (row_cells s) \<Longrightarrow> set x \<subseteq> set s"
proof -
  assume "x \<in> set (row_cells s)"
  then have "x \<in> set (map strip (split_on 124 s))"
    unfolding row_cells_def Let_def set_rev by (metis set_dropWhileD set_rev)
  then obtain y where y: "x = strip y" "y \<in> set (split_on 124 s)" by auto
  then show ?thesis using set_strip_subset [of y] split_on_parts_subset [OF y(2)] by auto
qed

lemma parse_row_fields:
  assumes "parse_row line = Some r"
  shows "set (mr_report_number r) \<subseteq> set line \<and> set (mr_title r) \<subseteq> set line \<and> set (mr_date r) \<subseteq> set line
    \<and> mr_report_number r \<noteq> []"
proof -
  obtain title rep date ocr where cells: "row_cells (strip line) = [title, rep, date, ocr]"
    and r: "mr_report_number r = link_text_or_raw rep" "mr_title r = link_text_or_raw title" "mr_date r = date"
      "link_text_or_raw rep \<noteq> []"
    using assms by (auto simp: parse_row_def Let_def split: if_splits list.splits option.splits)
  have "set x \<subseteq> set line" if "x \<in> {title, rep, date}" for x
    using that row_cells_subset [of x "strip line"] set_strip_subset [of line] cells by auto
  then show ?thesis using r link_text_subset [of rep] link_text_subset [of title] by auto
qed

lemma one_line_subset: "one_line s \<Longrightarrow> set t \<subseteq> set s \<Longrightarrow> one_line t"
  by (auto simp: one_line_def list_all_iff)

lemma parse_manifest_one_line:
  "r \<in> set (parse_manifest s) \<Longrightarrow>
    one_line (mr_report_number r) \<and> one_line (mr_title r) \<and> one_line (mr_date r)"
proof -
  assume "r \<in> set (parse_manifest s)"
  then obtain line where line: "line \<in> set (splitlines s)" "parse_row line = Some r"
    by (auto simp: parse_manifest_def List.map_filter_def)
  then have "one_line line" using splitlines_all_one_line [of s] by (simp add: list_all_iff)
  then show ?thesis using parse_row_fields [OF line(2)] one_line_subset by blast
qed

end
