(* ===== verification/Documents.thy ===== *)
theory Documents
  imports Manifest Measurements Mining_Types
begin

text \<open>
  \<open>documents.py\<close>: the document records of the archive and of the safety sources, the two corpus
  individuals of \<open>corpora.py\<close>, and the writers. \<open>_escape_literal\<close> here is not the one of the other
  writers: it leaves carriage returns alone.
\<close>

section \<open>Corpus individuals\<close>

definition CORPUS_PREFIXES :: pystr where
  "CORPUS_PREFIXES = join nl
     [lit ''PREFIX msr: <https://w3id.org/msr-kg/ontology#>'',
      lit ''PREFIX msrd: <https://w3id.org/msr-kg/data#>'',
      lit ''PREFIX rdfs: <http://www.w3.org/2000/01/rdf-schema#>'',
      lit ''PREFIX dcterms: <http://purl.org/dc/terms/>'']"

definition corpus_for_document :: "pystr \<Rightarrow> pystr" where
  "corpus_for_document genre = corpus_for_genre genre"

definition corpus_individual_triples :: pystr where
  \<open>corpus_individual_triples = join nl
     [CORPUS_CHEMISTRY @ lit '' a msr:Corpus ;'',
      lit ''    rdfs:label "msr-archive chemistry corpus" ;'',
      lit ''    dcterms:description "The chemistry-genre OCR corpus of msr-archive '' @
        lit ''molten-salt-reactor reports (config.archive_dir)." .'',
      [],
      CORPUS_SAFETY @ lit '' a msr:Corpus ;'',
      lit ''    rdfs:label "IAEA/GIF/ORNL safety corpus" ;'',
      lit ''    dcterms:description "The safety-genre corpus of curated IAEA/GIF/ORNL '' @
        lit ''molten-salt-reactor safety sources (config.safety_dir)." .'']\<close>

section \<open>Documents of the archive\<close>

definition DOCUMENT_PREFIXES :: pystr where
  "DOCUMENT_PREFIXES = join nl
     [lit ''PREFIX msr: <https://w3id.org/msr-kg/ontology#>'',
      lit ''PREFIX msrd: <https://w3id.org/msr-kg/data#>'',
      lit ''PREFIX rdfs: <http://www.w3.org/2000/01/rdf-schema#>'',
      lit ''PREFIX dcterms: <http://purl.org/dc/terms/>'',
      lit ''PREFIX prov: <http://www.w3.org/ns/prov#>'']"

definition document_escape_literal :: "pystr \<Rightarrow> pystr" where
  "document_escape_literal s =
     replace [9] [92, 116] (replace [10] [92, 110] (replace [34] [92, 34] (replace [92] [92, 92] s)))"

definition document_lines :: "manifest_record \<Rightarrow> pystr list" where
  \<open>document_lines rec =
     [lit ''msrd:'' @ mr_report_number rec @ lit '' a msr:Document ;'',
      lit ''    rdfs:label "'' @ document_escape_literal (mr_title rec) @ lit ''" ;'',
      lit ''    dcterms:identifier "'' @ mr_report_number rec @ lit ''" ;'',
      lit ''    dcterms:date "'' @ document_escape_literal (mr_date rec) @ lit ''" ;'',
      lit ''    msr:inCorpus '' @ CORPUS_CHEMISTRY @ lit '' ;'',
      lit ''    prov:wasGeneratedBy '' @ ACTIVITY_IRI @ lit '' .'']\<close>

definition document_triples :: "manifest_record \<Rightarrow> pystr" where
  "document_triples rec = join nl (document_lines rec)"

definition corpus_individuals_block :: pystr where
  "corpus_individuals_block = indent_block corpus_individual_triples"

definition corpus_individuals_insert_data :: pystr where
  "corpus_individuals_insert_data =
     insert_data_in CORPUS_PREFIXES (lit ''urn:msr:data'') corpus_individuals_block"

definition insert_data_update :: "manifest_record list \<Rightarrow> pystr" where
  "insert_data_update records = insert_data_in DOCUMENT_PREFIXES (lit ''urn:msr:data'')
     (join (nl @ nl) (map (\<lambda>r. indent_block (document_triples r)) records @ [corpus_individuals_block]))"

definition document_provenance_insert_data :: "manifest_record list \<Rightarrow> pystr \<Rightarrow> pystr" where
  "document_provenance_insert_data records run_ts =
     insert_data_in PROVENANCE_PREFIXES (lit ''urn:msr:provenance'')
       (generation_lines (map (\<lambda>r. lit ''msrd:'' @ mr_report_number r) records) run_ts)"

definition write_documents ::
    "endpoint \<Rightarrow> manifest_record list \<Rightarrow> pystr \<Rightarrow> pystr list \<Rightarrow> pystr list \<times> unit result" where
  "write_documents post records run_ts accepted =
     (if records = [] then (accepted, Inr ())
      else send_all post [insert_data_update records, document_provenance_insert_data records run_ts] accepted)"

section \<open>Safety sources\<close>

definition safety_document_triples :: "safety_source \<Rightarrow> pystr" where
  \<open>safety_document_triples source = join nl
     [lit ''msrd:'' @ ss_id source @ lit '' a msr:Document ;'',
      lit ''    rdfs:label "'' @ document_escape_literal (ss_title source) @ lit ''" ;'',
      lit ''    dcterms:identifier "'' @ ss_id source @ lit ''" ;'',
      lit ''    dcterms:date "'' @ document_escape_literal (ss_date source) @ lit ''" ;'',
      lit ''    dcterms:publisher "'' @ document_escape_literal (ss_publisher source) @ lit ''" ;'',
      lit ''    dcterms:rights "'' @ document_escape_literal (ss_rights source) @ lit ''" ;'',
      lit ''    dcterms:source <'' @ ss_url source @ lit ''> ;'',
      lit ''    msr:inCorpus '' @ CORPUS_SAFETY @ lit '' ;'',
      lit ''    prov:wasGeneratedBy '' @ ACTIVITY_IRI @ lit '' .'']\<close>

definition safety_insert_data_update :: "safety_source list \<Rightarrow> pystr" where
  "safety_insert_data_update sources = insert_data_in DOCUMENT_PREFIXES (lit ''urn:msr:data'')
     (join (nl @ nl) (map (\<lambda>s. indent_block (safety_document_triples s)) sources @ [corpus_individuals_block]))"

definition safety_provenance_insert_data :: "safety_source list \<Rightarrow> pystr \<Rightarrow> pystr" where
  "safety_provenance_insert_data sources run_ts =
     insert_data_in PROVENANCE_PREFIXES (lit ''urn:msr:provenance'')
       (generation_lines (map (\<lambda>s. lit ''msrd:'' @ ss_id s) sources) run_ts)"

definition write_safety_documents ::
    "endpoint \<Rightarrow> safety_source list \<Rightarrow> pystr \<Rightarrow> pystr list \<Rightarrow> pystr list \<times> unit result" where
  "write_safety_documents post sources run_ts accepted =
     (if sources = [] then (accepted, Inr ())
      else send_all post [safety_insert_data_update sources, safety_provenance_insert_data sources run_ts] accepted)"

section \<open>Corpus tags\<close>

definition corpus_tag_insert_data :: "pystr list \<Rightarrow> pystr \<Rightarrow> pystr" where
  "corpus_tag_insert_data document_iris corpus =
     insert_data_in DOCUMENT_PREFIXES (lit ''urn:msr:data'')
       (join nl (map (\<lambda>doc_iri. lit ''    '' @ doc_iri @ lit '' msr:inCorpus '' @ corpus @ lit '' .'') document_iris))"

definition write_corpus_tags ::
    "endpoint \<Rightarrow> pystr list \<Rightarrow> pystr \<Rightarrow> pystr list \<Rightarrow> pystr list \<times> unit result" where
  "write_corpus_tags post document_iris corpus accepted =
     (if document_iris = [] then (accepted, Inr ())
      else send_all post [corpus_tag_insert_data document_iris corpus, corpus_individuals_insert_data] accepted)"

section \<open>Properties\<close>

lemma escape_without_return: "13 \<notin> set s \<Longrightarrow> document_escape_literal s = escape_literal s"
proof -
  assume "13 \<notin> set s"
  then have "document_escape_literal s = concat (map esc s)"
    unfolding document_escape_literal_def replace_one concat_map_concat
    by (intro arg_cong [where f = concat]) (auto simp: esc_def)
  then show ?thesis by (simp add: escape_literal_esc)
qed

lemma one_line_no_return: "one_line s \<Longrightarrow> 13 \<notin> set s"
  by (induction s) (auto dest: not_break_13)

lemma read_document_literal:
  "one_line s \<Longrightarrow> read_literal (document_escape_literal s @ 34 # rest) = Some (s, rest)"
  by (simp add: escape_without_return one_line_no_return read_escaped)

lemma esc_one_line: "one_line (escape_literal s) \<longleftrightarrow> one_line (filter (\<lambda>c. c \<notin> {9, 10, 13}) s)"
  unfolding escape_literal_esc
  by (induction s) (auto simp: esc_def is_line_break_def)

lemma document_escape_one_line:
  assumes "one_line s"
  shows "one_line (document_escape_literal s)"
proof -
  have "one_line (filter (\<lambda>c. c \<notin> {9, 10, 13}) s)" by (rule one_line_subset [OF assms]) simp
  then show ?thesis using assms by (simp add: escape_without_return one_line_no_return esc_one_line)
qed

lemma one_line_lit [simp]: "one_line (lit s) \<longleftrightarrow> list_all (\<lambda>c. \<not> is_line_break (of_char c)) s"
  by (simp add: one_line_def lit_def list_all_iff)

lemma document_lines_kept:
  assumes "one_line (mr_report_number r)" "one_line (mr_title r)" "one_line (mr_date r)"
  shows "splitlines (document_triples r) = document_lines r"
  unfolding document_triples_def
  by (rule splitlines_join)
    (simp_all add: document_lines_def assms document_escape_one_line CORPUS_CHEMISTRY_def ACTIVITY_IRI_def
      is_line_break_def lit_def)

text \<open>C35. Every document parsed from the archive's table is written so that it can be read back: its title and
  its date, whatever characters the row holds, are read from their literals unchanged and up to the quote
  the writer put, its report number is not empty, and indentation keeps the lines of its block as they
  are, since the parser works line by line.\<close>

theorem parsed_documents_readable:
  "list_all (\<lambda>r. mr_report_number r \<noteq> []
     \<and> indent_block (document_triples r) = join nl (map (\<lambda>line. lit ''    '' @ line) (document_lines r))
     \<and> read_literal (document_escape_literal (mr_title r) @ 34 # rest) = Some (mr_title r, rest)
     \<and> read_literal (document_escape_literal (mr_date r) @ 34 # rest) = Some (mr_date r, rest))
   (parse_manifest readme)"
proof -
  have "mr_report_number r \<noteq> []" if "r \<in> set (parse_manifest readme)" for r
    using that parse_row_fields by (auto simp: parse_manifest_def List.map_filter_def)
  then show ?thesis unfolding list_all_iff indent_block_def
    using parse_manifest_one_line document_lines_kept read_document_literal by fastforce
qed

text \<open>A carriage return, which the parser of the manifest excludes, is not escaped.\<close>

lemma document_literal_return: "read_literal (document_escape_literal [65, 13, 66] @ [34]) = None"
  by (simp add: document_escape_literal_def replace_one starts_with_def)

definition quoted_row :: pystr where
  \<open>quoted_row = lit ''|T|A"B|Y|[t](ocr/a.txt)|''\<close>

lemma split_on_step:
  "split_on c (x # xs) = (case split_on c xs of [] \<Rightarrow> [] | p # ps \<Rightarrow> if x = c then [] # p # ps else (x # p) # ps)"
  using split_on_ne [of c xs] by (simp split: list.splits)

lemma quoted_row_cells:
  \<open>row_cells (strip quoted_row) = [lit ''T'', lit ''A"B'', lit ''Y'', lit ''[t](ocr/a.txt)'']\<close>
  by (simp add: row_cells_def quoted_row_def lit_def strip_def strip_by_def is_space_def split_on_step
      del: split_on.simps(2))

lemma quoted_row_matches:
  "match_at_start SEPARATOR_CELL_RE (lit ''T'') = None"
  "link_text_or_raw (lit ''T'') = lit ''T''" \<open>link_text_or_raw (lit ''A"B'') = lit ''A"B''\<close>
  "search OCR_LINK_RE (lit ''[t](ocr/a.txt)'') 0 = Some (0, [], Some (lit ''ocr/a.txt''))"
  by (simp_all add: SEPARATOR_CELL_RE_def link_text_or_raw_def LINK_RE_def OCR_LINK_RE_def match_at_start_def
      Is_def IsAnyCase_def Plus_def lit_def strip_def strip_by_def is_space_def)

text \<open>The report number is not escaped at all: a quote in its cell ends the identifier's literal.\<close>

lemma identifier_not_escaped:
  \<open>map mr_report_number (parse_manifest quoted_row) = [lit ''A"B'']
   \<and> read_literal (lit ''A"B'' @ lit ''" ;'') = Some (lit ''A'', lit ''B" ;'')\<close>
proof
  have "starts_with (lit ''|'') (strip quoted_row)"
    by (simp add: quoted_row_def lit_def strip_def strip_by_def is_space_def starts_with_def)
  then have "map_option mr_report_number (parse_row quoted_row) = Some (lit ''A\"B'')"
    by (simp add: parse_row_def quoted_row_cells quoted_row_matches)
  moreover have "splitlines quoted_row = [quoted_row]"
    by (rule splitlines_one_line) (simp_all add: quoted_row_def is_line_break_def lit_def)
  ultimately show \<open>map mr_report_number (parse_manifest quoted_row) = [lit ''A"B'']\<close>
    by (auto simp: parse_manifest_def List.map_filter_def)
qed (simp add: lit_def)

end
