(* ===== verification/Backfill.thy ===== *)
theory Backfill
  imports Proposals Terms Documents Graph_Reader
begin

text \<open>
  \<open>backfill_observations.py\<close>: the observations of proposals that were staged without them are rebuilt
  from the two cached corpora, the documents are tagged with their corpus, and the counts the
  observations replace are deleted. What a query of the staging graph answers depends on the updates
  accepted so far (\<open>select\<close>); the files of the archive and the normalized texts of the safety
  sources are arguments.
\<close>

section \<open>Updates\<close>

definition BACKFILL_RUN_TS :: pystr where "BACKFILL_RUN_TS = lit ''backfill''"

definition BACKFILL_PREFIXES :: pystr where
  "BACKFILL_PREFIXES = join nl
     [lit ''PREFIX msr: <https://w3id.org/msr-kg/ontology#>'',
      lit ''PREFIX msrd: <https://w3id.org/msr-kg/data#>'',
      lit ''PREFIX prov: <http://www.w3.org/ns/prov#>'',
      lit ''PREFIX xsd: <http://www.w3.org/2001/XMLSchema#>'']"

definition DELETE_DOC_FREQUENCY_UPDATE :: pystr where
  "DELETE_DOC_FREQUENCY_UPDATE = join nl
     [lit ''PREFIX msr: <https://w3id.org/msr-kg/ontology#>'',
      lit ''DELETE WHERE {'',
      lit ''  GRAPH <urn:msr:staging> {'',
      lit ''    ?proposal msr:docFrequency ?v .'',
      lit ''  }'',
      lit ''}'']"

definition observations_insert_data :: "pystr \<Rightarrow> pystr list \<Rightarrow> pystr list \<Rightarrow> pystr" where
  "observations_insert_data proposal_term observation_iris observation_blocks =
     (let has_observation = concat
        [proposal_term, lit '' msr:hasObservation '', join (lit '', '') observation_iris, lit '' .'']
      in insert_data_in BACKFILL_PREFIXES (lit ''urn:msr:staging'')
           (indent_block (join (nl @ nl) (has_observation # observation_blocks))))"

section \<open>The run\<close>

record backfill_summary =
  bf_proposals_processed :: nat
  bf_observations_written :: nat
  bf_documents_tagged :: nat
  bf_scalars_removed :: int

record backfill_state =
  bk_accepted :: "pystr list"
  bk_written :: nat
  bk_chemistry :: "pystr set"
  bk_safety :: "pystr set"

definition tag_document :: "observation \<Rightarrow> backfill_state \<Rightarrow> backfill_state" where
  "tag_document ob st =
     (if ob_corpus ob = CORPUS_SAFETY
      then st\<lparr>bk_safety := insert (ob_document_iri ob) (bk_safety st)\<rparr>
      else st\<lparr>bk_chemistry := insert (ob_document_iri ob) (bk_chemistry st)\<rparr>)"

definition observation_bundle :: "(pystr \<Rightarrow> observation list) \<Rightarrow> pystr \<Rightarrow> staged_proposal \<Rightarrow> pystr list \<times> pystr list" where
  "observation_bundle obs run_ts p = build_observations (obs (sp_term p)) (sp_kind p) (term_slug (sp_term p)) run_ts"

definition observation_update :: "(pystr \<Rightarrow> observation list) \<Rightarrow> pystr \<Rightarrow> staged_proposal \<Rightarrow> pystr" where
  "observation_update obs run_ts p = (let (iris, blocks) = observation_bundle obs run_ts p
     in observations_insert_data (lit ''<'' @ sp_proposal_iri p @ lit ''>'') iris blocks)"

text \<open>The body of the loop over the staged proposals.\<close>

definition backfill_proposal :: "endpoint \<Rightarrow> (pystr \<Rightarrow> observation list) \<Rightarrow> pystr \<Rightarrow> staged_proposal \<Rightarrow>
    backfill_state \<Rightarrow> backfill_state \<times> unit result" where
  "backfill_proposal post obs run_ts p st =
     (let found = obs (sp_term p); blocks = snd (observation_bundle obs run_ts p)
      in if found = [] then (st, Inr ())
         else if blocks = [] then (fold tag_document found st, Inr ())
         else (case update post (observation_update obs run_ts p) (bk_accepted st) of
             (acc, Inl e) \<Rightarrow> (st\<lparr>bk_accepted := acc\<rparr>, Inl e)
           | (acc, Inr _) \<Rightarrow>
               (fold tag_document found (st\<lparr>bk_accepted := acc, bk_written := bk_written st + length blocks\<rparr>), Inr ())))"

fun backfill_proposals :: "endpoint \<Rightarrow> (pystr \<Rightarrow> observation list) \<Rightarrow> pystr \<Rightarrow> staged_proposal list \<Rightarrow>
    backfill_state \<Rightarrow> backfill_state \<times> unit result" where
  "backfill_proposals post obs run_ts [] st = (st, Inr ())"
| "backfill_proposals post obs run_ts (p # ps) st = (case backfill_proposal post obs run_ts p st of
       (st, Inl e) \<Rightarrow> (st, Inl e)
     | (st, Inr _) \<Rightarrow> backfill_proposals post obs run_ts ps st)"

definition bracketed :: "pystr set \<Rightarrow> pystr list" where
  "bracketed docs = map (\<lambda>doc. lit ''<'' @ doc @ lit ''>'') (sorted_list_of_set docs)"

text \<open>\<open>_build_safety_corpus_index_with_ids\<close> before folding case: the readable sources.\<close>

definition safety_files :: "(pystr \<Rightarrow> pystr option) \<Rightarrow> pystr list \<Rightarrow> (pystr \<times> pystr) list" where
  "safety_files text_of reports = List.map_filter (\<lambda>r. map_option (Pair r) (text_of r)) reports"

definition corpus_observations :: "(pystr \<Rightarrow> pystr) \<Rightarrow> (pystr \<times> pystr) list \<Rightarrow> (pystr \<Rightarrow> pystr option) \<Rightarrow>
    pystr set \<Rightarrow> pystr \<Rightarrow> observation list" where
  "corpus_observations casefold files text_of terms t =
     score_document_observations terms (lit ''chemistry'') (index_documents casefold files) t @
     score_document_observations terms (lit ''safety'')
       (index_documents casefold (safety_files text_of (map ss_id SAFETY_SOURCES))) t"

definition finish_backfill :: "endpoint \<Rightarrow> (pystr list \<Rightarrow> select_fn) \<Rightarrow> nat \<Rightarrow> backfill_state \<Rightarrow>
    pystr list \<times> backfill_summary result" where
  "finish_backfill post select processed st =
     (case write_corpus_tags post (bracketed (bk_chemistry st)) CORPUS_CHEMISTRY (bk_accepted st) of
        (acc, Inl e) \<Rightarrow> (acc, Inl e)
      | (acc, Inr _) \<Rightarrow> (case write_corpus_tags post (bracketed (bk_safety st)) CORPUS_SAFETY acc of
          (acc, Inl e) \<Rightarrow> (acc, Inl e)
        | (acc, Inr _) \<Rightarrow> (case count_doc_frequency_scalars (select acc) of
            Inl e \<Rightarrow> (acc, Inl e)
          | Inr n \<Rightarrow> (case (if n \<noteq> 0 then update post DELETE_DOC_FREQUENCY_UPDATE acc else (acc, Inr ())) of
              (acc, Inl e) \<Rightarrow> (acc, Inl e)
            | (acc, Inr _) \<Rightarrow> (acc, Inr \<lparr>bf_proposals_processed = processed, bf_observations_written = bk_written st,
                bf_documents_tagged = card (bk_chemistry st) + card (bk_safety st), bf_scalars_removed = n\<rparr>)))))"

definition run_backfill :: "endpoint \<Rightarrow> (pystr list \<Rightarrow> select_fn) \<Rightarrow> (pystr \<Rightarrow> pystr) \<Rightarrow> (pystr \<times> pystr) list \<Rightarrow>
    (pystr \<Rightarrow> pystr option) \<Rightarrow> pystr \<Rightarrow> pystr list \<Rightarrow> pystr list \<times> backfill_summary result" where
  "run_backfill post select casefold files text_of run_ts accepted =
     (case send_all post [mine_stable_activity_insert_data, mine_activity_insert_data run_ts] accepted of
        (acc, Inl e) \<Rightarrow> (acc, Inl e)
      | (acc, Inr _) \<Rightarrow> (case read_change_proposals (select acc) of
          Inl e \<Rightarrow> (acc, Inl e)
        | Inr staged \<Rightarrow>
            (let obs = corpus_observations casefold files text_of (set (map sp_term staged))
             in case backfill_proposals post obs run_ts staged
                  \<lparr>bk_accepted = acc, bk_written = 0, bk_chemistry = {}, bk_safety = {}\<rparr> of
                  (st, Inl e) \<Rightarrow> (bk_accepted st, Inl e)
                | (st, Inr _) \<Rightarrow> finish_backfill post select (length staged) st)))"

section \<open>What a run sends\<close>

text \<open>The documents of a corpus that contain a staged term, and the updates of a run up to the count.\<close>

definition documents_with :: "(pystr \<Rightarrow> pystr) \<Rightarrow> (pystr \<times> pystr) list \<Rightarrow> staged_proposal list \<Rightarrow> pystr set" where
  "documents_with casefold files staged =
     (\<lambda>(stem, text). MSRD @ stem) ` {(stem, text) \<in> set files.
        \<exists>p \<in> set staged. sp_term p \<in> set (term_multiset (casefold text))}"

definition matching_documents :: "(pystr \<Rightarrow> pystr) \<Rightarrow> (pystr \<times> pystr) list \<Rightarrow> pystr \<Rightarrow> nat" where
  "matching_documents casefold files t =
     length (filter (\<lambda>(stem, text). t \<in> set (term_multiset (casefold text))) files)"

definition tag_updates :: "pystr set \<Rightarrow> pystr \<Rightarrow> pystr list" where
  "tag_updates docs corpus = (if docs = {} then []
     else [corpus_tag_insert_data (bracketed docs) corpus, corpus_individuals_insert_data])"

definition backfill_plan :: "(pystr \<Rightarrow> pystr) \<Rightarrow> (pystr \<times> pystr) list \<Rightarrow> (pystr \<Rightarrow> pystr option) \<Rightarrow> pystr \<Rightarrow>
    staged_proposal list \<Rightarrow> pystr list" where
  "backfill_plan casefold files text_of run_ts staged =
     (let obs = corpus_observations casefold files text_of (set (map sp_term staged))
      in map (observation_update obs run_ts) (filter (\<lambda>p. obs (sp_term p) \<noteq> []) staged) @
         tag_updates (documents_with casefold files staged) CORPUS_CHEMISTRY @
         tag_updates (documents_with casefold (safety_files text_of (map ss_id SAFETY_SOURCES)) staged) CORPUS_SAFETY)"

definition backfill_counts :: "(pystr \<Rightarrow> pystr) \<Rightarrow> (pystr \<times> pystr) list \<Rightarrow> (pystr \<Rightarrow> pystr option) \<Rightarrow>
    staged_proposal list \<Rightarrow> int \<Rightarrow> backfill_summary" where
  "backfill_counts casefold files text_of staged k =
     (let safety = safety_files text_of (map ss_id SAFETY_SOURCES)
      in \<lparr>bf_proposals_processed = length staged,
        bf_observations_written = (\<Sum>p \<leftarrow> staged. matching_documents casefold files (sp_term p)
          + matching_documents casefold safety (sp_term p)),
        bf_documents_tagged = card (documents_with casefold files staged) + card (documents_with casefold safety staged),
        bf_scalars_removed = k\<rparr>)"

section \<open>Properties\<close>

definition iris_in :: "(pystr \<Rightarrow> bool) \<Rightarrow> observation list \<Rightarrow> pystr set" where
  "iris_in P obs = ob_document_iri ` {ob \<in> set obs. P (ob_corpus ob)}"

lemma iris_in_simps [simp]:
  "iris_in P [] = {}"
  "iris_in P (obs @ obs') = iris_in P obs \<union> iris_in P obs'"
  "iris_in P (ob # obs) = (if P (ob_corpus ob) then insert (ob_document_iri ob) (iris_in P obs) else iris_in P obs)"
  by (auto simp: iris_in_def)

lemma tag_documents:
  "fold tag_document obs st = st\<lparr>
     bk_chemistry := bk_chemistry st \<union> iris_in (\<lambda>c. c \<noteq> CORPUS_SAFETY) obs,
     bk_safety := bk_safety st \<union> iris_in (\<lambda>c. c = CORPUS_SAFETY) obs\<rparr>"
  by (induction obs arbitrary: st) (auto simp: tag_document_def)

lemma length_bundle: "length (snd (observation_bundle obs ts p)) = length (obs (sp_term p))"
  by (simp add: observation_bundle_def build_observations_def Let_def)

lemma backfill_proposal_eq:
  "backfill_proposal post obs ts p st = (if obs (sp_term p) = [] then (st, Inr ())
     else (case update post (observation_update obs ts p) (bk_accepted st) of
         (acc, Inl e) \<Rightarrow> (st\<lparr>bk_accepted := acc\<rparr>, Inl e)
       | (acc, Inr _) \<Rightarrow> (st\<lparr>bk_accepted := acc, bk_written := bk_written st + length (obs (sp_term p)),
           bk_chemistry := bk_chemistry st \<union> iris_in (\<lambda>c. c \<noteq> CORPUS_SAFETY) (obs (sp_term p)),
           bk_safety := bk_safety st \<union> iris_in (\<lambda>c. c = CORPUS_SAFETY) (obs (sp_term p))\<rparr>, Inr ())))"
proof -
  have "snd (observation_bundle obs ts p) = [] \<longleftrightarrow> obs (sp_term p) = []"
    using length_bundle [of obs ts p] by auto
  then show ?thesis unfolding backfill_proposal_def Let_def tag_documents length_bundle
    by (auto split: prod.splits sum.splits)
qed

lemma backfill_proposals_eq:
  "case backfill_proposals post obs ts ps st of (st', r) \<Rightarrow>
     (bk_accepted st', r) = send_all post (map (observation_update obs ts)
       (filter (\<lambda>p. obs (sp_term p) \<noteq> []) ps)) (bk_accepted st)
     \<and> (r = Inr () \<longrightarrow> (let found = concat (map (\<lambda>p. obs (sp_term p)) ps) in
         bk_written st' = bk_written st + length found
         \<and> bk_chemistry st' = bk_chemistry st \<union> iris_in (\<lambda>c. c \<noteq> CORPUS_SAFETY) found
         \<and> bk_safety st' = bk_safety st \<union> iris_in (\<lambda>c. c = CORPUS_SAFETY) found))"
proof (induction ps arbitrary: st)
  case (Cons p ps)
  show ?case
  proof (cases "obs (sp_term p) = []")
    case True
    then show ?thesis using Cons.IH [of st] by (simp add: backfill_proposal_eq)
  next
    case False
    obtain acc r where u: "update post (observation_update obs ts p) (bk_accepted st) = (acc, r)" by fastforce
    show ?thesis
    proof (cases r)
      case (Inl e)
      then show ?thesis using u False by (simp add: backfill_proposal_eq)
    next
      case (Inr _)
      define st1 where "st1 = fst (backfill_proposal post obs ts p st)"
      have st1: "st1 = st\<lparr>bk_accepted := acc, bk_written := bk_written st + length (obs (sp_term p)),
           bk_chemistry := bk_chemistry st \<union> iris_in (\<lambda>c. c \<noteq> CORPUS_SAFETY) (obs (sp_term p)),
           bk_safety := bk_safety st \<union> iris_in (\<lambda>c. c = CORPUS_SAFETY) (obs (sp_term p))\<rparr>"
        using u Inr False by (simp add: st1_def backfill_proposal_eq)
      have "backfill_proposals post obs ts (p # ps) st = backfill_proposals post obs ts ps st1"
        using u Inr False st1 by (simp add: backfill_proposal_eq)
      then show ?thesis using Cons.IH [of st1] u Inr False
        by (auto simp: st1 Let_def Un_assoc split: prod.splits)
    qed
  qed
qed simp

lemma write_corpus_tags_eq:
  assumes "finite docs"
  shows "write_corpus_tags post (bracketed docs) corpus acc = send_all post (tag_updates docs corpus) acc"
  using assms by (auto simp: write_corpus_tags_def tag_updates_def bracketed_def sorted_list_of_set_eq_Nil_iff)

lemma iris_in_concat: "iris_in P (concat (map f ps)) = (\<Union>p \<in> set ps. iris_in P (f p))"
  by (induction ps) simp_all

lemma iris_in_map:
  "(\<And>x. ob_corpus (f x) = c) \<Longrightarrow> iris_in P (map f xs) = (if P c then (\<lambda>x. ob_document_iri (f x)) ` set xs else {})"
  by (induction xs) auto

lemma found_documents:
  defines "sf text_of \<equiv> safety_files text_of (map ss_id SAFETY_SOURCES)"
  defines "obs casefold files text_of staged \<equiv> corpus_observations casefold files text_of (set (map sp_term staged))"
  defines "found casefold files text_of staged \<equiv> concat (map (\<lambda>p. obs casefold files text_of staged (sp_term p)) staged)"
  shows "iris_in (\<lambda>c. c \<noteq> CORPUS_SAFETY) (found casefold files text_of staged) = documents_with casefold files staged"
    "iris_in (\<lambda>c. c = CORPUS_SAFETY) (found casefold files text_of staged) = documents_with casefold (sf text_of) staged"
    "length (found casefold files text_of staged) = (\<Sum>p \<leftarrow> staged. matching_documents casefold files (sp_term p)
       + matching_documents casefold (sf text_of) (sp_term p))"
proof -
  have c: "corpus_for_genre (lit ''chemistry'') \<noteq> CORPUS_SAFETY" "corpus_for_genre (lit ''safety'') = CORPUS_SAFETY"
    by (simp_all add: corpus_for_genre_def CORPUS_CHEMISTRY_def CORPUS_SAFETY_def)
  have o: "obs casefold files text_of staged t = (if t \<in> sp_term ` set staged then
      map (\<lambda>(stem, text). \<lparr>ob_document_iri = MSRD @ stem, ob_corpus = corpus_for_genre (lit ''chemistry''),
        ob_occurrence_count = count_list (term_multiset (casefold text)) t\<rparr>)
        (filter (\<lambda>(_, text). t \<in> set (term_multiset (casefold text))) files) @
      map (\<lambda>(stem, text). \<lparr>ob_document_iri = MSRD @ stem, ob_corpus = corpus_for_genre (lit ''safety''),
        ob_occurrence_count = count_list (term_multiset (casefold text)) t\<rparr>)
        (filter (\<lambda>(_, text). t \<in> set (term_multiset (casefold text))) (sf text_of)) else [])" for t
    by (simp add: obs_def sf_def corpus_observations_def score_document_observations_eq index_documents_def
        filter_map comp_def case_prod_unfold)
  show "iris_in (\<lambda>c. c \<noteq> CORPUS_SAFETY) (found casefold files text_of staged) = documents_with casefold files staged"
    "iris_in (\<lambda>c. c = CORPUS_SAFETY) (found casefold files text_of staged) = documents_with casefold (sf text_of) staged"
    unfolding found_def iris_in_concat o using c
    by (auto simp: iris_in_map case_prod_unfold documents_with_def cong: image_cong)
  show "length (found casefold files text_of staged) = (\<Sum>p \<leftarrow> staged. matching_documents casefold files (sp_term p)
       + matching_documents casefold (sf text_of) (sp_term p))"
    unfolding found_def length_concat map_map o
    by (intro arg_cong [where f = sum_list] map_cong) (auto simp: matching_documents_def case_prod_unfold)
qed

lemma finish_backfill_eq:
  assumes "finite (bk_chemistry st)" "finite (bk_safety st)"
  shows "finish_backfill post select n st =
    (case send_all post (tag_updates (bk_chemistry st) CORPUS_CHEMISTRY @ tag_updates (bk_safety st) CORPUS_SAFETY)
        (bk_accepted st) of
       (b, Inl e) \<Rightarrow> (b, Inl e)
     | (b, Inr _) \<Rightarrow> (case count_doc_frequency_scalars (select b) of
         Inl e \<Rightarrow> (b, Inl e)
       | Inr k \<Rightarrow> (case send_all post (if k = 0 then [] else [DELETE_DOC_FREQUENCY_UPDATE]) b of
           (c, Inl e) \<Rightarrow> (c, Inl e)
         | (c, Inr _) \<Rightarrow> (c, Inr \<lparr>bf_proposals_processed = n, bf_observations_written = bk_written st,
             bf_documents_tagged = card (bk_chemistry st) + card (bk_safety st), bf_scalars_removed = k\<rparr>))))"
  unfolding finish_backfill_def write_corpus_tags_eq [OF assms(1)] write_corpus_tags_eq [OF assms(2)] send_all_append
  by (auto split: prod.splits sum.splits)

lemma finite_documents_with: "finite (documents_with casefold files staged)"
  unfolding documents_with_def by (rule finite_imageI, rule finite_subset [of _ "set files"]) auto


end
