(* ===== verification/Link_Stage.thy ===== *)
theory Link_Stage
  imports Linker Mentions Disambiguation
begin

text \<open>
  The \<open>link\<close> stage of \<open>cli.py\<close> (\<open>_cmd_link\<close>) and its safety variant: the linker run with a
  disambiguator that has effects, the scan that collects what a report will ask, the pool that
  resolves it ahead (its workers finish in the order \<open>schedule\<close> gives), the cache all reports of a run
  share, and the writes. Files are arguments (\<open>segments_of\<close>, \<open>None\<close> when missing) and results.
\<close>

section \<open>The linker with effects\<close>

type_synonym 's disambiguating = "pystr \<Rightarrow> pystr \<Rightarrow> 's \<Rightarrow> 's \<times> outcome"

definition with_outcome :: "link_run \<Rightarrow> (pystr \<Rightarrow> pystr \<Rightarrow> outcome) \<Rightarrow> link_run" where
  "with_outcome run d = run\<lparr>disambiguator := Some d\<rparr>"

definition fuzzy_hit :: "link_run \<Rightarrow> pystr \<Rightarrow> (pystr \<times> pystr \<times> pyfloat) option" where
  "fuzzy_hit run surface = fuzzy_link (extract_best run) surface (known_labels (known_entities run))
     (fuzzy_threshold (link_conf run)) (fuzzy_min_token_length (link_conf run))"

definition fallback_step_st :: "'s disambiguating \<Rightarrow> link_run \<Rightarrow> segment \<Rightarrow> candidate \<Rightarrow>
    's \<times> mention_record list \<Rightarrow> 's \<times> mention_record list" where
  "fallback_step_st d run seg c = (\<lambda>(st, resolved). case c of (s, e, surface, _) \<Rightarrow>
     if \<not> is_free resolved s e then (st, resolved)
     else (case fuzzy_hit run surface of
         Some (target, kind, score) \<Rightarrow>
           (st, resolved @ [make_mention seg s e surface (Some (target, Some kind)) LAYER_FUZZY (Some score)])
       | None \<Rightarrow> (case d surface (sg_text seg) st of (st, out) \<Rightarrow>
           (st, resolved @ [make_mention seg s e surface
              (flash_target (with_outcome run (\<lambda>_ _. out)) seg surface) LAYER_FLASH None]))))"

text \<open>What layers 2 and 3 leave resolved.\<close>

definition resolved_salts :: "link_run \<Rightarrow> segment \<Rightarrow> candidate list \<Rightarrow> mention_record list" where
  "resolved_salts run seg cs = fold (formula_step seg) cs
     (fold (exact_step seg (salt_spans cs)) (seeded_match (matcher run) (sg_text seg)) [])"

definition link_segment_st :: "'s disambiguating \<Rightarrow> link_run \<Rightarrow> pystr list \<Rightarrow> segment \<Rightarrow> 's \<Rightarrow> 's \<times> mention_record list" where
  "link_segment_st d run known_compounds seg st =
     (let cs = segment_candidates seg known_compounds (known_iris run)
      in case fold (fallback_step_st d run seg) cs (st, resolved_salts run seg cs) of
           (st, resolved) \<Rightarrow> (st, sort_key (\<lambda>r. (mn_start r, mn_end r)) resolved))"

fun link_segments_st :: "'s disambiguating \<Rightarrow> link_run \<Rightarrow> pystr list \<Rightarrow> segment list \<Rightarrow> 's \<Rightarrow>
    's \<times> mention_record list" where
  "link_segments_st d run cs [] st = (st, [])"
| "link_segments_st d run cs (seg # segs) st = (case link_segment_st d run cs seg st of
       (st, records) \<Rightarrow> (case link_segments_st d run cs segs st of (st, rest) \<Rightarrow> (st, records @ rest)))"

definition link_report_st :: "'s disambiguating \<Rightarrow> link_run \<Rightarrow> segment list \<Rightarrow> 's \<Rightarrow> 's \<times> mention_record list" where
  "link_report_st d run segs st = link_segments_st d run (build_known_compounds (known_entities run)) segs st"

section \<open>Pre-warming the cache\<close>

type_synonym cache = "(pystr \<times> outcome) list"

definition collector :: "cache \<Rightarrow> (pystr \<times> pystr) list disambiguating" where
  "collector cache surface sentence pending =
     (if map_of cache surface = None \<and> map_of pending surface = None then pending @ [(surface, sentence)]
      else pending, novel)"

text \<open>\<open>ThreadPoolExecutor\<close> refuses a pool without workers; nothing pending starts no pool.\<close>

definition prewarm_report :: "(pystr \<Rightarrow> pystr \<Rightarrow> outcome) \<Rightarrow> int \<Rightarrow> (nat \<Rightarrow> nat list) \<Rightarrow> link_run \<Rightarrow> segment list \<Rightarrow>
    cache \<Rightarrow> cache result" where
  "prewarm_report ask concurrency schedule run segs cache =
     (let pending = fst (link_report_st (collector cache) run segs [])
      in if pending = [] then Inr cache
         else if concurrency < 1 then Inl ValueError
         else Inr (cache @ map (\<lambda>i. case pending ! i of (surface, sentence) \<Rightarrow> (surface, ask surface sentence))
           (schedule (length pending))))"

section \<open>The stage\<close>

record link_stage =
  ls_accepted :: "pystr list"
  ls_cache :: cache
  ls_artifacts :: "(pystr \<times> mention_record list) list"
  ls_lines :: "pystr list"

definition linked_mentions_of :: "pystr \<Rightarrow> mention_record list \<Rightarrow> mention list" where
  "linked_mentions_of rep records = map (\<lambda>r. \<lparr>me_report = mn_report r, me_start = mn_start r, me_end = mn_end r,
      me_surface_form = mn_surface r,
      me_target_iri = (case mn_target_iri r of Some t \<Rightarrow> t | None \<Rightarrow> lit ''None''),
      me_document_iri = MSRD @ rep\<rparr>)
     (filter (\<lambda>r. mn_status r = lit ''linked'') records)"

definition layer_count :: "mention_record list \<Rightarrow> nat \<Rightarrow> nat" where
  "layer_count records layer = length (filter (\<lambda>r. mn_layer r = layer) records)"

definition link_summary :: "pystr \<Rightarrow> mention_record list \<Rightarrow> pystr" where
  "link_summary rep records =
     (let linked = length (linked_mentions_of rep records)
      in concat [lit ''link: report='', rep, lit '' spans='', show_nat (length records),
           lit '' linked='', show_nat linked, lit '' novel='', show_nat (length records - linked),
           lit '' layer2='', show_nat (layer_count records 2), lit '' layer3='', show_nat (layer_count records 3),
           lit '' layer4='', show_nat (layer_count records 4), lit '' layer5='', show_nat (layer_count records 5)])"

text \<open>The collaborators of a run. \<open>client\<close> is \<open>_resolve\<close>, \<open>None\<close> when no endpoint is configured.\<close>

record link_setup =
  lk_post :: endpoint
  lk_run :: link_run
  lk_client :: "(pystr \<Rightarrow> pystr \<Rightarrow> outcome) option"
  lk_concurrency :: int
  lk_batch_size :: int
  lk_schedule :: "pystr \<Rightarrow> nat \<Rightarrow> nat list"
  lk_run_ts :: pystr

text \<open>Pre-warming one report and the link pass; without a client layer 5 finds nothing.\<close>

definition link_pass :: "link_setup \<Rightarrow> pystr \<Rightarrow> segment list \<Rightarrow> cache \<Rightarrow> (cache \<times> mention_record list) result" where
  "link_pass su rep segs cache = (case lk_client su of
       None \<Rightarrow> Inr (cache, link_report (lk_run su\<lparr>disambiguator := None\<rparr>) segs None)
     | Some ask \<Rightarrow> bind_result
         (prewarm_report ask (lk_concurrency su) (lk_schedule su rep) (lk_run su) segs cache)
         (\<lambda>cache. Inr (link_report_st (cached_disambiguator ask) (lk_run su) segs cache)))"

definition link_document :: "link_setup \<Rightarrow> pystr \<Rightarrow> segment list \<Rightarrow> link_stage \<Rightarrow> link_stage \<times> unit result" where
  "link_document su rep segs st = (case link_pass su rep segs (ls_cache st) of
       Inl e \<Rightarrow> (st, Inl e)
     | Inr (cache, records) \<Rightarrow>
         (case write_mentions (lk_post su) (linked_mentions_of rep records) (lk_run_ts su) (lk_batch_size su)
             (ls_accepted st) of
            (acc, Inl e) \<Rightarrow> (st\<lparr>ls_accepted := acc, ls_cache := cache,
               ls_artifacts := ls_artifacts st @ [(rep, records)]\<rparr>, Inl e)
          | (acc, Inr _) \<Rightarrow> (st\<lparr>ls_accepted := acc, ls_cache := cache,
               ls_artifacts := ls_artifacts st @ [(rep, records)],
               ls_lines := ls_lines st @ [link_summary rep records]\<rparr>, Inr ())))"

fun link_documents :: "link_setup \<Rightarrow> (pystr \<Rightarrow> segment list option) \<Rightarrow> pystr list \<Rightarrow> link_stage \<Rightarrow>
    link_stage \<times> unit result" where
  "link_documents su segments_of [] st = (st, Inr ())"
| "link_documents su segments_of (rep # reps) st = (case segments_of rep of
       None \<Rightarrow> link_documents su segments_of reps st
     | Some segs \<Rightarrow> (case link_document su rep segs st of
         (st, Inl e) \<Rightarrow> (st, Inl e)
       | (st, Inr _) \<Rightarrow> link_documents su segments_of reps st))"

text \<open>Seeding: a linked outcome of the file counts only while its target is known.\<close>

definition seed_cache :: "pystr set \<Rightarrow> cache \<Rightarrow> cache" where
  "seed_cache iris seeded = filter (\<lambda>(_, status, target). \<not> (status = lit ''linked'' \<and> target \<notin> Some ` iris)) seeded"

text \<open>The stage from the seeded cache on. The second component is the text of the cache file, if the run
  gets to writing it.\<close>

definition cmd_link :: "(cache \<Rightarrow> pystr) \<Rightarrow> link_setup \<Rightarrow> (pystr \<Rightarrow> segment list option) \<Rightarrow> cache \<Rightarrow> pystr list \<Rightarrow>
    pystr list \<Rightarrow> link_stage \<times> pystr option \<times> int result" where
  "cmd_link save su segments_of seeded reports acc =
     (let cache = (if lk_client su = None then [] else seed_cache (known_iris (lk_run su)) seeded);
          start = \<lparr>ls_accepted = acc, ls_cache = cache, ls_artifacts = [], ls_lines = []\<rparr>
      in case send_all (lk_post su) [stable_activity_insert_data, activity_insert_data (lk_run_ts su)] acc of
           (acc, Inl e) \<Rightarrow> (start\<lparr>ls_accepted := acc\<rparr>, None, Inl e)
         | (acc, Inr _) \<Rightarrow> (case link_documents su segments_of reports (start\<lparr>ls_accepted := acc\<rparr>) of
             (st, Inl e) \<Rightarrow> (st, None, Inl e)
           | (st, Inr _) \<Rightarrow> (st, if lk_client su = None then None else Some (save (ls_cache st)), Inr 0)))"

section \<open>What a report asks\<close>

text \<open>The questions of a pass: the spans that are free when layer 4 is reached and that it does not
  resolve. They do not depend on the answers, since a span is taken whatever layer 5 makes of it.\<close>

definition placeholder :: "segment \<Rightarrow> int \<Rightarrow> int \<Rightarrow> pystr \<Rightarrow> mention_record" where
  "placeholder seg s e surface = make_mention seg s e surface None LAYER_FLASH None"

fun questions :: "link_run \<Rightarrow> segment \<Rightarrow> candidate list \<Rightarrow> mention_record list \<Rightarrow> (pystr \<times> pystr) list" where
  "questions run seg [] taken = []"
| "questions run seg ((s, e, surface, _) # cs) taken =
     (if \<not> is_free taken s e then questions run seg cs taken
      else (if fuzzy_hit run surface = None then [(surface, sg_text seg)] else []) @
        questions run seg cs (taken @ [placeholder seg s e surface]))"

definition segment_questions :: "link_run \<Rightarrow> pystr list \<Rightarrow> segment \<Rightarrow> (pystr \<times> pystr) list" where
  "segment_questions run known_compounds seg =
     (let cs = segment_candidates seg known_compounds (known_iris run)
      in questions run seg cs (resolved_salts run seg cs))"

definition report_questions :: "link_run \<Rightarrow> segment list \<Rightarrow> (pystr \<times> pystr) list" where
  "report_questions run segs =
     concat (map (segment_questions run (build_known_compounds (known_entities run))) segs)"

fun answer_all :: "'s disambiguating \<Rightarrow> (pystr \<times> pystr) list \<Rightarrow> 's \<Rightarrow> 's \<times> outcome list" where
  "answer_all d [] st = (st, [])"
| "answer_all d ((surface, sentence) # qs) st = (case d surface sentence st of
       (st, out) \<Rightarrow> (case answer_all d qs st of (st, outs) \<Rightarrow> (st, out # outs)))"

lemma answer_all_append:
  "answer_all d (qs @ qs') st = (case answer_all d qs st of
     (st, outs) \<Rightarrow> (case answer_all d qs' st of (st, outs') \<Rightarrow> (st, outs @ outs')))"
  by (induction d qs st rule: answer_all.induct) (auto split: prod.splits)

lemma length_answer_all: "length (snd (answer_all d qs st)) = length qs"
  by (induction d qs st rule: answer_all.induct) (auto split: prod.splits)

definition spans :: "mention_record list \<Rightarrow> (int \<times> int) list" where
  "spans rs = map (\<lambda>r. (mn_start r, mn_end r)) rs"

lemma spans_simps [simp]: "spans [] = []" "spans (rs @ rs') = spans rs @ spans rs'"
  "spans [make_mention seg s e w t l x] = [(s, e)]" "spans [fallback_record run seg s e w] = [(s, e)]"
  by (simp_all add: spans_def)

lemma is_free_spans: "is_free rs s e \<longleftrightarrow> \<not> list_ex (\<lambda>(s', e'). overlaps s e s' e') (spans rs)"
  by (simp add: is_free_def spans_def list_ex_iff)

lemma spans_is_free: "spans rs = spans rs' \<Longrightarrow> is_free rs s e = is_free rs' s e"
  by (simp only: is_free_spans)

text \<open>A disambiguator whose answers to the questions are those of a function links as that function.\<close>

lemma fuzzy_hit_with_outcome [simp]: "fuzzy_hit (with_outcome run f) = fuzzy_hit run"
  by (simp add: fuzzy_hit_def with_outcome_def fun_eq_iff)

lemma fallback_record_hit:
  "fallback_record run seg s e w = (case fuzzy_hit run w of
     Some (target, kind, score) \<Rightarrow> make_mention seg s e w (Some (target, Some kind)) LAYER_FUZZY (Some score)
   | None \<Rightarrow> make_mention seg s e w (flash_target run seg w) LAYER_FLASH None)"
  by (auto simp: fallback_record_def fuzzy_hit_def split: option.splits)

lemma flash_target_outcome:
  "f w (sg_text seg) = out \<Longrightarrow>
   flash_target (with_outcome run (\<lambda>_ _. out)) seg w = flash_target (with_outcome run f) seg w"
  by (simp add: flash_target_def with_outcome_def)

lemma fold_fallback_st:
  assumes "spans taken = spans rs"
    and "answer_all d (questions run seg cs taken) st
      = (st', map (\<lambda>(w, t). f w t) (questions run seg cs taken))"
  shows "fold (fallback_step_st d run seg) cs (st, rs) = (st', fold (fallback_step (with_outcome run f) seg) cs rs)"
  using assms
proof (induction cs arbitrary: st rs taken)
  case (Cons c cs)
  obtain s e w salt where c: "c = (s, e, w, salt)" by (cases c)
  let ?run = "with_outcome run f"
  have free: "is_free taken s e = is_free rs s e" using Cons.prems(1) by (rule spans_is_free)
  show ?case
  proof (cases "is_free rs s e")
    case False
    then have "fallback_step_st d run seg c (st, rs) = (st, rs)" "fallback_step ?run seg c rs = rs"
      by (simp_all add: c fallback_step_st_def fallback_step_def)
    moreover have "questions run seg (c # cs) taken = questions run seg cs taken" using False free by (simp add: c)
    ultimately show ?thesis using Cons.IH [OF Cons.prems(1)] Cons.prems(2) by simp
  next
    case True
    let ?taken = "taken @ [placeholder seg s e w]" and ?r = "fallback_record ?run seg s e w"
    have step: "fallback_step ?run seg c rs = rs @ [?r]" using True by (simp add: c fallback_step_def)
    have sp: "spans ?taken = spans (rs @ [?r])" using Cons.prems(1) by (simp add: placeholder_def)
    show ?thesis
    proof (cases "fuzzy_hit run w")
      case (Some hit)
      then have "fallback_step_st d run seg c (st, rs) = (st, rs @ [?r])"
        using True by (cases hit) (simp add: c fallback_step_st_def fallback_record_hit)
      moreover have "questions run seg (c # cs) taken = questions run seg cs ?taken" using True free Some by (simp add: c)
      ultimately show ?thesis using Cons.IH [OF sp] Cons.prems(2) step by simp
    next
      case None
      obtain st1 out where d: "d w (sg_text seg) st = (st1, out)" by (rule prod.exhaust)
      have q: "questions run seg (c # cs) taken = (w, sg_text seg) # questions run seg cs ?taken"
        using True free None by (simp add: c)
      have out: "f w (sg_text seg) = out"
          "answer_all d (questions run seg cs ?taken) st1 = (st', map (\<lambda>(w, t). f w t) (questions run seg cs ?taken))"
        using Cons.prems(2) unfolding q by (auto simp: d split: prod.splits)
      have "fallback_step_st d run seg c (st, rs) = (st1, rs @ [?r])"
        using True None d flash_target_outcome [of f w seg out run] out(1)
        by (simp add: c fallback_step_st_def fallback_record_hit)
      then show ?thesis using Cons.IH [OF sp out(2)] step by simp
    qed
  qed
qed simp

lemma with_outcome_simps [simp]:
  "known_entities (with_outcome run f) = known_entities run" "known_iris (with_outcome run f) = known_iris run"
  "matcher (with_outcome run f) = matcher run" "link_conf (with_outcome run f) = link_conf run"
  "extract_best (with_outcome run f) = extract_best run"
  by (simp_all add: with_outcome_def)

lemma link_segment_with_outcome:
  assumes "answer_all d (segment_questions run kc seg) st = (st', map (\<lambda>(w, t). f w t) (segment_questions run kc seg))"
  shows "link_segment_st d run kc seg st = (st', link_segment (with_outcome run f) seg (Some kc))"
  using fold_fallback_st [OF refl, of d run seg _ _ st st' f] assms
  by (simp add: link_segment_st_def segment_questions_def link_segment_def resolve_segment_def Let_def resolved_salts_def)

lemma link_segments_with_outcome:
  assumes "answer_all d (concat (map (segment_questions run kc) segs)) st
    = (st', map (\<lambda>(w, t). f w t) (concat (map (segment_questions run kc) segs)))"
  shows "link_segments_st d run kc segs st = (st', concat (map (\<lambda>seg. link_segment (with_outcome run f) seg (Some kc)) segs))"
  using assms
proof (induction segs arbitrary: st)
  case (Cons seg segs)
  obtain st1 outs where a: "answer_all d (segment_questions run kc seg) st = (st1, outs)" by fastforce
  obtain st2 outs' where b: "answer_all d (concat (map (segment_questions run kc) segs)) st1 = (st2, outs')" by fastforce
  have l: "length outs = length (segment_questions run kc seg)"
    using length_answer_all [of d "segment_questions run kc seg" st] a by simp
  have "outs @ outs' = map (\<lambda>(w, t). f w t) (segment_questions run kc seg) @
      map (\<lambda>(w, t). f w t) (concat (map (segment_questions run kc) segs))" "st2 = st'"
    using Cons.prems a b by (simp_all add: answer_all_append)
  then have eqs: "outs = map (\<lambda>(w, t). f w t) (segment_questions run kc seg)"
      "outs' = map (\<lambda>(w, t). f w t) (concat (map (segment_questions run kc) segs))"
    using l by (simp_all add: append_eq_append_conv)
  show ?case using link_segment_with_outcome [OF a [unfolded eqs(1)]] Cons.IH [OF b [unfolded eqs(2) \<open>st2 = st'\<close>]]
    by simp
qed simp

lemma link_report_with_outcome:
  assumes "answer_all d (report_questions run segs) st = (st', map (\<lambda>(w, t). f w t) (report_questions run segs))"
  shows "link_report_st d run segs st = (st', link_report (with_outcome run f) segs None)"
  using link_segments_with_outcome [OF assms [unfolded report_questions_def]]
  by (simp add: link_report_st_def link_report_def)

section \<open>Pre-warming is transparent\<close>

text \<open>What a collecting pass leaves pending, and the cache those questions lead to.\<close>

definition pending_of :: "cache \<Rightarrow> (pystr \<times> pystr) list \<Rightarrow> (pystr \<times> pystr) list" where
  "pending_of cache qs = fst (answer_all (collector cache) qs [])"

definition resolved_by :: "(pystr \<Rightarrow> pystr \<Rightarrow> outcome) \<Rightarrow> (pystr \<times> pystr) list \<Rightarrow> cache" where
  "resolved_by ask qs = map (\<lambda>(w, t). (w, ask w t)) qs"

lemma collector_novel: "snd (collector cache w t pending) = novel"
  by (simp add: collector_def)

lemma answer_all_collector_outcomes: "snd (answer_all (collector cache) qs pending) = map (\<lambda>_. novel) qs"
proof (induction qs arbitrary: pending)
  case (Cons q qs)
  then show ?case using collector_novel [of cache "fst q" "snd q" pending]
    by (cases q) (simp add: split_beta)
qed simp

lemma answer_all_collector:
  "answer_all (collector cache) qs pending = (fst (answer_all (collector cache) qs pending), map (\<lambda>(w, t). novel) qs)"
  using answer_all_collector_outcomes [of cache qs pending] by (simp add: prod_eq_iff case_prod_unfold)

lemma collected: "fst (link_report_st (collector cache) run segs []) = pending_of cache (report_questions run segs)"
  using link_report_with_outcome [of "collector cache" run segs "[]" _ "\<lambda>_ _. novel"]
    answer_all_collector [of cache "report_questions run segs" "[]"]
  by (simp add: pending_of_def)

lemma keys_resolved_by: "map fst (resolved_by ask qs) = map fst qs"
  by (simp add: resolved_by_def comp_def case_prod_unfold)

lemma map_of_resolved_by:
  "map_of (resolved_by ask qs) w = None \<longleftrightarrow> map_of qs w = None"
  by (simp add: map_of_eq_None_iff keys_resolved_by [THEN arg_cong [of _ _ set], simplified])

lemma resolve_all_answer: "resolve_all ask = answer_all (cached_disambiguator ask)"
proof (intro ext)
  fix qs cache
  show "resolve_all ask qs cache = answer_all (cached_disambiguator ask) qs cache"
  proof (induction qs arbitrary: cache)
    case (Cons q qs)
    then show ?case by (cases q) (simp split: prod.splits)
  qed simp
qed

text \<open>Resolving one by one fills the cache with exactly what the collecting pass lists.\<close>

lemma cached_as_collected:
  assumes "distinct (map fst pending)" "set (map fst pending) \<inter> set (map fst cache) = {}"
  shows "fst (answer_all (cached_disambiguator ask) qs (cache @ resolved_by ask pending))
      = cache @ resolved_by ask (fst (answer_all (collector cache) qs pending))
    \<and> distinct (map fst (fst (answer_all (collector cache) qs pending)))
    \<and> set (map fst (fst (answer_all (collector cache) qs pending))) \<inter> set (map fst cache) = {}"
  using assms
proof (induction qs arbitrary: pending)
  case (Cons q qs)
  obtain w t where q: "q = (w, t)" by (cases q)
  let ?c = "cache @ resolved_by ask pending"
  show ?case
  proof (cases "map_of cache w = None \<and> map_of pending w = None")
    case True
    then have col: "collector cache w t pending = (pending @ [(w, t)], novel)" by (simp add: collector_def)
    have "map_of ?c w = None" using True map_of_resolved_by [of ask pending w] by (simp add: map_add_None)
    then have res: "cached_disambiguator ask w t ?c = (cache @ resolved_by ask (pending @ [(w, t)]), ask w t)"
      by (simp only: cached_disambiguator_def Let_def option.case) (simp add: resolved_by_def)
    have "distinct (map fst (pending @ [(w, t)]))" "set (map fst (pending @ [(w, t)])) \<inter> set (map fst cache) = {}"
      using Cons.prems True by (auto simp: map_of_eq_None_iff)
    from Cons.IH [OF this] show ?thesis by (simp add: q col res split_beta)
  next
    case False
    then have col: "collector cache w t pending = (pending, novel)" by (auto simp: collector_def)
    have "map_of ?c w \<noteq> None" using False map_of_resolved_by [of ask pending w] by (simp add: map_add_None)
    then obtain out where "map_of ?c w = Some out" by blast
    then have res: "cached_disambiguator ask w t ?c = (?c, out)" by (simp only: cached_disambiguator_def option.case)
    from Cons.IH [OF Cons.prems] show ?thesis by (simp add: q col res split_beta)
  qed
qed simp

lemma permuted_map_of:
  assumes "mset js = mset [0..<length xs]" "distinct (map fst xs)"
  shows "map_of (map (\<lambda>i. xs ! i) js) = map_of xs"
proof (rule map_of_inject_set [THEN iffD2])
  have m: "mset (map (\<lambda>i. xs ! i) js) = mset xs"
    using assms(1) by (metis map_nth mset_map)
  show "distinct (map fst xs)" by (rule assms(2))
  show "distinct (map fst (map (\<lambda>i. xs ! i) js))" using assms(2) m by (metis mset_eq_imp_distinct_iff mset_map)
  show "set (map (\<lambda>i. xs ! i) js) = set xs" using m by (metis set_mset_mset)
qed

lemma cached_answers:
  "answer_all (cached_disambiguator ask) qs c = (c', outs) \<Longrightarrow>
     map_of c \<subseteq>\<^sub>m map_of c' \<and> map Some outs = map (\<lambda>(w, t). map_of c' w) qs"
proof (induction qs arbitrary: c outs)
  case (Cons q qs)
  obtain w t where q: "q = (w, t)" by (cases q)
  obtain k1 out where k1: "cached_disambiguator ask w t c = (k1, out)" by (rule prod.exhaust)
  obtain outs' where rest: "answer_all (cached_disambiguator ask) qs k1 = (c', outs')" "outs = out # outs'"
    using Cons.prems q k1 by (auto split: prod.splits)
  have "map_of c \<subseteq>\<^sub>m map_of k1 \<and> map_of k1 w = Some out"
    using k1 by (auto simp: cached_disambiguator_def Let_def map_le_def map_add_def split: option.splits)
  then show ?case using Cons.IH [OF rest(1)] rest(2) q by (auto intro: map_le_trans simp: map_le_def dom_def)
qed simp

definition outcome_of :: "cache \<Rightarrow> pystr \<Rightarrow> pystr \<Rightarrow> outcome" where
  "outcome_of cache surface sentence = (case map_of cache surface of None \<Rightarrow> novel | Some out \<Rightarrow> out)"

lemma cached_outcomes:
  assumes "answer_all (cached_disambiguator ask) qs c = (c', outs)"
  shows "outs = map (\<lambda>(w, t). outcome_of c' w t) qs"
proof -
  have m: "map Some outs = map (\<lambda>(w, t). map_of c' w) qs" using cached_answers [OF assms] by simp
  then have l: "length outs = length qs" by (metis length_map)
  show ?thesis
  proof (rule nth_equalityI)
    fix i assume i: "i < length outs"
    have "map Some outs ! i = map (\<lambda>(w, t). map_of c' w) qs ! i" using m by simp
    then have "map_of c' (fst (qs ! i)) = Some (outs ! i)" using i l by (simp add: split_beta)
    then show "outs ! i = map (\<lambda>(w, t). outcome_of c' w t) qs ! i"
      using i l by (simp add: outcome_of_def split_beta)
  qed (simp add: l)
qed

lemma link_report_cong:
  assumes "map (\<lambda>(w, t). f w t) (report_questions run segs) = map (\<lambda>(w, t). g w t) (report_questions run segs)"
  shows "link_report (with_outcome run f) segs None = link_report (with_outcome run g) segs None"
proof -
  have pure: "answer_all (\<lambda>w t st. (st, h w t)) qs () = ((), map (\<lambda>(w, t). h w t) qs)" for h :: "pystr \<Rightarrow> pystr \<Rightarrow> outcome" and qs
    by (induction qs) auto
  have "link_report_st (\<lambda>w t st. (st, f w t)) run segs () = ((), link_report (with_outcome run f) segs None)"
    by (rule link_report_with_outcome) (rule pure)
  moreover have "link_report_st (\<lambda>w t st. (st, f w t)) run segs () = ((), link_report (with_outcome run g) segs None)"
    by (rule link_report_with_outcome) (rule pure [where h = f, of "report_questions run segs", unfolded assms])
  ultimately show ?thesis by simp
qed

lemma link_report_cached:
  assumes "answer_all (cached_disambiguator ask) (report_questions run segs) c = (c', outs)"
  shows "link_report_st (cached_disambiguator ask) run segs c = (c', link_report (with_outcome run (outcome_of c')) segs None)"
  by (rule link_report_with_outcome) (simp add: assms cached_outcomes [OF assms])

definition valid_schedule :: "(nat \<Rightarrow> nat list) \<Rightarrow> bool" where
  "valid_schedule schedule \<longleftrightarrow> (\<forall>n. mset (schedule n) = mset [0..<n])"

lemma prewarmed:
  assumes "valid_schedule schedule" "prewarm_report ask k schedule run segs cache = Inr cache'"
    and "answer_all (cached_disambiguator ask) (report_questions run segs) cache = (k1, outs)"
  shows "map_of cache' = map_of k1"
proof -
  let ?p = "pending_of cache (report_questions run segs)"
  have k1: "k1 = cache @ resolved_by ask ?p" "distinct (map fst ?p)"
    using cached_as_collected [of "[]" cache ask "report_questions run segs"] assms(3)
    by (simp_all add: pending_of_def resolved_by_def)
  show ?thesis
  proof (cases "?p = []")
    case True
    then show ?thesis using assms(2) k1 by (simp add: prewarm_report_def collected resolved_by_def)
  next
    case False
    let ?r = "resolved_by ask ?p" and ?js = "schedule (length ?p)"
    have js: "mset ?js = mset [0..<length ?r]" using assms(1) by (simp add: valid_schedule_def resolved_by_def)
    have "mset ?js = mset [0..<length ?p]" using assms(1) by (simp add: valid_schedule_def)
    from mset_eq_setD [OF this] have "set ?js = {..<length ?p}" by (simp add: atLeast_upt)
    then have "map (\<lambda>i. case ?p ! i of (w, t) \<Rightarrow> (w, ask w t)) ?js = map (\<lambda>i. ?r ! i) ?js"
      by (auto simp: resolved_by_def)
    moreover have "cache' = cache @ map (\<lambda>i. case ?p ! i of (w, t) \<Rightarrow> (w, ask w t)) ?js"
      using assms(2) False by (simp add: prewarm_report_def collected Let_def split: if_splits)
    ultimately have "cache' = cache @ map (\<lambda>i. ?r ! i) ?js" by (simp only:)
    moreover have "map_of (map (\<lambda>i. ?r ! i) ?js) = map_of ?r"
      by (rule permuted_map_of [OF js]) (simp add: keys_resolved_by k1)
    ultimately show ?thesis using k1 by simp
  qed
qed

lemma prewarmed_pass:
  assumes "valid_schedule schedule" "prewarm_report ask k schedule run segs cache = Inr cache'"
  shows "link_report_st (cached_disambiguator ask') run segs cache'
      = (cache', snd (link_report_st (cached_disambiguator ask) run segs cache))
    \<and> map_of cache' = map_of (fst (link_report_st (cached_disambiguator ask) run segs cache))"
proof -
  let ?qs = "report_questions run segs"
  obtain k1 outs where k1: "answer_all (cached_disambiguator ask) ?qs cache = (k1, outs)" by fastforce
  have eq: "map_of cache' = map_of k1" by (rule prewarmed [OF assms k1])
  have "map Some outs = map (\<lambda>(w, t). map_of cache' w) ?qs" using cached_answers [OF k1] eq by simp
  then have again: "answer_all (cached_disambiguator ask') ?qs cache' = (cache', outs)"
    using resolve_all_cached by (simp add: resolve_all_answer [symmetric])
  have "outcome_of cache' = outcome_of k1" by (simp add: outcome_of_def eq fun_eq_iff)
  then show ?thesis using link_report_cached [OF again] link_report_cached [OF k1] eq by simp
qed

section \<open>The run\<close>

definition valid_setup :: "link_setup \<Rightarrow> bool" where
  "valid_setup su \<longleftrightarrow> (\<forall>rep. valid_schedule (lk_schedule su rep))"

lemma no_client_novel:
  "link_report (run\<lparr>disambiguator := None\<rparr>) segs None = link_report (with_outcome run (\<lambda>_ _. novel)) segs None"
proof -
  have f: "flash_target (run\<lparr>disambiguator := None\<rparr>) = flash_target (with_outcome run (\<lambda>_ _. novel))"
    by (simp add: fun_eq_iff flash_target_def with_outcome_def novel_def)
  have "fallback_step (run\<lparr>disambiguator := None\<rparr>) = fallback_step (with_outcome run (\<lambda>_ _. novel))"
    by (simp add: fun_eq_iff fallback_step_def fallback_record_def f split: option.splits)
  then show ?thesis
    by (simp add: link_report_def link_segment_def resolve_segment_def)
qed

text \<open>A pass links as the outcomes it leaves cached say, and later passes do not change them.\<close>

lemma link_pass_result:
  assumes "valid_setup su" "link_pass su rep segs cache = Inr (cache', records)" "lk_client su = None \<Longrightarrow> cache = []"
    and "map_of cache' \<subseteq>\<^sub>m map_of final" "lk_client su = None \<Longrightarrow> final = []"
  shows "records = link_report (with_outcome (lk_run su) (outcome_of final)) segs None
    \<and> map_of cache \<subseteq>\<^sub>m map_of cache' \<and> (lk_client su = None \<longrightarrow> cache' = [])"
proof (cases "lk_client su")
  case None
  moreover have "outcome_of [] = (\<lambda>_ _. novel)" by (simp add: outcome_of_def fun_eq_iff)
  ultimately show ?thesis using assms by (simp add: link_pass_def no_client_novel)
next
  case (Some ask)
  let ?run = "lk_run su" and ?qs = "report_questions (lk_run su) segs"
  have v: "valid_schedule (lk_schedule su rep)" using assms(1) by (simp add: valid_setup_def)
  obtain pre where pre: "prewarm_report ask (lk_concurrency su) (lk_schedule su rep) ?run segs cache = Inr pre"
      "link_report_st (cached_disambiguator ask) ?run segs pre = (cache', records)"
    using assms(2) Some by (auto simp: link_pass_def bind_result_eq_Inr)
  have p: "cache' = pre" using prewarmed_pass [OF v pre(1), of ask] pre(2) by simp
  obtain k1 outs where k1: "answer_all (cached_disambiguator ask) ?qs cache = (k1, outs)" by (rule prod.exhaust)
  have eq: "map_of cache' = map_of k1" using prewarmed [OF v pre(1) k1] p by simp
  have records: "records = link_report (with_outcome ?run (outcome_of k1)) segs None"
    using prewarmed_pass [OF v pre(1), of ask] pre(2) link_report_cached [OF k1] by simp
  have known: "map Some outs = map (\<lambda>(w, t). map_of k1 w) ?qs" "map_of cache \<subseteq>\<^sub>m map_of k1"
    using cached_answers [OF k1] by simp_all
  have "outcome_of k1 w t = outcome_of final w t" if "(w, t) \<in> set ?qs" for w t
  proof -
    have "map_of k1 w \<in> set (map Some outs)" using that unfolding known(1) by force
    then obtain out where "map_of k1 w = Some out" by auto
    moreover from this have "map_of final w = Some out" using assms(4) eq by (metis domI map_le_def)
    ultimately show ?thesis by (simp add: outcome_of_def)
  qed
  then have "link_report (with_outcome ?run (outcome_of k1)) segs None
      = link_report (with_outcome ?run (outcome_of final)) segs None"
    by (intro link_report_cong) auto
  then show ?thesis using records known(2) eq Some by simp
qed

definition mention_updates :: "link_setup \<Rightarrow> mention list \<Rightarrow> pystr list" where
  "mention_updates su mentions = (if mentions = [] then []
     else (let bs = batches (nat (lk_batch_size su)) (sort_key mention_key mentions)
       in map batch_data_update bs @ map (\<lambda>b. mentions_provenance_insert_data b (lk_run_ts su)) bs))"

lemma write_mentions_Inr:
  assumes "write_mentions post ms ts n acc = (acc', Inr u)" "ts = lk_run_ts su" "n = lk_batch_size su"
  shows "acc' = acc @ mention_updates su ms"
proof (cases "ms = []")
  case True
  then show ?thesis using assms by (auto simp: write_mentions_def mention_updates_def split: if_splits)
next
  case False
  let ?us = "mention_updates su ms"
  have "send_all post ?us acc = (acc', Inr ())"
    using assms False by (auto simp: write_mentions_def mention_updates_def Let_def send_all_append
        split: if_splits prod.splits sum.splits)
  moreover obtain k where "k \<le> length ?us" "fst (send_all post ?us acc) = acc @ take k ?us"
      "snd (send_all post ?us acc) = Inr () \<longleftrightarrow> k = length ?us" using send_all_prefix by blast
  ultimately show ?thesis by simp
qed

abbreviation report_updates :: "link_setup \<Rightarrow> (pystr \<times> mention_record list) list \<Rightarrow> pystr list" where
  "report_updates su arts \<equiv> concat (map (\<lambda>(rep, records). mention_updates su (linked_mentions_of rep records)) arts)"

lemma link_document_Inr:
  assumes "link_document su rep segs st = (st', Inr u)"
  shows "\<exists>records. link_pass su rep segs (ls_cache st) = Inr (ls_cache st', records)
    \<and> ls_artifacts st' = ls_artifacts st @ [(rep, records)]
    \<and> ls_accepted st' = ls_accepted st @ mention_updates su (linked_mentions_of rep records)
    \<and> ls_lines st' = ls_lines st @ [link_summary rep records]"
  using assms write_mentions_Inr [of "lk_post su" _ "lk_run_ts su" "lk_batch_size su"]
  by (auto simp: link_document_def split: sum.splits prod.splits)

definition present :: "(pystr \<Rightarrow> segment list option) \<Rightarrow> pystr list \<Rightarrow> (pystr \<times> segment list) list" where
  "present segments_of reports = List.map_filter (\<lambda>r. map_option (Pair r) (segments_of r)) reports"

lemma link_documents_Inr:
  assumes "valid_setup su" "link_documents su segments_of reports st = (st', Inr u)"
    and "lk_client su = None \<Longrightarrow> ls_cache st = []"
  shows "map_of (ls_cache st) \<subseteq>\<^sub>m map_of (ls_cache st') \<and> (lk_client su = None \<longrightarrow> ls_cache st' = [])
    \<and> (let arts = map (\<lambda>(rep, segs). (rep, link_report (with_outcome (lk_run su) (outcome_of (ls_cache st'))) segs None))
           (present segments_of reports)
       in ls_artifacts st' = ls_artifacts st @ arts \<and> ls_accepted st' = ls_accepted st @ report_updates su arts
         \<and> ls_lines st' = ls_lines st @ map (\<lambda>(rep, records). link_summary rep records) arts)"
  using assms(2,3)
proof (induction reports arbitrary: st)
  case Nil
  then show ?case by (simp add: present_def List.map_filter_simps)
next
  case (Cons rep reports)
  show ?case
  proof (cases "segments_of rep")
    case None
    then show ?thesis using Cons.IH [of st] Cons.prems by (simp add: present_def List.map_filter_simps)
  next
    case (Some segs)
    obtain st1 where st1: "link_document su rep segs st = (st1, Inr ())"
        "link_documents su segments_of reports st1 = (st', Inr u)"
      using Cons.prems(1) Some by (auto split: prod.splits sum.splits)
    obtain records where rs: "link_pass su rep segs (ls_cache st) = Inr (ls_cache st1, records)"
        "ls_artifacts st1 = ls_artifacts st @ [(rep, records)]"
        "ls_accepted st1 = ls_accepted st @ mention_updates su (linked_mentions_of rep records)"
        "ls_lines st1 = ls_lines st @ [link_summary rep records]"
      using link_document_Inr [OF st1(1)] by blast
    have no_client: "ls_cache st1 = []" if "lk_client su = None"
      using rs(1) that Cons.prems(2) by (simp add: link_pass_def)
    note ih = Cons.IH [OF st1(2) no_client]
    have "records = link_report (with_outcome (lk_run su) (outcome_of (ls_cache st'))) segs None
        \<and> map_of (ls_cache st) \<subseteq>\<^sub>m map_of (ls_cache st1)"
      using link_pass_result [OF assms(1) rs(1) Cons.prems(2), of "ls_cache st'"] ih by blast
    then show ?thesis using ih rs(2-4) Some
      by (auto simp: present_def List.map_filter_simps Let_def intro: map_le_trans)
  qed
qed

section \<open>Properties\<close>

text \<open>C9. Pre-warming is transparent. Whatever the order in which the pool's workers finish, the link pass
  after it asks the model nothing (its result is the same for any model \<open>ask'\<close>, and the cache stays as it
  is), and its records and outcomes are those of linking the report with the cache alone, one question
  at a time. It fails only when there is something to resolve and no worker.\<close>

theorem prewarm_transparent:
  assumes "valid_schedule schedule"
  shows "case prewarm_report ask k schedule run segs cache of
      Inl e \<Rightarrow> e = ValueError \<and> k < 1
    | Inr cache' \<Rightarrow>
        link_report_st (cached_disambiguator ask') run segs cache'
          = (cache', snd (link_report_st (cached_disambiguator ask) run segs cache))
        \<and> map_of cache' = map_of (fst (link_report_st (cached_disambiguator ask) run segs cache))"
proof (cases "prewarm_report ask k schedule run segs cache")
  case (Inl e)
  then show ?thesis by (auto simp: prewarm_report_def Let_def split: if_splits)
next
  case (Inr cache')
  then show ?thesis using prewarmed_pass [OF assms Inr, of ask'] by simp
qed

definition reversed :: "nat \<Rightarrow> nat list" where "reversed n = rev [0..<n]"

lemma reversed_valid: "valid_schedule reversed"
  by (simp add: valid_schedule_def reversed_def)

lemma prewarm_transparent_witness:
  "\<forall>ask'. link_report_st (cached_disambiguator ask') sample_run [sample_segment]
      (case prewarm_report (\<lambda>_ _. novel) 24 reversed sample_run [sample_segment] [] of Inr cache \<Rightarrow> cache)
    = (case prewarm_report (\<lambda>_ _. novel) 24 reversed sample_run [sample_segment] [] of Inr cache \<Rightarrow> cache,
       snd (link_report_st (cached_disambiguator (\<lambda>_ _. novel)) sample_run [sample_segment] []))"
  using prewarm_transparent [OF reversed_valid, where ask = "\<lambda>_ _. novel" and k = 24 and run = sample_run
      and segs = "[sample_segment]" and cache = "[]"]
  by (auto split: sum.splits)

text \<open>C10. A run of the stage gives one outcome to a surface in all its reports. When it returns, the records
  written for each report whose segments exist are those the linker makes with the final cache as its
  disambiguator; the updates sent are the two activities and then, report by report, the batches of its
  links; one line is printed per report; and the cache saved extends the outcomes it was seeded with.
  A run that raises saves no cache.\<close>

theorem cmd_link_consistent:
  assumes "valid_setup su"
  shows "case cmd_link save su segments_of seeded reports acc of
      (st, saved, Inl e) \<Rightarrow> saved = None
    | (st, saved, Inr code) \<Rightarrow> code = 0 \<and>
        (let arts = map (\<lambda>(rep, segs). (rep, link_report (with_outcome (lk_run su) (outcome_of (ls_cache st))) segs None))
             (present segments_of reports)
         in ls_artifacts st = arts \<and> ls_lines st = map (\<lambda>(rep, records). link_summary rep records) arts
          \<and> ls_accepted st = acc @ [stable_activity_insert_data, activity_insert_data (lk_run_ts su)] @ report_updates su arts)
        \<and> (case lk_client su of
             None \<Rightarrow> saved = None \<and> ls_cache st = []
           | Some _ \<Rightarrow> saved = Some (save (ls_cache st))
               \<and> map_of (seed_cache (known_iris (lk_run su)) seeded) \<subseteq>\<^sub>m map_of (ls_cache st))"
proof -
  let ?acts = "[stable_activity_insert_data, activity_insert_data (lk_run_ts su)]"
  let ?cache = "if lk_client su = None then [] else seed_cache (known_iris (lk_run su)) seeded"
  let ?start = "\<lambda>a. \<lparr>ls_accepted = a, ls_cache = ?cache, ls_artifacts = [], ls_lines = []\<rparr>"
  obtain a r where acts: "send_all (lk_post su) ?acts acc = (a, r)" by (rule prod.exhaust)
  show ?thesis
  proof (cases r)
    case (Inl e)
    then show ?thesis unfolding cmd_link_def Let_def acts by simp
  next
    case (Inr u)
    have a: "a = acc @ ?acts"
      using send_all_prefix [of ?acts "lk_post su" acc] acts Inr by (auto simp del: send_all.simps)
    obtain st q where docs: "link_documents su segments_of reports (?start a) = (st, q)" by (rule prod.exhaust)
    have run: "cmd_link save su segments_of seeded reports acc = (case q of Inl e \<Rightarrow> (st, None, Inl e)
        | Inr _ \<Rightarrow> (st, if lk_client su = None then None else Some (save (ls_cache st)), Inr 0))"
      unfolding cmd_link_def Let_def acts Inr using docs by (simp split: sum.splits)
    show ?thesis
    proof (cases q)
      case (Inl e)
      then show ?thesis by (simp add: run)
    next
      case (Inr v)
      then show ?thesis
        using link_documents_Inr [OF assms, of segments_of reports "?start a" st v] docs
        by (cases "lk_client su") (simp_all add: run a Let_def)
    qed
  qed
qed

definition sample_setup :: link_setup where
  "sample_setup = \<lparr>lk_post = (\<lambda>_ _. Some \<lparr>is_error = False, response_text = []\<rparr>), lk_run = sample_run,
     lk_client = Some (\<lambda>_ _. novel), lk_concurrency = 24, lk_batch_size = 500,
     lk_schedule = (\<lambda>_. reversed), lk_run_ts = lit ''now''\<rparr>"

lemma cmd_link_consistent_witness:
  "case cmd_link (\<lambda>_. lit ''saved'') sample_setup (\<lambda>_. Some [sample_segment]) [] [lit ''ORNL-1''] [] of
      (st, saved, Inl e) \<Rightarrow> saved = None
    | (st, saved, Inr code) \<Rightarrow> code = 0 \<and> saved = Some (lit ''saved'') \<and> ls_artifacts st =
        [(lit ''ORNL-1'', link_report (with_outcome sample_run (outcome_of (ls_cache st))) [sample_segment] None)]"
proof -
  have "valid_setup sample_setup" by (simp add: valid_setup_def sample_setup_def reversed_valid)
  from cmd_link_consistent [OF this, where save = "\<lambda>_. lit ''saved''" and segments_of = "\<lambda>_. Some [sample_segment]"
      and seeded = "[]" and reports = "[lit ''ORNL-1'']" and acc = "[]"]
  show ?thesis by (auto simp: sample_setup_def present_def List.map_filter_simps Let_def split: prod.splits sum.splits)
qed

end
