(* ===== verification/Extract_Stage.thy ===== *)
theory Extract_Stage
  imports Relation_Report Edges
begin

text \<open>
  The \<open>extract\<close> stage of \<open>cli.py\<close> (\<open>_cmd_extract\<close>) and the relations stage of the safety genre
  (\<open>_run_safety_relations\<close>): what \<open>extract_report\<close> accepts is turned into inputs of the writers and
  written, report by report. The files of a report are an argument (\<open>None\<close> without segments), the traces
  written to \<open>relations.jsonl\<close> and the lines printed are results.
\<close>

section \<open>Inputs of the writers\<close>

definition measurement_input_of :: "validated_measurement \<Rightarrow> measurement_input" where
  "measurement_input_of m = \<lparr>mi_salt_iri = vm_salt_iri m, mi_property_iri = vm_property_iri m,
     mi_property_name = vm_property_name m, mi_unit_curie = vm_unit_curie m, mi_equation = vm_equation m,
     mi_uncertainty = vm_uncertainty m, mi_confidence = confidence m, mi_rationale = rationale m,
     mi_report = report m\<rparr>"

definition role_edge_of :: "validated_role \<Rightarrow> role_edge" where
  "role_edge_of r = \<lparr>e_report = report r, document_iri = lit ''msrd:'' @ report r, e_confidence = confidence r,
     e_rationale = rationale r, re_salt_iri = vr_salt_iri r, re_role_iri = vr_role_iri r\<rparr>"

definition reactor_edge_of :: "(pystr \<Rightarrow> pystr) \<Rightarrow> validated_reactor \<Rightarrow> reactor_edge" where
  "reactor_edge_of lower r = \<lparr>e_report = report r, document_iri = lit ''msrd:'' @ report r,
     e_confidence = confidence r, e_rationale = rationale r, xe_salt_iri = vx_salt_iri r,
     reactor_slug = lower (edges_slugify (vx_reactor_label r)), reactor_label = vx_reactor_label r,
     grounding_concept_iri = vx_reactor_concept_iri r\<rparr>"

definition served_by_edge_of :: "validated_served_by \<Rightarrow> served_by_edge" where
  "served_by_edge_of r = \<lparr>e_report = report r, document_iri = lit ''msrd:'' @ report r,
     e_confidence = confidence r, e_rationale = rationale r,
     se_safety_function_iri = vs_safety_function_iri r, se_property_iri = vs_property_iri r,
     se_standard_name = vs_standard_name r\<rparr>"

definition addresses_edge_of :: "validated_addresses \<Rightarrow> addresses_function_edge" where
  "addresses_edge_of r = \<lparr>e_report = report r, document_iri = lit ''msrd:'' @ report r,
     e_confidence = confidence r, e_rationale = rationale r,
     ae_requirement_iri = va_requirement_iri r, ae_safety_function_iri = va_safety_function_iri r,
     ae_standard_name = va_standard_name r, ae_threshold_value = va_threshold_value r,
     ae_threshold_comparator = va_threshold_comparator r, ae_threshold_unit = va_threshold_unit r\<rparr>"

section \<open>The stage\<close>

text \<open>What a run fixes.\<close>

record extract_setup =
  xt_post :: endpoint
  xt_lower :: "pystr \<Rightarrow> pystr"
  xt_loads :: json_loads
  xt_client :: "completer option"
  xt_schedule :: "pystr \<Rightarrow> nat list"
  xt_concurrency :: nat
  xt_units :: unit_mapper
  xt_threshold :: pyfloat
  xt_prefix :: pystr
  xt_run_ts :: pystr

type_synonym report_files = "pystr \<Rightarrow> (segment_row list \<times> mention_row list) option"

record extract_stage =
  xs_stores :: stores
  xs_traces :: "(pystr \<times> relation_record list) list"
  xs_lines :: "pystr list"

definition extracted :: "extract_setup \<Rightarrow> completer \<Rightarrow> known_sets \<Rightarrow> pystr \<Rightarrow>
    segment_row list \<times> mention_row list \<Rightarrow> report_extraction result" where
  "extracted su ask known rep files = extract_report (xt_lower su) (xt_loads su) ask (xt_schedule su rep)
     (xt_concurrency su) (xt_units su) known (xt_threshold su) (xt_prefix su) (fst files) (snd files)"

definition disposition_count :: "disposition \<Rightarrow> report_extraction \<Rightarrow> nat" where
  "disposition_count d x = length (filter (\<lambda>r. disposition r = d) (x_records x))"

definition extract_summary :: "pystr \<Rightarrow> report_extraction \<Rightarrow> pystr" where
  "extract_summary rep x = concat
     [lit ''extract: report='', rep, lit '' sentences='', show_nat (sentences_seen x),
      lit '' relations='', show_nat (length (x_records x)),
      lit '' measurements='', show_nat (length (x_measurements x)),
      lit '' roles='', show_nat (length (x_roles x)), lit '' reactors='', show_nat (length (x_reactors x)),
      lit '' rejected='', show_nat (disposition_count Rejected x),
      lit '' skipped='', show_nat (disposition_count Skipped x),
      lit '' malformed_calls='', show_nat (x_malformed_calls x)]"

fun write_measurements :: "endpoint \<Rightarrow> pystr \<Rightarrow> validated_measurement list \<Rightarrow> stores \<Rightarrow> stores \<times> unit result" where
  "write_measurements post run_ts [] st = (st, Inr ())"
| "write_measurements post run_ts (m # ms) st = (case write_measurement post run_ts (measurement_input_of m) st of
       (st, Inl e) \<Rightarrow> (st, Inl e)
     | (st, Inr _) \<Rightarrow> write_measurements post run_ts ms st)"

definition write_extraction :: "extract_setup \<Rightarrow> report_extraction \<Rightarrow> stores \<Rightarrow> stores \<times> unit result" where
  "write_extraction su x st = (case write_measurements (xt_post su) (xt_run_ts su) (x_measurements x) st of
       (st, Inl e) \<Rightarrow> (st, Inl e)
     | (st, Inr _) \<Rightarrow> (case write_edges (xt_post su) (xt_run_ts su) (map role_edge_of (x_roles x))
           (map (reactor_edge_of (xt_lower su)) (x_reactors x)) (updates st) of
         (acc, r) \<Rightarrow> (st\<lparr>updates := acc\<rparr>, r)))"

definition extract_document :: "extract_setup \<Rightarrow> completer \<Rightarrow> known_sets \<Rightarrow> pystr \<Rightarrow>
    segment_row list \<times> mention_row list \<Rightarrow> extract_stage \<Rightarrow> extract_stage \<times> unit result" where
  "extract_document su ask known rep files st = (case extracted su ask known rep files of
       Inl e \<Rightarrow> (st, Inl e)
     | Inr x \<Rightarrow> (let st = st\<lparr>xs_traces := xs_traces st @ [(rep, x_records x)]\<rparr>
         in case write_extraction su x (xs_stores st) of
              (stores, Inl e) \<Rightarrow> (st\<lparr>xs_stores := stores\<rparr>, Inl e)
            | (stores, Inr _) \<Rightarrow>
                (st\<lparr>xs_stores := stores, xs_lines := xs_lines st @ [extract_summary rep x]\<rparr>, Inr ())))"

fun over_reports :: "(pystr \<Rightarrow> 'f \<Rightarrow> 's \<Rightarrow> 's \<times> unit result) \<Rightarrow> (pystr \<Rightarrow> 'f option) \<Rightarrow> pystr list \<Rightarrow> 's \<Rightarrow>
    's \<times> unit result" where
  "over_reports f files_of [] st = (st, Inr ())"
| "over_reports f files_of (rep # reps) st = (case files_of rep of
       None \<Rightarrow> over_reports f files_of reps st
     | Some files \<Rightarrow> (case f rep files st of
         (st, Inl e) \<Rightarrow> (st, Inl e)
       | (st, Inr _) \<Rightarrow> over_reports f files_of reps st))"

text \<open>The closed sets of a run over reports: the safety sets keep their default, empty.\<close>

definition report_known_sets :: "pystr set \<Rightarrow> pystr set \<Rightarrow> pystr set \<Rightarrow> pystr set \<Rightarrow> known_sets" where
  "report_known_sets salts ps ros xs = \<lparr>molten_salts = salts, physical_properties = ps,
     salt_roles = ros, reactor_concepts = xs, safety_functions = {}, requirements = {}\<rparr>"

definition run_stage :: "extract_setup \<Rightarrow> (extract_stage \<Rightarrow> extract_stage \<times> unit result) \<Rightarrow> extract_stage \<Rightarrow>
    extract_stage \<times> int result" where
  "run_stage su loop st = (case send_all (xt_post su)
       [stable_activity_insert_data, activity_insert_data (xt_run_ts su)] (updates (xs_stores st)) of
       (acc, Inl e) \<Rightarrow> (st\<lparr>xs_stores := (xs_stores st)\<lparr>updates := acc\<rparr>\<rparr>, Inl e)
     | (acc, Inr _) \<Rightarrow> (case loop (st\<lparr>xs_stores := (xs_stores st)\<lparr>updates := acc\<rparr>\<rparr>) of
         (st, Inl e) \<Rightarrow> (st, Inl e)
       | (st, Inr _) \<Rightarrow> (st, Inr 0)))"

definition cmd_extract :: "extract_setup \<Rightarrow> known_sets \<Rightarrow> report_files \<Rightarrow> pystr list \<Rightarrow> stores \<Rightarrow>
    extract_stage \<times> int result" where
  "cmd_extract su known files_of reports stores =
     (let st = \<lparr>xs_stores = stores, xs_traces = [], xs_lines = []\<rparr>
      in case xt_client su of
           None \<Rightarrow> (st, Inr 0)
         | Some ask \<Rightarrow> run_stage su (over_reports (extract_document su ask known) files_of reports) st)"

section \<open>The safety stage\<close>

definition safety_summary :: "pystr \<Rightarrow> report_extraction \<Rightarrow> pystr" where
  "safety_summary source x = concat
     [lit ''safety relations: source='', source, lit '' sentences='', show_nat (sentences_seen x),
      lit '' servedByProperty='', show_nat (length (x_served_by_property x)),
      lit '' addressesFunction='', show_nat (length (x_addresses_function x)),
      lit '' rejected='', show_nat (disposition_count Rejected x),
      lit '' skipped='', show_nat (disposition_count Skipped x),
      lit '' malformed_calls='', show_nat (x_malformed_calls x)]"

definition safety_document :: "extract_setup \<Rightarrow> completer \<Rightarrow> known_sets \<Rightarrow> pystr \<Rightarrow>
    segment_row list \<times> mention_row list \<Rightarrow> extract_stage \<Rightarrow> extract_stage \<times> unit result" where
  "safety_document su ask known source files st = (case extracted su ask known source files of
       Inl e \<Rightarrow> (st, Inl e)
     | Inr x \<Rightarrow> (let st = st\<lparr>xs_traces := xs_traces st @ [(source, x_records x)]\<rparr>
         in case write_safety_edges (xt_post su) (xt_run_ts su) (map served_by_edge_of (x_served_by_property x))
               (map addresses_edge_of (x_addresses_function x)) (updates (xs_stores st)) of
              (acc, Inl e) \<Rightarrow> (st\<lparr>xs_stores := (xs_stores st)\<lparr>updates := acc\<rparr>\<rparr>, Inl e)
            | (acc, Inr _) \<Rightarrow> (st\<lparr>xs_stores := (xs_stores st)\<lparr>updates := acc\<rparr>,
                xs_lines := xs_lines st @ [safety_summary source x]\<rparr>, Inr ())))"

definition run_safety_relations :: "extract_setup \<Rightarrow> known_sets \<Rightarrow> report_files \<Rightarrow> pystr list \<Rightarrow> pystr list \<Rightarrow>
    extract_stage \<times> int result" where
  "run_safety_relations su known files_of sources accepted =
     (let st = \<lparr>xs_stores = \<lparr>updates = accepted, rows = Map.empty\<rparr>, xs_traces = [], xs_lines = []\<rparr>
      in case xt_client su of
           None \<Rightarrow> (st, Inr 0)
         | Some ask \<Rightarrow> run_stage su (over_reports (safety_document su ask known) files_of sources) st)"

section \<open>What a report writes\<close>

definition measurement_updates :: "pystr \<Rightarrow> validated_measurement list \<Rightarrow> pystr list" where
  "measurement_updates ts ms = concat (map (\<lambda>m. [data_update (measurement_input_of m),
     provenance_update ts (measurement_input_of m)]) ms)"

definition edge_updates :: "extract_setup \<Rightarrow> report_extraction \<Rightarrow> pystr list" where
  "edge_updates su x = (let ros = map role_edge_of (x_roles x); xs = map (reactor_edge_of (xt_lower su)) (x_reactors x)
     in if ros = [] \<and> xs = [] then [] else
       [edge_insert_data (join (nl @ nl) (map role_edge_triples (sort_key role_edge_key ros) @
          map reactor_edge_triples (sort_key reactor_edge_key xs))),
        edge_provenance_insert_data (asserted_individual_iris ros xs) (xt_run_ts su)])"

definition extraction_updates :: "extract_setup \<Rightarrow> report_extraction \<Rightarrow> pystr list" where
  "extraction_updates su x = measurement_updates (xt_run_ts su) (x_measurements x) @ edge_updates su x"

definition extraction_rows :: "report_extraction \<Rightarrow> table \<Rightarrow> table" where
  "extraction_rows x = fold (\<lambda>m. upsert_row (to_row (measurement_input_of m))) (x_measurements x)"

lemma send_all_Inr: "send_all post us acc = (acc', Inr u) \<Longrightarrow> acc' = acc @ us"
proof -
  assume s: "send_all post us acc = (acc', Inr u)"
  obtain k where "k \<le> length us" "fst (send_all post us acc) = acc @ take k us"
      "snd (send_all post us acc) = Inr () \<longleftrightarrow> k = length us" using send_all_prefix by blast
  then show ?thesis using s by simp
qed

lemma write_measurements_Inr:
  "write_measurements post ts ms st = (st', Inr u) \<Longrightarrow> updates st' = updates st @ measurement_updates ts ms
     \<and> rows st' = fold (\<lambda>m. upsert_row (to_row (measurement_input_of m))) ms (rows st)"
proof (induction ms arbitrary: st)
  case (Cons m ms)
  obtain st1 iri where st1: "write_measurement post ts (measurement_input_of m) st = (st1, Inr iri)"
      "write_measurements post ts ms st1 = (st', Inr u)"
    using Cons.prems by (auto split: prod.splits sum.splits)
  then have "st1 = st\<lparr>updates := updates st @ [data_update (measurement_input_of m), provenance_update ts (measurement_input_of m)],
      rows := upsert_row (to_row (measurement_input_of m)) (rows st)\<rparr>"
    using write_measurement_cases [of post ts "measurement_input_of m" st] by auto
  then show ?case using Cons.IH [OF st1(2)] by (simp add: measurement_updates_def)
qed (simp add: measurement_updates_def)

lemma write_extraction_Inr:
  assumes "write_extraction su x st = (st', Inr u)"
  shows "updates st' = updates st @ extraction_updates su x \<and> rows st' = extraction_rows x (rows st)"
proof -
  let ?ros = "map role_edge_of (x_roles x)" and ?xs = "map (reactor_edge_of (xt_lower su)) (x_reactors x)"
  obtain st1 where st1: "write_measurements (xt_post su) (xt_run_ts su) (x_measurements x) st = (st1, Inr ())"
      "write_edges (xt_post su) (xt_run_ts su) ?ros ?xs (updates st1) = (updates st', Inr u)" "rows st' = rows st1"
    using assms by (auto simp: write_extraction_def split: prod.splits sum.splits)
  have "write_edges (xt_post su) (xt_run_ts su) ?ros ?xs (updates st1) = send_all (xt_post su) (edge_updates su x) (updates st1)"
    by (simp add: write_edges_def edge_updates_def Let_def del: send_all.simps) simp
  then have "updates st' = updates st1 @ edge_updates su x" using st1(2) send_all_Inr by metis
  then show ?thesis using write_measurements_Inr [OF st1(1)] st1(3)
    by (simp add: extraction_updates_def extraction_rows_def)
qed

definition readable :: "report_files \<Rightarrow> pystr list \<Rightarrow> (pystr \<times> segment_row list \<times> mention_row list) list" where
  "readable files_of reports = List.map_filter (\<lambda>r. map_option (Pair r) (files_of r)) reports"

definition extractions :: "extract_setup \<Rightarrow> completer \<Rightarrow> known_sets \<Rightarrow> report_files \<Rightarrow> pystr list \<Rightarrow>
    report_extraction list result" where
  "extractions su ask known files_of reports =
     map_result (\<lambda>(rep, files). extracted su ask known rep files) (readable files_of reports)"

text \<open>Both stages go over their reports in the same way: a step that returns has extracted the report,
  traced it, sent its updates and changed the table, and reported a line.\<close>

locale report_stage =
  fixes step :: "pystr \<Rightarrow> segment_row list \<times> mention_row list \<Rightarrow> extract_stage \<Rightarrow> extract_stage \<times> unit result"
    and extraction :: "pystr \<Rightarrow> segment_row list \<times> mention_row list \<Rightarrow> report_extraction result"
    and sends :: "report_extraction \<Rightarrow> pystr list" and tables :: "report_extraction \<Rightarrow> table \<Rightarrow> table"
    and says :: "pystr \<Rightarrow> report_extraction \<Rightarrow> pystr"
  assumes step_Inr: "step rep files st = (st', Inr u) \<Longrightarrow> \<exists>x. extraction rep files = Inr x
    \<and> st' = \<lparr>xs_stores = \<lparr>updates = updates (xs_stores st) @ sends x, rows = tables x (rows (xs_stores st))\<rparr>,
        xs_traces = xs_traces st @ [(rep, x_records x)], xs_lines = xs_lines st @ [says rep x]\<rparr>"
begin

lemma over_reports_Inr:
  assumes "over_reports step files_of reports st = (st', Inr u)"
  shows "\<exists>xs. map_result (\<lambda>(rep, files). extraction rep files) (readable files_of reports) = Inr xs
    \<and> st' = \<lparr>xs_stores = \<lparr>updates = updates (xs_stores st) @ concat (map sends xs), rows = fold tables xs (rows (xs_stores st))\<rparr>,
        xs_traces = xs_traces st @ zip (map fst (readable files_of reports)) (map x_records xs),
        xs_lines = xs_lines st @ map2 says (map fst (readable files_of reports)) xs\<rparr>"
  using assms
proof (induction reports arbitrary: st)
  case (Cons rep reports)
  show ?case
  proof (cases "files_of rep")
    case None
    then show ?thesis using Cons by (simp add: readable_def List.map_filter_simps)
  next
    case (Some files)
    obtain st1 where st1: "step rep files st = (st1, Inr ())" "over_reports step files_of reports st1 = (st', Inr u)"
      using Cons.prems Some by (auto split: prod.splits sum.splits)
    obtain x where x: "extraction rep files = Inr x"
        "st1 = \<lparr>xs_stores = \<lparr>updates = updates (xs_stores st) @ sends x, rows = tables x (rows (xs_stores st))\<rparr>,
           xs_traces = xs_traces st @ [(rep, x_records x)], xs_lines = xs_lines st @ [says rep x]\<rparr>"
      using step_Inr [OF st1(1)] by blast
    obtain xs where "map_result (\<lambda>(rep, files). extraction rep files) (readable files_of reports) = Inr xs"
        "st' = \<lparr>xs_stores = \<lparr>updates = updates (xs_stores st1) @ concat (map sends xs),
             rows = fold tables xs (rows (xs_stores st1))\<rparr>,
           xs_traces = xs_traces st1 @ zip (map fst (readable files_of reports)) (map x_records xs),
           xs_lines = xs_lines st1 @ map2 says (map fst (readable files_of reports)) xs\<rparr>"
      using Cons.IH [OF st1(2)] by blast
    then show ?thesis using x Some by (intro exI [of _ "x # xs"]) (simp add: readable_def List.map_filter_simps)
  qed
qed (simp add: readable_def)

text \<open>The same for the whole stage, with the two activities ahead.\<close>

lemma run_stage_Inr:
  assumes "run_stage su (over_reports step files_of reports) st = (st', Inr code)"
  shows "code = 0 \<and> (\<exists>xs. map_result (\<lambda>(rep, files). extraction rep files) (readable files_of reports) = Inr xs
    \<and> st' = \<lparr>xs_stores = \<lparr>updates = updates (xs_stores st) @
          [stable_activity_insert_data, activity_insert_data (xt_run_ts su)] @ concat (map sends xs),
          rows = fold tables xs (rows (xs_stores st))\<rparr>,
        xs_traces = xs_traces st @ zip (map fst (readable files_of reports)) (map x_records xs),
        xs_lines = xs_lines st @ map2 says (map fst (readable files_of reports)) xs\<rparr>)"
proof -
  let ?acts = "[stable_activity_insert_data, activity_insert_data (xt_run_ts su)]"
  obtain a where a: "send_all (xt_post su) ?acts (updates (xs_stores st)) = (a, Inr ())" "code = 0"
      "over_reports step files_of reports (st\<lparr>xs_stores := (xs_stores st)\<lparr>updates := a\<rparr>\<rparr>) = (st', Inr ())"
    using assms by (auto simp: run_stage_def simp del: send_all.simps split: prod.splits sum.splits)
  then show ?thesis using over_reports_Inr [OF a(3)] send_all_Inr [OF a(1)] by auto
qed

end

interpretation chemistry: report_stage "extract_document su ask known" "extracted su ask known"
    "extraction_updates su" extraction_rows extract_summary for su ask known
proof unfold_locales
  fix rep files st st' u
  assume "extract_document su ask known rep files st = (st', Inr u)"
  then obtain x stores where x: "extracted su ask known rep files = Inr x"
      "write_extraction su x (xs_stores st) = (stores, Inr ())"
      "st' = \<lparr>xs_stores = stores, xs_traces = xs_traces st @ [(rep, x_records x)],
         xs_lines = xs_lines st @ [extract_summary rep x]\<rparr>"
    by (auto simp: extract_document_def Let_def split: prod.splits sum.splits)
  then show "\<exists>x. extracted su ask known rep files = Inr x
    \<and> st' = \<lparr>xs_stores = \<lparr>updates = updates (xs_stores st) @ extraction_updates su x,
          rows = extraction_rows x (rows (xs_stores st))\<rparr>,
        xs_traces = xs_traces st @ [(rep, x_records x)], xs_lines = xs_lines st @ [extract_summary rep x]\<rparr>"
    using write_extraction_Inr [OF x(2)] by (intro exI [of _ x]) simp
qed

definition safety_updates :: "extract_setup \<Rightarrow> report_extraction \<Rightarrow> pystr list" where
  "safety_updates su x = (let ses = map served_by_edge_of (x_served_by_property x);
       aes = map addresses_edge_of (x_addresses_function x)
     in if ses = [] \<and> aes = [] then [] else
       [safety_data_update ses aes, edge_provenance_insert_data (asserted_safety_individual_iris ses aes) (xt_run_ts su)])"

lemma write_safety_edges_sends:
  "write_safety_edges (xt_post su) (xt_run_ts su) (map served_by_edge_of (x_served_by_property x))
     (map addresses_edge_of (x_addresses_function x)) acc = send_all (xt_post su) (safety_updates su x) acc"
  by (simp add: write_safety_edges_def safety_updates_def safety_data_update_def Let_def del: send_all.simps) simp

interpretation safety: report_stage "safety_document su ask known" "extracted su ask known"
    "safety_updates su" "\<lambda>x. id" safety_summary for su ask known
proof unfold_locales
  fix rep files st st' u
  assume "safety_document su ask known rep files st = (st', Inr u)"
  then obtain x a where x: "extracted su ask known rep files = Inr x"
      "send_all (xt_post su) (safety_updates su x) (updates (xs_stores st)) = (a, Inr ())"
      "st' = \<lparr>xs_stores = (xs_stores st)\<lparr>updates := a\<rparr>, xs_traces = xs_traces st @ [(rep, x_records x)],
         xs_lines = xs_lines st @ [safety_summary rep x]\<rparr>"
    by (auto simp: safety_document_def write_safety_edges_sends Let_def simp del: send_all.simps split: prod.splits sum.splits)
  then show "\<exists>x. extracted su ask known rep files = Inr x
    \<and> st' = \<lparr>xs_stores = \<lparr>updates = updates (xs_stores st) @ safety_updates su x, rows = id (rows (xs_stores st))\<rparr>,
        xs_traces = xs_traces st @ [(rep, x_records x)], xs_lines = xs_lines st @ [safety_summary rep x]\<rparr>"
    using send_all_Inr [OF x(2)] by (intro exI [of _ x]) simp
qed

text \<open>Without safety individuals no safety edge is admissible.\<close>

lemma no_safety_payloads:
  assumes "extracted su ask (report_known_sets salts ps ros xs) rep files = Inr x"
  shows "x_served_by_property x = [] \<and> x_addresses_function x = []
    \<and> mset (filter (\<lambda>r. disposition r = Written) (x_records x)) =
        mset (map trace (map PMeasurement (x_measurements x) @ map PRole (x_roles x) @ map PReactor (x_reactors x)))"
proof -
  let ?known = "report_known_sets salts ps ros xs"
  note facts = extract_report_facts [OF assms [unfolded extracted_def]]
  have "\<not> admissible c al ?known th s (PServedBy r)" "\<not> admissible c al ?known th s (PAddresses a)" for c al th s r a
    by (simp_all add: admissible_def report_known_sets_def)
  then have "PServedBy r \<notin> set (payloads x)" "PAddresses a \<notin> set (payloads x)" for r a
    using facts by (auto simp: list_all_iff list_ex_iff)
  then have "x_served_by_property x = []" "x_addresses_function x = []"
    by (auto simp: payloads_def image_iff) (metis list.set_intros(1) neq_Nil_conv)+
  then show ?thesis using facts by (simp add: payloads_def)
qed

lemma send_all_accepting: "send_all accepting us acc = (acc @ us, Inr ())"
  by (induction us arbitrary: acc) (simp_all add: update_def update_outcome_def accepting_def)

lemma write_extraction_accepting:
  assumes "xt_post su = accepting"
  shows "\<exists>st'. write_extraction su x st = (st', Inr ())"
proof -
  have one: "\<exists>st' iri. write_measurement accepting ts m st = (st', Inr iri)" for ts m st
    by (simp add: write_measurement_def Let_def upsert_one update_def update_outcome_def accepting_def)
  have "\<exists>st'. write_measurements accepting ts ms st = (st', Inr ())" for ts ms st
  proof (induction ms arbitrary: st)
    case (Cons m ms)
    then show ?case using one [of ts "measurement_input_of m" st] by auto
  qed simp
  then obtain st1 where "write_measurements accepting (xt_run_ts su) (x_measurements x) st = (st1, Inr ())" by blast
  moreover have "snd (write_edges accepting ts es rs acc) = Inr ()" for ts es rs acc
    by (simp add: write_edges_def send_all_accepting Let_def del: send_all.simps)
  ultimately show ?thesis using assms by (simp add: write_extraction_def split: prod.splits) (metis snd_conv)
qed

lemma over_reports_accepting:
  assumes "xt_post su = accepting" "extractions su ask known files_of reports = Inr xs"
  shows "\<exists>st'. over_reports (extract_document su ask known) files_of reports st = (st', Inr ())"
  using assms(2)
proof (induction reports arbitrary: st xs)
  case (Cons rep reports)
  show ?case
  proof (cases "files_of rep")
    case None
    then show ?thesis using Cons by (simp add: extractions_def readable_def List.map_filter_simps)
  next
    case (Some files)
    then obtain x xs' where x: "extracted su ask known rep files = Inr x" "extractions su ask known files_of reports = Inr xs'"
      using Cons.prems by (auto simp: extractions_def readable_def List.map_filter_simps bind_result_eq_Inr)
    obtain stores where "write_extraction su x (xs_stores st) = (stores, Inr ())"
      using write_extraction_accepting [OF assms(1)] by blast
    then show ?thesis using Cons.IH [OF x(2)] Some x(1) by (simp add: extract_document_def Let_def)
  qed
qed simp

section \<open>Properties\<close>

text \<open>C8. A run of the stage does what its traces say. When it returns, every report with segments has been
  extracted, its trace written, and its updates sent in order: two per measurement, then the edges; the
  table holds the rows of the measurements; and per report the records marked written are exactly those of
  the measurements, roles and reactors that went to these writers, no safety relation among them.\<close>

theorem cmd_extract_writes_trace:
  assumes "cmd_extract su (report_known_sets salts ps ros rcs) files_of reports stores = (st, Inr code)"
    and "xt_client su = Some ask"
  shows "code = 0 \<and> (\<exists>xs. extractions su ask (report_known_sets salts ps ros rcs) files_of reports = Inr xs
    \<and> updates (xs_stores st) = updates stores @ [stable_activity_insert_data, activity_insert_data (xt_run_ts su)] @
        concat (map (extraction_updates su) xs)
    \<and> rows (xs_stores st) = fold extraction_rows xs (rows stores)
    \<and> xs_traces st = zip (map fst (readable files_of reports)) (map x_records xs)
    \<and> list_all (\<lambda>x. x_served_by_property x = [] \<and> x_addresses_function x = []
        \<and> mset (filter (\<lambda>r. disposition r = Written) (x_records x)) =
          mset (map trace (map PMeasurement (x_measurements x) @ map PRole (x_roles x) @ map PReactor (x_reactors x)))) xs)"
proof -
  let ?known = "report_known_sets salts ps ros rcs"
  have "run_stage su (over_reports (extract_document su ask ?known) files_of reports)
      \<lparr>xs_stores = stores, xs_traces = [], xs_lines = []\<rparr> = (st, Inr code)"
    using assms by (simp add: cmd_extract_def)
  note run = chemistry.run_stage_Inr [OF this]
  then obtain xs where xs: "extractions su ask ?known files_of reports = Inr xs"
      "st = \<lparr>xs_stores = \<lparr>updates = updates stores @
          [stable_activity_insert_data, activity_insert_data (xt_run_ts su)] @ concat (map (extraction_updates su) xs),
          rows = fold extraction_rows xs (rows stores)\<rparr>,
        xs_traces = zip (map fst (readable files_of reports)) (map x_records xs),
        xs_lines = map2 extract_summary (map fst (readable files_of reports)) xs\<rparr>"
    unfolding extractions_def by auto
  have "\<exists>rep files. extracted su ask ?known rep files = Inr x" if "x \<in> set xs" for x
    using xs(1) that unfolding extractions_def map_result_Inr
    by (auto simp: list_all2_conv_all_nth in_set_conv_nth split_beta) (metis prod.collapse)
  then have "list_all (\<lambda>x. x_served_by_property x = [] \<and> x_addresses_function x = []
        \<and> mset (filter (\<lambda>r. disposition r = Written) (x_records x)) =
          mset (map trace (map PMeasurement (x_measurements x) @ map PRole (x_roles x) @ map PReactor (x_reactors x)))) xs"
    using no_safety_payloads unfolding list_all_iff by blast
  then show ?thesis using run xs by auto
qed

definition sample_extract :: extract_setup where
  "sample_extract = \<lparr>xt_post = accepting, xt_lower = (\<lambda>s. s), xt_loads = sample_loads, xt_client = Some (\<lambda>p u. Some []),
     xt_schedule = (\<lambda>_. []), xt_concurrency = 1, xt_units = qudt_units, xt_threshold = Fin (3 / 4), xt_prefix = [],
     xt_run_ts = lit ''now''\<rparr>"

abbreviation sample_files :: report_files where
  "sample_files \<equiv> \<lambda>rep. if rep = lit ''ORNL-1'' then Some ([sample_segment], [sample_mention]) else None"

lemma dedupe_one: "dedupe_by_key key [m] [i] = ([m], [])" "dedupe_by_key key' [] [] = ([], [])"
  by (simp_all add: dedupe_by_key_def Let_def group_positions_def best_position_def py_min_singleton nths_in_def)

lemma sample_extracted:
  "\<exists>x p. extracted sample_extract (\<lambda>p u. Some []) (report_known_sets {lit ''m#FLiBe''} {lit ''m#density''} {} {})
      (lit ''ORNL-1'') ([sample_segment], [sample_mention]) = Inr x
     \<and> payloads x = [p] \<and> x_records x = [trace p]"
proof -
  have known: "report_known_sets {lit ''m#FLiBe''} {lit ''m#density''} {} {} = sample_known"
    by (simp add: report_known_sets_def sample_known_def)
  obtain p r where v: "validate_relation (resolve qudt_units) sample_known (Fin (3 / 4))
      sample_sentence sample_json = Inr (Some p, r)"
    using sample_accepted by blast
  let ?x = "finish (\<lambda>s. s) 1 (collect (Some p, r) nothing_collected)"
  have "extracted sample_extract (\<lambda>p u. Some []) sample_known (lit ''ORNL-1'') ([sample_segment], [sample_mention]) = Inr ?x"
    using v by (simp add: extracted_def sample_extract_def extract_report_def sample_selected call_all_def sample_reply Let_def
        del: collect.simps)
  moreover have "r = trace p" using qudt.gate_ok [OF v] by simp
  moreover have "payloads ?x = [p] \<and> x_records ?x = [r]"
    by (cases p) (simp_all add: finish_def nothing_collected_def Let_def dedupe_one payloads_def)
  ultimately show ?thesis unfolding known by blast
qed


lemma known_sample: "report_known_sets {lit ''m#FLiBe''} {lit ''m#density''} {} {} = sample_known"
  by (simp add: report_known_sets_def sample_known_def)

lemma cmd_extract_writes_trace_witness:
  "\<exists>st xs. cmd_extract sample_extract (report_known_sets {lit ''m#FLiBe''} {lit ''m#density''} {} {}) sample_files
       [lit ''ORNL-9'', lit ''ORNL-1''] \<lparr>updates = [], rows = Map.empty\<rparr> = (st, Inr 0)
     \<and> extractions sample_extract (\<lambda>p u. Some []) sample_known sample_files [lit ''ORNL-9'', lit ''ORNL-1''] = Inr xs
     \<and> length xs = 1 \<and> length (concat (map x_records xs)) = 1
     \<and> xs_traces st = zip [lit ''ORNL-1''] (map x_records xs)"
proof -
  let ?reps = "[lit ''ORNL-9'', lit ''ORNL-1'']" and ?known = "report_known_sets {lit ''m#FLiBe''} {lit ''m#density''} {} {}"
  have read: "readable sample_files ?reps = [(lit ''ORNL-1'', [sample_segment], [sample_mention])]"
    by (simp add: readable_def List.map_filter_simps lit_def)
  obtain x p where x: "extracted sample_extract (\<lambda>p u. Some []) ?known
      (lit ''ORNL-1'') ([sample_segment], [sample_mention]) = Inr x" "x_records x = [trace p]"
    using sample_extracted by blast
  have xs: "extractions sample_extract (\<lambda>p u. Some []) ?known sample_files ?reps = Inr [x]"
    unfolding extractions_def read by (simp add: x(1))
  have post: "xt_post sample_extract = accepting" "xt_client sample_extract = Some (\<lambda>p u. Some [])"
    by (simp_all add: sample_extract_def)
  obtain st where st: "cmd_extract sample_extract ?known sample_files ?reps \<lparr>updates = [], rows = Map.empty\<rparr> = (st, Inr 0)"
  proof -
    let ?st = "\<lparr>xs_stores = \<lparr>updates = [stable_activity_insert_data, activity_insert_data (xt_run_ts sample_extract)],
        rows = Map.empty\<rparr>, xs_traces = [], xs_lines = []\<rparr>"
    obtain st where "over_reports (extract_document sample_extract (\<lambda>p u. Some []) ?known) sample_files ?reps ?st = (st, Inr ())"
      using over_reports_accepting [OF post(1) xs] by blast
    then have "cmd_extract sample_extract ?known sample_files ?reps \<lparr>updates = [], rows = Map.empty\<rparr> = (st, Inr 0)"
      unfolding cmd_extract_def run_stage_def post Let_def
      by (simp add: send_all_accepting del: send_all.simps over_reports.simps)
    then show ?thesis using that by blast
  qed
  show ?thesis
    using cmd_extract_writes_trace [OF st post(2)] st xs x(2) read unfolding known_sample by auto
qed


text \<open>C36. The safety relations stage sends the two activities and then the safety edges of every source with
  segments, in order, and traces every record of every extraction. It writes nothing else: the measurements,
  roles and reactor designs an extraction accepts reach neither the endpoint nor the table, although their
  records are traced as written.\<close>

theorem run_safety_relations_writes:
  assumes "run_safety_relations su known files_of sources accepted = (st, Inr code)" "xt_client su = Some ask"
  shows "\<exists>xs. extractions su ask known files_of sources = Inr xs
    \<and> updates (xs_stores st) = accepted @ [stable_activity_insert_data, activity_insert_data (xt_run_ts su)] @
        concat (map (safety_updates su) xs)
    \<and> rows (xs_stores st) = Map.empty
    \<and> xs_traces st = zip (map fst (readable files_of sources)) (map x_records xs)"
proof -
  have "run_stage su (over_reports (safety_document su ask known) files_of sources)
      \<lparr>xs_stores = \<lparr>updates = accepted, rows = Map.empty\<rparr>, xs_traces = [], xs_lines = []\<rparr> = (st, Inr code)"
    using assms by (simp add: run_safety_relations_def)
  note run = safety.run_stage_Inr [OF this]
  have "fold (\<lambda>x. id) xs t = t" for xs :: "report_extraction list" and t :: table by (induction xs) auto
  then show ?thesis using run unfolding extractions_def by auto
qed


lemma run_safety_relations_writes_witness:
  "\<exists>st p. run_safety_relations sample_extract sample_known sample_files [lit ''ORNL-1''] [] = (st, Inr 0)
     \<and> xs_traces st = [(lit ''ORNL-1'', [trace p])] \<and> disposition (trace p) = Written
     \<and> updates (xs_stores st) = [stable_activity_insert_data, activity_insert_data (lit ''now'')]
     \<and> rows (xs_stores st) = Map.empty"
proof -
  let ?ask = "\<lambda>p u :: pystr. Some [] :: pystr option"
  have read: "readable sample_files [lit ''ORNL-1''] = [(lit ''ORNL-1'', [sample_segment], [sample_mention])]"
    by (simp add: readable_def List.map_filter_simps)
  obtain x p where x: "extracted sample_extract ?ask sample_known (lit ''ORNL-1'') ([sample_segment], [sample_mention]) = Inr x"
      "x_records x = [trace p]"
    using sample_extracted unfolding known_sample by blast
  have xs: "extractions sample_extract ?ask sample_known sample_files [lit ''ORNL-1''] = Inr [x]"
    unfolding extractions_def read by (simp add: x(1))
  have empty: "x_served_by_property x = []" "x_addresses_function x = []"
    using no_safety_payloads x(1) unfolding known_sample [symmetric] by blast+
  then have none: "safety_updates sample_extract x = []" by (simp add: safety_updates_def)
  have set: "xt_post sample_extract = accepting" "xt_client sample_extract = Some ?ask" "xt_run_ts sample_extract = lit ''now''"
    by (simp_all add: sample_extract_def)
  obtain st where st: "run_safety_relations sample_extract sample_known sample_files [lit ''ORNL-1''] [] = (st, Inr 0)"
    unfolding run_safety_relations_def run_stage_def set Let_def
    by (simp add: send_all_accepting safety_document_def write_safety_edges_def x(1) empty set(1) Let_def
        del: send_all.simps)
  have "disposition (trace p) = Written" by (cases p) (simp_all add: make_record_def)
  then show ?thesis
    using run_safety_relations_writes [OF st set(2)] st xs x(2) read none unfolding set(3) by auto
qed

end
