(* ===== verification/Artifacts.thy ===== *)
theory Artifacts
  imports Link_Stage Extract_Stage Segmenter
begin

text \<open>
  The files a report passes through: \<open>segments.jsonl\<close>, \<open>mentions.jsonl\<close> and \<open>relations.jsonl\<close>, one
  JSON object per line, as \<open>json.dumps\<close> (with \<open>ensure_ascii=False\<close>) writes it, and how the next stage
  reads them: text mode, line by line, stripped, empty lines skipped. \<open>json.loads\<close> is an argument;
  relied on is only that it reads back what \<open>json.dumps\<close> wrote.
\<close>

section \<open>Writing JSON\<close>

definition hex_digit :: "nat \<Rightarrow> nat" where
  "hex_digit n = (if n < 10 then 48 + n else 87 + n)"

definition json_char :: "nat \<Rightarrow> pystr" where
  "json_char c =
     (if c = 34 then [92, 34] else if c = 92 then [92, 92]
      else if c = 10 then [92, 110] else if c = 13 then [92, 114] else if c = 9 then [92, 116]
      else if c = 8 then [92, 98] else if c = 12 then [92, 102]
      else if c < 32 then [92, 117, 48, 48, hex_digit (c div 16), hex_digit (c mod 16)] else [c])"

definition json_text :: "pystr \<Rightarrow> pystr" where
  "json_text s = 34 # concat (map json_char s) @ [34]"

fun json_float :: "pyfloat \<Rightarrow> pystr" where
  "json_float PosInf = lit ''Infinity''"
| "json_float NegInf = lit ''-Infinity''"
| "json_float NaN = lit ''NaN''"
| "json_float f = float_repr f"

fun json_dumps :: "json \<Rightarrow> pystr" where
  "json_dumps JNull = lit ''null''"
| "json_dumps (JBool b) = (if b then lit ''true'' else lit ''false'')"
| "json_dumps (JInt i) = show_int i"
| "json_dumps (JFloat f) = json_float f"
| "json_dumps (JStr s) = json_text s"
| "json_dumps (JArr vs) = 91 # join (lit '', '') (map json_dumps vs) @ [93]"
| "json_dumps (JObj kvs) = 123 # join (lit '', '') (map (\<lambda>(k, v). json_text k @ lit '': '' @ json_dumps v) kvs) @ [125]"

definition jsonl :: "json list \<Rightarrow> pystr" where
  "jsonl vs = concat (map (\<lambda>v. json_dumps v @ nl) vs)"

section \<open>Reading lines\<close>

text \<open>Text mode translates \<open>\r\n\<close> and \<open>\r\<close> to \<open>\n\<close>.\<close>

fun universal_newlines :: "pystr \<Rightarrow> pystr" where
  "universal_newlines [] = []"
| "universal_newlines [c] = (if c = 13 then [10] else [c])"
| "universal_newlines (c # d # s) = (if c = 13 \<and> d = 10 then 10 # universal_newlines s
     else (if c = 13 then 10 else c) # universal_newlines (d # s))"

definition record_lines :: "pystr \<Rightarrow> pystr list" where
  "record_lines content = filter (\<lambda>l. l \<noteq> []) (map strip (split_on 10 (universal_newlines content)))"

definition read_jsonl :: "json_loads \<Rightarrow> pystr \<Rightarrow> json list result" where
  "read_jsonl loads content = map_result (\<lambda>l. case loads l of None \<Rightarrow> Inl ValueError | Some v \<Rightarrow> Inr v)
     (record_lines content)"

section \<open>Lines are records\<close>

text \<open>Nothing \<open>json.dumps\<close> writes ends a line: the two characters that text mode reads as an end of line
  are escaped inside strings, the other ones of \<open>str.splitlines\<close> are kept but do not matter here.\<close>

abbreviation one_row :: "pystr \<Rightarrow> bool" where
  "one_row s \<equiv> 10 \<notin> set s \<and> 13 \<notin> set s"

lemma one_row_json_text [simp]: "one_row (json_text s)"
  by (induction s) (auto simp: json_text_def json_char_def hex_digit_def lit_def)

lemma one_row_show_nat [simp]: "10 \<notin> set (show_nat n)" "13 \<notin> set (show_nat n)"
  using set_show_nat [of n] by auto

lemma one_row_show_int [simp]: "one_row (show_int i)"
  by (simp add: show_int_def)

lemma one_row_repr_pos: "one_row (repr_pos r)"
proof -
  obtain m e where me: "shortest_digits r = (m, e)" by fastforce
  obtain ds where strip: "strip_zeros (show_nat m) = ds" by blast
  have "set ds \<subseteq> set (show_nat m)" using set_strip_zeros strip by blast
  then have ds: "10 \<notin> set ds" "13 \<notin> set ds" using one_row_show_nat by blast+
  then have "10 \<notin> set (take k ds)" "13 \<notin> set (take k ds)" "10 \<notin> set (drop k ds)" "13 \<notin> set (drop k ds)" for k
    by (meson in_set_takeD in_set_dropD)+
  then show ?thesis using ds unfolding repr_pos_def me prod.case Let_def strip
    by (cases ds) (auto simp: lit_def pad_left_def)
qed

lemma one_row_json_float: "one_row (json_float f)"
  by (cases f rule: json_float.cases) (auto simp: lit_def one_row_repr_pos)

lemma one_row_json_dumps: "one_row (json_dumps v)"
proof (induction v rule: json_dumps.induct)
  case (6 vs)
  then show ?case using set_join [of "lit '', ''" "map json_dumps vs"] by (auto simp: lit_def)
next
  case (7 kvs)
  let ?m = "\<lambda>(k, v). json_text k @ lit '': '' @ json_dumps v"
  have "one_row (?m kv)" if "kv \<in> set kvs" for kv
    using 7 that by (cases kv) (auto simp: lit_def)
  then show ?case using set_join [of "lit '', ''" "map ?m kvs"] by (auto simp: lit_def)
qed (auto simp: lit_def one_row_json_float)


lemma universal_newlines_rows: "13 \<notin> set s \<Longrightarrow> universal_newlines s = s"
  by (induction s rule: universal_newlines.induct) auto

lemma split_on_row: "10 \<notin> set r \<Longrightarrow> split_on 10 (r @ 10 # s) = r # split_on 10 s"
  by (induction r) auto

lemma split_on_rows: "list_all (\<lambda>r. 10 \<notin> set r) rs \<Longrightarrow> split_on 10 (concat (map (\<lambda>r. r @ [10]) rs)) = rs @ [[]]"
  by (induction rs) (auto simp: split_on_row)

lemma strip_object: "strip (123 # s @ [125]) = 123 # s @ [125]"
  by (simp add: strip_def strip_by_def is_space_def)

definition is_object :: "json \<Rightarrow> bool" where
  "is_object v \<longleftrightarrow> (case v of JObj _ \<Rightarrow> True | _ \<Rightarrow> False)"

lemma record_lines_jsonl:
  assumes "list_all is_object vs"
  shows "record_lines (jsonl vs) = map json_dumps vs"
proof -
  have "13 \<notin> set (jsonl vs)" using one_row_json_dumps by (auto simp: jsonl_def nl_def)
  moreover have "split_on 10 (jsonl vs) = map json_dumps vs @ [[]]"
    using split_on_rows [of "map json_dumps vs"] one_row_json_dumps
    by (simp add: jsonl_def nl_def list_all_iff comp_def)
  moreover have "strip (json_dumps v) = json_dumps v \<and> json_dumps v \<noteq> []" if "v \<in> set vs" for v
    using assms that by (cases v) (auto simp: is_object_def list_all_iff strip_object)
  then have "map strip (map json_dumps vs) = map json_dumps vs" "list_all (\<lambda>l. l \<noteq> []) (map json_dumps vs)"
    by (simp_all add: list_all_iff)
  moreover have "strip [] = []" by (simp add: strip_def strip_by_def)
  ultimately show ?thesis by (simp add: record_lines_def universal_newlines_rows list_all_iff del: map_map)
qed

text \<open>What \<open>json\<close> promises, for the rows of a file.\<close>

definition reads_back :: "json_loads \<Rightarrow> json list \<Rightarrow> bool" where
  "reads_back loads vs \<longleftrightarrow> list_all (\<lambda>v. loads (json_dumps v) = Some v) vs"

lemma read_jsonl_jsonl:
  assumes "list_all is_object vs" "reads_back loads vs"
  shows "read_jsonl loads (jsonl vs) = Inr vs"
  using assms(2) unfolding read_jsonl_def record_lines_jsonl [OF assms(1)] reads_back_def
  by (induction vs) auto

section \<open>Rows\<close>

definition required :: "(pystr \<times> json) list \<Rightarrow> string \<Rightarrow> json result" where
  "required d k = (case map_of d (lit k) of None \<Rightarrow> Inl KeyError | Some v \<Rightarrow> Inr v)"

text \<open>Typed reading of a field. The code reads untyped; a value of another type than the writers give it,
  which the code would carry along, is refused here.\<close>

definition text_field :: "(pystr \<times> json) list \<Rightarrow> string \<Rightarrow> pystr result" where
  "text_field d k = bind_result (required d k) (\<lambda>v. case v of JStr s \<Rightarrow> Inr s | _ \<Rightarrow> Inl ValueError)"

definition int_field :: "(pystr \<times> json) list \<Rightarrow> string \<Rightarrow> int result" where
  "int_field d k = bind_result (required d k) (\<lambda>v. case v of JInt i \<Rightarrow> Inr i | _ \<Rightarrow> Inl ValueError)"

text \<open>A target without a kind; only the prompt shows it, as \<open>None\<close>.\<close>

definition shown_field :: "(pystr \<times> json) list \<Rightarrow> string \<Rightarrow> pystr result" where
  "shown_field d k = bind_result (required d k) (\<lambda>v. case v of JStr s \<Rightarrow> Inr s | JNull \<Rightarrow> Inr (lit ''None'')
     | _ \<Rightarrow> Inl ValueError)"

fun json_option :: "('a \<Rightarrow> json) \<Rightarrow> 'a option \<Rightarrow> json" where
  "json_option f None = JNull"
| "json_option f (Some x) = f x"

definition segment_json :: "text_segment \<Rightarrow> json" where
  "segment_json sg = JObj [(lit ''report'', JStr (ts_report sg)), (lit ''index'', JInt (int (ts_index sg))),
     (lit ''text'', JStr (ts_text sg)), (lit ''char_start'', JInt (int (ts_char_start sg))),
     (lit ''char_end'', JInt (int (ts_char_end sg)))]"

definition segments_jsonl :: "text_segment list \<Rightarrow> pystr" where
  "segments_jsonl sgs = jsonl (map segment_json sgs)"

definition mention_json :: "mention_record \<Rightarrow> json" where
  "mention_json r = JObj [(lit ''report'', JStr (mn_report r)), (lit ''seg_index'', JInt (mn_seg_index r)),
     (lit ''char_start'', JInt (mn_start r)), (lit ''char_end'', JInt (mn_end r)),
     (lit ''surface_form'', JStr (mn_surface r)), (lit ''status'', JStr (mn_status r)),
     (lit ''target_iri'', json_option JStr (mn_target_iri r)),
     (lit ''target_kind'', json_option JStr (mn_target_kind r)),
     (lit ''layer'', JInt (int (mn_layer r))), (lit ''score'', json_option JFloat (mn_score r))]"

definition mentions_jsonl :: "mention_record list \<Rightarrow> pystr" where
  "mentions_jsonl rs = jsonl (map mention_json rs)"

fun disposition_text :: "disposition \<Rightarrow> pystr" where
  "disposition_text Written = lit ''written''"
| "disposition_text Rejected = lit ''rejected''"
| "disposition_text Skipped = lit ''skipped''"

definition relation_json :: "relation_record \<Rightarrow> json" where
  "relation_json r = JObj [(lit ''report'', JStr (report r)), (lit ''seg_index'', JInt (seg_index r)),
     (lit ''char_start'', JInt (char_start r)), (lit ''char_end'', JInt (char_end r)),
     (lit ''relation_kind'', JStr (relation_kind r)), (lit ''salt_iri'', json_option JStr (rr_salt_iri r)),
     (lit ''property_iri'', json_option JStr (rr_property_iri r)), (lit ''role_iri'', json_option JStr (rr_role_iri r)),
     (lit ''reactor_iri'', json_option JStr (rr_reactor_iri r)), (lit ''unit_iri'', json_option JStr (rr_unit_iri r)),
     (lit ''confidence'', JFloat (rr_confidence r)), (lit ''rationale'', JStr (rr_rationale r)),
     (lit ''disposition'', JStr (disposition_text (disposition r))), (lit ''reason'', JStr (reason r)),
     (lit ''safety_function_iri'', json_option JStr (rr_safety_function_iri r)),
     (lit ''requirement_iri'', json_option JStr (rr_requirement_iri r))]"

definition relations_jsonl :: "relation_record list \<Rightarrow> pystr" where
  "relations_jsonl rs = jsonl (map relation_json rs)"


section \<open>Reading rows\<close>

text \<open>\<open>linker._read_segments\<close> builds a segment from each line as it goes; \<open>relations._read_jsonl\<close> first
  parses all lines.\<close>

definition segment_of_json :: "json \<Rightarrow> segment result" where
  "segment_of_json v = (case v of
       JObj d \<Rightarrow> bind_result (text_field d ''report'') (\<lambda>rep. bind_result (int_field d ''index'') (\<lambda>i.
         bind_result (text_field d ''text'') (\<lambda>t. bind_result (int_field d ''char_start'') (\<lambda>a.
         bind_result (int_field d ''char_end'') (\<lambda>b.
           Inr \<lparr>sg_report = rep, sg_index = i, sg_text = t, sg_char_start = a\<rparr>)))))
     | _ \<Rightarrow> Inl ValueError)"

definition read_segments :: "json_loads \<Rightarrow> pystr \<Rightarrow> segment list result" where
  "read_segments loads content = map_result (\<lambda>l. case loads l of
       None \<Rightarrow> Inl ValueError | Some v \<Rightarrow> segment_of_json v) (record_lines content)"

definition segment_row_of_json :: "json \<Rightarrow> segment_row result" where
  "segment_row_of_json v = (case v of
       JObj d \<Rightarrow> bind_result (int_field d ''index'') (\<lambda>i. bind_result (text_field d ''report'') (\<lambda>rep.
         bind_result (int_field d ''char_start'') (\<lambda>a. bind_result (int_field d ''char_end'') (\<lambda>b.
         bind_result (text_field d ''text'') (\<lambda>t.
           Inr \<lparr>sr_report = rep, sr_index = i, sr_char_start = a, sr_char_end = b, sr_text = t\<rparr>)))))
     | _ \<Rightarrow> Inl ValueError)"

text \<open>Of a mention that is not linked nothing else is read.\<close>

definition mention_row_of_json :: "json \<Rightarrow> mention_row result" where
  "mention_row_of_json v = (case v of
       JObj d \<Rightarrow> (case get_field d ''status'' of
           JStr s \<Rightarrow> if s \<noteq> lit ''linked''
             then Inr \<lparr>status = s, mr_seg_index = 0, mr_surface_form = [], mr_target_iri = [], mr_target_kind = []\<rparr>
             else bind_result (int_field d ''seg_index'') (\<lambda>i. bind_result (text_field d ''surface_form'') (\<lambda>w.
               bind_result (text_field d ''target_iri'') (\<lambda>t. bind_result (shown_field d ''target_kind'') (\<lambda>k.
                 Inr \<lparr>status = s, mr_seg_index = i, mr_surface_form = w, mr_target_iri = t, mr_target_kind = k\<rparr>))))
         | _ \<Rightarrow> Inr \<lparr>status = [], mr_seg_index = 0, mr_surface_form = [], mr_target_iri = [], mr_target_kind = []\<rparr>)
     | _ \<Rightarrow> Inl ValueError)"

definition select_from_files :: "json_loads \<Rightarrow> pystr \<Rightarrow> pystr \<Rightarrow> selected_sentence list result" where
  "select_from_files loads segments_file mentions_file =
     bind_result (read_jsonl loads segments_file) (\<lambda>segs. bind_result (read_jsonl loads mentions_file) (\<lambda>ments.
     bind_result (map_result mention_row_of_json ments) (\<lambda>mrows.
     bind_result (map_result segment_row_of_json segs) (\<lambda>srows. Inr (select_sentences srows mrows)))))"

section \<open>From one stage to the next\<close>

definition segment_for_linking :: "text_segment \<Rightarrow> segment" where
  "segment_for_linking sg = \<lparr>sg_report = ts_report sg, sg_index = int (ts_index sg), sg_text = ts_text sg,
     sg_char_start = int (ts_char_start sg)\<rparr>"

definition segment_row_of :: "text_segment \<Rightarrow> segment_row" where
  "segment_row_of sg = \<lparr>sr_report = ts_report sg, sr_index = int (ts_index sg), sr_char_start = int (ts_char_start sg),
     sr_char_end = int (ts_char_end sg), sr_text = ts_text sg\<rparr>"

definition linked_mention_of :: "mention_record \<Rightarrow> linked_mention" where
  "linked_mention_of r = \<lparr>surface_form = mn_surface r, target_iri = the (mn_target_iri r),
     target_kind = (case mn_target_kind r of Some k \<Rightarrow> k | None \<Rightarrow> lit ''None'')\<rparr>"

definition is_linked :: "mention_record \<Rightarrow> bool" where
  "is_linked r \<longleftrightarrow> mn_status r = lit ''linked''"

lemma segments_are_objects [simp]: "list_all is_object (map segment_json sgs)" "list_all is_object (map mention_json rs)"
  by (simp_all add: list_all_iff is_object_def segment_json_def mention_json_def)

lemmas field_defs = text_field_def int_field_def shown_field_def required_def get_field_def lit_def

lemma segment_of_segment_json [simp]: "segment_of_json (segment_json sg) = Inr (segment_for_linking sg)"
  by (simp add: segment_of_json_def segment_json_def segment_for_linking_def field_defs)

lemma segment_row_of_segment_json [simp]: "segment_row_of_json (segment_json sg) = Inr (segment_row_of sg)"
  by (simp add: segment_row_of_json_def segment_json_def segment_row_of_def field_defs)

lemma map_result_inverse:
  assumes "\<And>x. x \<in> set xs \<Longrightarrow> f (g x) = Inr (h x)"
  shows "map_result f (map g xs) = Inr (map h xs)"
  using assms by (induction xs) auto

lemma read_segments_written:
  assumes "reads_back loads (map segment_json sgs)"
  shows "read_segments loads (segments_jsonl sgs) = Inr (map segment_for_linking sgs)"
  unfolding read_segments_def segments_jsonl_def record_lines_jsonl [OF segments_are_objects(1)] map_map
  using assms by (intro map_result_inverse) (simp add: reads_back_def list_all_iff)

text \<open>A linked record has a target.\<close>

definition well_linked :: "mention_record \<Rightarrow> bool" where
  "well_linked r \<longleftrightarrow> (is_linked r \<longrightarrow> mn_target_iri r \<noteq> None)"

lemma mention_row_of_mention_json:
  assumes "well_linked r"
  shows "\<exists>m. mention_row_of_json (mention_json r) = Inr m \<and> (status m = lit ''linked'' \<longleftrightarrow> is_linked r)
    \<and> (is_linked r \<longrightarrow> mr_seg_index m = mn_seg_index r \<and> to_linked m = linked_mention_of r)"
proof (cases "is_linked r")
  case True
  then obtain t where "mn_target_iri r = Some t" using assms by (auto simp: well_linked_def)
  then show ?thesis using True
    by (cases "mn_target_kind r")
      (simp_all add: is_linked_def mention_row_of_json_def mention_json_def field_defs linked_mention_of_def to_linked_def)
next
  case False
  then show ?thesis by (simp add: is_linked_def mention_row_of_json_def mention_json_def field_defs)
qed

lemma mention_rows_written:
  assumes "list_all well_linked rs"
  obtains ms where "map_result mention_row_of_json (map mention_json rs) = Inr ms"
    "\<And>i. map to_linked (filter (\<lambda>m. status m = lit ''linked'' \<and> mr_seg_index m = i) ms) =
      map linked_mention_of (filter (\<lambda>r. is_linked r \<and> mn_seg_index r = i) rs)"
proof -
  have "\<exists>ms. map_result mention_row_of_json (map mention_json rs) = Inr ms
    \<and> (\<forall>i. map to_linked (filter (\<lambda>m. status m = lit ''linked'' \<and> mr_seg_index m = i) ms) =
      map linked_mention_of (filter (\<lambda>r. is_linked r \<and> mn_seg_index r = i) rs))"
    using assms
  proof (induction rs)
    case (Cons r rs)
    obtain m where m: "mention_row_of_json (mention_json r) = Inr m" "status m = lit ''linked'' \<longleftrightarrow> is_linked r"
        "is_linked r \<longrightarrow> mr_seg_index m = mn_seg_index r \<and> to_linked m = linked_mention_of r"
      using mention_row_of_mention_json [of r] Cons.prems by auto
    obtain ms where ms: "map_result mention_row_of_json (map mention_json rs) = Inr ms"
        "\<forall>i. map to_linked (filter (\<lambda>m. status m = lit ''linked'' \<and> mr_seg_index m = i) ms) =
          map linked_mention_of (filter (\<lambda>r. is_linked r \<and> mn_seg_index r = i) rs)"
      using Cons by auto
    show ?case using m ms by (intro exI [of _ "m # ms"]) auto
  qed simp
  then show ?thesis using that by blast
qed


text \<open>The sentence of a segment, with the mentions linked in it.\<close>

definition handed_over :: "text_segment \<Rightarrow> mention_record list \<Rightarrow> selected_sentence" where
  "handed_over sg rs = \<lparr>report = ts_report sg, seg_index = int (ts_index sg), char_start = int (ts_char_start sg),
     char_end = int (ts_char_end sg), sentence_text = ts_text sg,
     linked_mentions = map linked_mention_of (filter is_linked rs)\<rparr>"

lemma link_segment_well_linked:
  assumes "r \<in> set (link_segment run seg kc)"
  shows "well_linked r \<and> mn_seg_index r = sg_index seg"
proof -
  obtain known where "r \<in> set (resolve_segment run seg known)"
    using assms by (auto simp: link_segment_resolve)
  then show ?thesis
  proof (cases rule: resolve_segment_source)
    case (fallback s e w x)
    then show ?thesis
      by (cases "flash_target run seg w")
        (auto simp: fallback_record_def make_mention_def well_linked_def is_linked_def split: option.splits)
  qed (simp_all add: make_mention_def well_linked_def)
qed

lemma records_of_segment:
  assumes "distinct (map sg_index segs)" "seg \<in> set segs"
  shows "filter (\<lambda>r. P r \<and> mn_seg_index r = sg_index seg) (concat (map (\<lambda>s. link_segment run s kc) segs)) =
    filter P (link_segment run seg kc)"
  using assms
proof (induction segs)
  case (Cons s segs)
  have index: "mn_seg_index r = sg_index t" if "r \<in> set (link_segment run t kc)" for r t
    using link_segment_well_linked [OF that] by simp
  show ?case
  proof (cases "s = seg")
    case True
    have "mn_seg_index r \<noteq> sg_index seg" if "t \<in> set segs" "r \<in> set (link_segment run t kc)" for t r
    proof -
      have "sg_index t \<noteq> sg_index seg" using Cons.prems True that(1) by (auto simp: image_iff)
      then show ?thesis using index [OF that(2)] by simp
    qed
    then have "filter (\<lambda>r. P r \<and> mn_seg_index r = sg_index seg) (concat (map (\<lambda>s. link_segment run s kc) segs)) = []"
      by (auto simp: filter_empty_conv)
    moreover have "filter (\<lambda>r. P r \<and> mn_seg_index r = sg_index seg) (link_segment run s kc) = filter P (link_segment run seg kc)"
      using True index by (intro filter_cong) auto
    ultimately show ?thesis by simp
  next
    case False
    then have "seg \<in> set segs" "sg_index s \<noteq> sg_index seg" using Cons.prems by auto
    then have "filter (\<lambda>r. P r \<and> mn_seg_index r = sg_index seg) (link_segment run s kc) = []"
      using index by (auto simp: filter_empty_conv)
    then show ?thesis using Cons \<open>seg \<in> set segs\<close> by simp
  qed
qed simp

lemma segment_text_indices: "map ts_index (segment_text splitter t rep) = [0..<length (segment_text splitter t rep)]"
  by (auto simp: segment_text_def split_beta intro!: nth_equalityI)

lemma link_report_segments: "link_report run segs None = concat (map (\<lambda>s. link_segment run s None) segs)"
  unfolding link_report_def Let_def
  by (rule arg_cong [where f = concat], rule map_cong [OF refl]) (simp add: link_segment_def)

lemma link_report_well_linked: "list_all well_linked (link_report run segs None)"
  unfolding link_report_segments using link_segment_well_linked by (auto simp: list_all_iff)

text \<open>The sentences of the segments, as the extraction stage puts them together and as they should be.\<close>

definition handed_sentences :: "link_run \<Rightarrow> text_segment list \<Rightarrow> selected_sentence list" where
  "handed_sentences run sgs = map (\<lambda>sg. handed_over sg (link_segment run (segment_for_linking sg) None)) sgs"

lemma sentences_of_links:
  assumes "distinct (map ts_index sgs)"
    and "\<And>i. map to_linked (filter (\<lambda>m. status m = lit ''linked'' \<and> mr_seg_index m = i) ms) =
      map linked_mention_of (filter (\<lambda>r. is_linked r \<and> mn_seg_index r = i) (link_report run (map segment_for_linking sgs) None))"
  shows "map (sentence_of ms) (map segment_row_of sgs) = handed_sentences run sgs"
proof -
  have index: "sg_index (segment_for_linking sg) = int (ts_index sg)" for sg by (simp add: segment_for_linking_def)
  have "distinct (map int (map ts_index sgs))" using assms(1) by (subst distinct_map) (simp add: inj_on_def)
  then have dist: "distinct (map sg_index (map segment_for_linking sgs))" by (simp add: comp_def index)
  have "sentence_of ms (segment_row_of sg) = handed_over sg (link_segment run (segment_for_linking sg) None)"
    if "sg \<in> set sgs" for sg
  proof -
    have "filter (\<lambda>r. is_linked r \<and> mn_seg_index r = int (ts_index sg)) (link_report run (map segment_for_linking sgs) None) =
        filter is_linked (link_segment run (segment_for_linking sg) None)"
      using records_of_segment [OF dist, of "segment_for_linking sg" is_linked run None] that
      unfolding link_report_segments index by simp
    then show ?thesis by (simp add: sentence_of_def handed_over_def segment_row_of_def assms(2))
  qed
  then show ?thesis by (simp add: handed_sentences_def)
qed

lemma handed_sentences_sorted: "sorted (map seg_index (handed_sentences run (segment_text splitter t rep)))"
proof -
  have "map seg_index (handed_sentences run (segment_text splitter t rep)) = map int (map ts_index (segment_text splitter t rep))"
    by (simp add: handed_sentences_def handed_over_def)
  then show ?thesis unfolding segment_text_indices by (simp add: sorted_map mono_def sorted_iff_nth_mono)
qed

text \<open>C11. What one stage writes, the next one reads. The linker reads back the segments the normalize stage
  wrote; and from the two files the extraction stage selects exactly the segments in which the linker
  linked something, in order, each with the text, the offsets and the linked mentions of that segment.
  Relied on: \<open>json.loads\<close> reads back what \<open>json.dumps\<close> wrote for the rows of these files.\<close>

theorem stages_handover:
  fixes splitter t rep run
  defines "sgs \<equiv> segment_text splitter t rep"
  defines "found \<equiv> link_report run (map segment_for_linking sgs) None"
  assumes "reads_back loads (map segment_json sgs)" "reads_back loads (map mention_json found)"
  shows "read_segments loads (segments_jsonl sgs) = Inr (map segment_for_linking sgs)
    \<and> select_from_files loads (segments_jsonl sgs) (mentions_jsonl found) =
        Inr (filter (\<lambda>s. linked_mentions s \<noteq> []) (handed_sentences run sgs))"
proof
  show "read_segments loads (segments_jsonl sgs) = Inr (map segment_for_linking sgs)"
    by (rule read_segments_written) (rule assms)
  obtain ms where ms: "map_result mention_row_of_json (map mention_json found) = Inr ms"
      "\<And>i. map to_linked (filter (\<lambda>m. status m = lit ''linked'' \<and> mr_seg_index m = i) ms) =
        map linked_mention_of (filter (\<lambda>r. is_linked r \<and> mn_seg_index r = i) found)"
    using mention_rows_written [OF link_report_well_linked] unfolding found_def by blast
  let ?sel = "filter (\<lambda>s. linked_mentions s \<noteq> []) (handed_sentences run sgs)"
  have rows: "map (sentence_of ms) (map segment_row_of sgs) = handed_sentences run sgs"
    by (rule sentences_of_links) (simp_all add: sgs_def segment_text_indices ms(2) [unfolded found_def sgs_def])
  have "sort_key seg_index ?sel = ?sel"
    unfolding sgs_def by (intro sort_key_id_if_sorted sorted_filter handed_sentences_sorted)
  then have select: "select_sentences (map segment_row_of sgs) ms = ?sel"
    using select_sentences_spec [of "map segment_row_of sgs" ms] unfolding rows by simp
  have "map_result segment_row_of_json (map segment_json sgs) = Inr (map segment_row_of sgs)"
    by (rule map_result_inverse) simp
  then show "select_from_files loads (segments_jsonl sgs) (mentions_jsonl found) = Inr ?sel"
    unfolding select_from_files_def segments_jsonl_def mentions_jsonl_def
      read_jsonl_jsonl [OF segments_are_objects(1) assms(3)] read_jsonl_jsonl [OF segments_are_objects(2) assms(4)]
    by (simp add: ms(1) select)
qed

definition handover_run :: link_run where
  "handover_run = sample_run\<lparr>matcher := (matcher sample_run)\<lparr>nlp := (\<lambda>t.
     [\<lparr>ent_start_char = 0, ent_end_char = 2, ent_text = lit ''is'', ent_id = lit ''voc:flibe''\<rparr>])\<rparr>\<rparr>"

lemma is_segments: "segment_text (\<lambda>p. [p]) (lit ''is'') (lit ''R'') =
    [\<lparr>ts_report = lit ''R'', ts_index = 0, ts_text = lit ''is'', ts_char_start = 0, ts_char_end = 2\<rparr>]"
  by (simp add: segment_text_def segment_spans_def slice_def lit_def newline_run_def strip_def strip_by_def is_space_def Let_def find_from_def
    starts_with_def upt_rec)



lemma no_token:
  assumes "\<not> is_digit c" "\<not> is_upper c"
  shows "ways FORMULA_TOKEN (c # cs, g) = []"
proof -
  have "ways (UpTo n (Chr is_digit)) (c # cs, g) = [(c # cs, g)]" for n
    using assms(1) by (induction n) auto
  moreover have "ways ELEMENT_UNITS (c # cs, g) = []" using assms(2) by (simp add: ELEMENT_UNITS_def ELEMENT_UNIT_def)
  ultimately show ?thesis by (simp add: FORMULA_TOKEN_def)
qed

lemma is_no_start: "\<not> is_digit 105" "\<not> is_upper 105" "\<not> is_digit 115" "\<not> is_upper 115"
  by (simp_all add: is_digit_def digit_value_def is_ascii_digit_def digit_zeros_def is_upper_def)

lemma no_candidate: "\<not> is_digit c \<Longrightarrow> \<not> is_upper c \<Longrightarrow> match_at_start FORMULA_CANDIDATE_RE (c # cs) = None"
  by (simp add: match_at_start_def FORMULA_CANDIDATE_RE_def no_token)

lemma is_candidates: "find_formula_candidates (lit ''is'') = []"
proof -
  have "lit ''is'' = [105, 115]" by (simp add: lit_def)
  then show ?thesis unfolding find_formula_candidates_def
    by (simp only: finditer.simps no_candidate [OF is_no_start(1,2)] no_candidate [OF is_no_start(3,4)] option.case)
qed

lemma is_linked_once: "link_report handover_run (map segment_for_linking (segment_text (\<lambda>p. [p]) (lit ''is'') (lit ''R''))) None =
    [\<lparr>mn_report = lit ''R'', mn_seg_index = 0, mn_start = 0, mn_end = 2, mn_surface = lit ''is'', mn_status = lit ''linked'',
       mn_target_iri = Some (lit ''voc:flibe''), mn_target_kind = Some (lit ''concept''), mn_layer = 2, mn_score = None\<rparr>]"
proof -
  have c: "segment_candidates (segment_for_linking \<lparr>ts_report = lit ''R'', ts_index = 0, ts_text = lit ''is'',
      ts_char_start = 0, ts_char_end = 2\<rparr>) ks iris = []" for ks iris
    by (simp add: segment_candidates_def segment_for_linking_def is_candidates)
  show ?thesis unfolding is_segments
    by (simp add: link_report_def link_segment_resolve c resolve_segment_def Let_def salt_spans_def)
     (simp add: handover_run_def sample_run_def seeded_match_def List.map_filter_simps to_match_def Let_def
       build_target_index_def exact_step_def overlaps_a_salt_span_def is_free_def make_mention_def LAYER_EXACT_def
       segment_for_linking_def)
qed


lemma stages_handover_witness:
  "\<exists>loads. select_from_files loads (segments_jsonl (segment_text (\<lambda>p. [p]) (lit ''is'') (lit ''R'')))
      (mentions_jsonl (link_report handover_run (map segment_for_linking (segment_text (\<lambda>p. [p]) (lit ''is'') (lit ''R''))) None))
    = Inr [\<lparr>report = lit ''R'', seg_index = 0, char_start = 0, char_end = 2, sentence_text = lit ''is'',
        linked_mentions = [\<lparr>surface_form = lit ''is'', target_iri = lit ''voc:flibe'', target_kind = lit ''concept''\<rparr>]\<rparr>]"
proof -
  let ?sg = "\<lparr>ts_report = lit ''R'', ts_index = 0, ts_text = lit ''is'', ts_char_start = 0, ts_char_end = 2\<rparr>"
  let ?r = "\<lparr>mn_report = lit ''R'', mn_seg_index = 0, mn_start = 0, mn_end = 2, mn_surface = lit ''is'', mn_status = lit ''linked'',
       mn_target_iri = Some (lit ''voc:flibe''), mn_target_kind = Some (lit ''concept''), mn_layer = 2, mn_score = None\<rparr>"
  let ?loads = "\<lambda>s. if s = json_dumps (segment_json ?sg) then Some (segment_json ?sg)
      else if s = json_dumps (mention_json ?r) then Some (mention_json ?r) else None"
  have "json_dumps (mention_json ?r) \<noteq> json_dumps (segment_json ?sg)"
    by (simp add: mention_json_def segment_json_def json_text_def json_char_def lit_def)
  then have rb: "reads_back ?loads (map segment_json [?sg])" "reads_back ?loads (map mention_json [?r])"
    by (simp_all add: reads_back_def)
  then have rb': "reads_back ?loads (map segment_json (segment_text (\<lambda>p. [p]) (lit ''is'') (lit ''R'')))"
      "reads_back ?loads (map mention_json (link_report handover_run (map segment_for_linking
        (segment_text (\<lambda>p. [p]) (lit ''is'') (lit ''R''))) None))"
    unfolding is_linked_once by (simp_all only: is_segments)
  note sgs = is_segments and found = is_linked_once
  have once: "link_segment handover_run (segment_for_linking ?sg) None = [?r]"
    using found unfolding sgs by (simp add: link_report_def link_segment_def)
  have "select_from_files ?loads (segments_jsonl (segment_text (\<lambda>p. [p]) (lit ''is'') (lit ''R'')))
      (mentions_jsonl (link_report handover_run (map segment_for_linking (segment_text (\<lambda>p. [p]) (lit ''is'') (lit ''R''))) None))
    = Inr (filter (\<lambda>s. linked_mentions s \<noteq> []) (handed_sentences handover_run
        (segment_text (\<lambda>p. [p]) (lit ''is'') (lit ''R''))))"
    by (rule conjunct2 [OF stages_handover [OF rb']])
  also have "\<dots> = Inr [handed_over ?sg [?r]]" unfolding sgs by (simp add: once handed_sentences_def handed_over_def is_linked_def)
  also have "handed_over ?sg [?r] = \<lparr>report = lit ''R'', seg_index = 0, char_start = 0, char_end = 2, sentence_text = lit ''is'',
        linked_mentions = [\<lparr>surface_form = lit ''is'', target_iri = lit ''voc:flibe'', target_kind = lit ''concept''\<rparr>]\<rparr>"
    by (simp add: handed_over_def is_linked_def linked_mention_of_def)
  finally show ?thesis by blast
qed

end
