(* ===== verification/Ingest.thy ===== *)
theory Ingest
  imports Config Artifacts Documents
begin

text \<open>
  The corpus stages of \<open>cli.py\<close> (\<open>acquire\<close>, \<open>manifest\<close>, \<open>normalize\<close>, \<open>documents\<close> and the umbrella
  \<open>ingest\<close>) with \<open>acquisition.py\<close> and the report list of \<open>curated.py\<close>, on a world of text files. The git
  command and the sentence splitter are arguments. A file holds its decoded text; bytes that are not
  UTF-8, and directories in the place of files, are outside the model.
\<close>

section \<open>The world\<close>

record world =
  wd_files :: "bool \<times> pystr list \<rightharpoonup> pystr"
  wd_checkout :: bool
  wd_updates :: "pystr list"

text \<open>\<open>wd_checkout\<close>: the directory \<open>.git\<close> of the archive exists.\<close>

type_synonym 'a stage = "world \<Rightarrow> world \<times> 'a result"

definition read_file :: "path \<Rightarrow> world \<Rightarrow> pystr result" where
  "read_file p w = (case wd_files w (place p) of None \<Rightarrow> Inl OSError | Some s \<Rightarrow> Inr (universal_newlines s))"

definition write_file :: "path \<Rightarrow> pystr \<Rightarrow> world \<Rightarrow> world" where
  "write_file p s w = w\<lparr>wd_files := (wd_files w)(place p \<mapsto> s)\<rparr>"

text \<open>One stage, and if it returns the next.\<close>

definition and_then :: "('w \<Rightarrow> 'w \<times> 'a result) \<Rightarrow> ('a \<Rightarrow> 'w \<Rightarrow> 'w \<times> 'b result) \<Rightarrow> 'w \<Rightarrow> 'w \<times> 'b result" where
  "and_then f g w = (case f w of (w, Inl e) \<Rightarrow> (w, Inl e) | (w, Inr x) \<Rightarrow> g x w)"

lemma and_then_assoc: "and_then (and_then f g) h = and_then f (\<lambda>x. and_then (g x) h)"
  by (auto simp: and_then_def fun_eq_iff split: prod.splits sum.splits)

definition done_with :: "'a \<Rightarrow> 'w \<Rightarrow> 'w \<times> 'a result" where
  "done_with x w = (w, Inr x)"

lemma and_then_done [simp]: "and_then (done_with x) g = g x"
  by (simp add: and_then_def done_with_def fun_eq_iff)

section \<open>The stages\<close>

definition CURATED_REPORTS :: "pystr list" where
  "CURATED_REPORTS = [lit ''ORNL-TM-2316'', lit ''ORNL-TM-0728'', lit ''ORNL-3293'', lit ''ORNL-2150'',
     lit ''NSRDS-NBS-61-p4'', lit ''ORNL-TM-3884'', lit ''ORNL-TM-0078'', lit ''ORNL-TM-2256'', lit ''ORNL-4658'',
     lit ''ORNL-4829'', lit ''ORNL-3124'']"

record ingest_setup =
  in_post :: endpoint
  in_git :: "pystr list \<Rightarrow> environment \<Rightarrow> unit stage"
  in_environ :: environment
  in_splitter :: "pystr \<Rightarrow> pystr list"
  in_run_ts :: pystr

definition acquire :: "ingest_setup \<Rightarrow> config \<Rightarrow> unit stage" where
  "acquire su c w = (if wd_checkout w then (w, Inr ())
     else in_git su [lit ''git'', lit ''clone'', lit ''--depth'', lit ''1'', cf_msr_archive_url c, path_text (archive_dir c)]
       ((in_environ su)(lit ''GIT_LFS_SKIP_SMUDGE'' \<mapsto> lit ''1'')) w)"

definition load_manifest_records :: "config \<Rightarrow> manifest_record list stage" where
  "load_manifest_records c w = (w, bind_result (read_file (readme_path c) w) (\<lambda>t. Inr (parse_manifest t)))"

text \<open>\<open>segmenter.run_normalize\<close> with its files.\<close>

definition normalize_report :: "ingest_setup \<Rightarrow> config \<Rightarrow> pystr \<Rightarrow> pystr \<Rightarrow> unit stage" where
  "normalize_report su c rep ocr_path w = (case read_file (path_join (archive_dir c) ocr_path) w of
       Inl e \<Rightarrow> (w, Inl e)
     | Inr raw \<Rightarrow> (case run_normalize (in_splitter su) rep raw of (normalized, segments) \<Rightarrow>
         (write_file (path_join (report_dir c rep) (lit ''segments.jsonl'')) (segments_jsonl segments)
           (write_file (path_join (report_dir c rep) (lit ''normalized.txt'')) normalized w), Inr ())))"

fun normalize_reports :: "ingest_setup \<Rightarrow> config \<Rightarrow> manifest_record list \<Rightarrow> pystr list \<Rightarrow> unit stage" where
  "normalize_reports su c recs [] w = (w, Inr ())"
| "normalize_reports su c recs (rep # reps) w = (case resolve_ocr_path recs rep of
       Inl e \<Rightarrow> (w, Inl e)
     | Inr ocr_path \<Rightarrow> and_then (normalize_report su c rep ocr_path) (\<lambda>_. normalize_reports su c recs reps) w)"

definition curated_records :: "manifest_record list \<Rightarrow> manifest_record list" where
  "curated_records recs = filter (\<lambda>r. mr_report_number r \<in> set CURATED_REPORTS) recs"

definition write_curated :: "ingest_setup \<Rightarrow> manifest_record list \<Rightarrow> unit stage" where
  "write_curated su recs w = (case send_all (in_post su)
       [stable_activity_insert_data, activity_insert_data (in_run_ts su)] (wd_updates w) of
       (acc, Inl e) \<Rightarrow> (w\<lparr>wd_updates := acc\<rparr>, Inl e)
     | (acc, Inr _) \<Rightarrow> (case write_documents (in_post su) (curated_records recs) (in_run_ts su) acc of
         (acc, r) \<Rightarrow> (w\<lparr>wd_updates := acc\<rparr>, r)))"

definition cmd_acquire :: "ingest_setup \<Rightarrow> config \<Rightarrow> int stage" where
  "cmd_acquire su c = and_then (acquire su c) (\<lambda>_. done_with 0)"

text \<open>The line printed and the exit code.\<close>

definition cmd_manifest :: "config \<Rightarrow> (pystr \<times> int) stage" where
  "cmd_manifest c = and_then (load_manifest_records c) (\<lambda>recs. done_with
     (concat [lit ''Parsed '', show_nat (length recs), lit '' manifest record(s) from '', path_text (readme_path c)], 0))"

definition cmd_normalize :: "ingest_setup \<Rightarrow> config \<Rightarrow> int stage" where
  "cmd_normalize su c = and_then (load_manifest_records c) (\<lambda>recs.
     and_then (normalize_reports su c recs CURATED_REPORTS) (\<lambda>_. done_with 0))"

definition cmd_documents :: "ingest_setup \<Rightarrow> config \<Rightarrow> int stage" where
  "cmd_documents su c = and_then (load_manifest_records c) (\<lambda>recs.
     and_then (write_curated su recs) (\<lambda>_. done_with 0))"

definition cmd_ingest :: "ingest_setup \<Rightarrow> config \<Rightarrow> int stage" where
  "cmd_ingest su c = and_then (acquire su c) (\<lambda>_. and_then (load_manifest_records c) (\<lambda>recs.
     and_then (normalize_reports su c recs CURATED_REPORTS) (\<lambda>_.
     and_then (write_curated su recs) (\<lambda>_. done_with 0))))"

section \<open>What the normalize stage writes\<close>

lemma plain_curated: "list_all plain CURATED_REPORTS" "distinct CURATED_REPORTS" "lit ''msr-archive'' \<notin> set CURATED_REPORTS"
  by (simp_all add: CURATED_REPORTS_def plain_def lit_def)

text \<open>The two files of a report, as places.\<close>

abbreviation segments_place :: "config \<Rightarrow> pystr \<Rightarrow> bool \<times> pystr list" where
  "segments_place c rep \<equiv> place (path_join (report_dir c rep) (lit ''segments.jsonl''))"

abbreviation normalized_place :: "config \<Rightarrow> pystr \<Rightarrow> bool \<times> pystr list" where
  "normalized_place c rep \<equiv> place (path_join (report_dir c rep) (lit ''normalized.txt''))"

lemma report_places:
  "plain rep \<Longrightarrow> segments_place c rep = (fst (place (cf_corpus_dir c)), snd (place (cf_corpus_dir c)) @ [rep, lit ''segments.jsonl''])"
  "plain rep \<Longrightarrow> normalized_place c rep = (fst (place (cf_corpus_dir c)), snd (place (cf_corpus_dir c)) @ [rep, lit ''normalized.txt''])"
  by (simp_all add: report_dir_def place_join)

lemma reports_apart:
  "rep' \<noteq> rep \<Longrightarrow> plain rep' \<Longrightarrow> plain rep \<Longrightarrow>
   {segments_place c rep', normalized_place c rep'} \<inter> {segments_place c rep, normalized_place c rep} = {}"
  by (simp add: report_places)

text \<open>A path of the archive given without \<open>..\<close> stays in the archive.\<close>

lemma fold_walk_plain: "list_all (\<lambda>p. p \<noteq> lit ''..'') ps \<Longrightarrow> fold (walk b) ps stack = rev ps @ stack"
  by (induction ps arbitrary: stack) (simp_all add: walk_def)

definition inside :: "pystr \<Rightarrow> bool" where
  "inside s \<longleftrightarrow> pa_root (path_of s) = [] \<and> list_all (\<lambda>p. p \<noteq> lit ''..'') (path_parts s)"

lemma place_inside:
  assumes "inside s"
  shows "place (path_join p s) = (fst (place p), snd (place p) @ path_parts s)"
  using assms by (simp add: inside_def place_def path_join_def fold_walk_plain)

lemma archive_place:
  assumes "cf_archive_subdir c = lit ''msr-archive''" "inside s"
  shows "place (path_join (archive_dir c) s) =
    (fst (place (cf_corpus_dir c)), snd (place (cf_corpus_dir c)) @ lit ''msr-archive'' # path_parts s)"
  using assms by (simp add: place_inside archive_dir_def place_join)

lemma archive_not_report:
  assumes "cf_archive_subdir c = lit ''msr-archive''" "inside s" "plain rep" "rep \<noteq> lit ''msr-archive''"
  shows "place (path_join (archive_dir c) s) \<notin> {segments_place c rep, normalized_place c rep}"
  using assms by (auto simp: archive_place report_places)

lemma inside_readme [simp]: "inside (lit ''README.md'')"
  by (simp add: inside_def path_of_def path_parts_def lit_def starts_with_def)


lemma read_file_cong: "wd_files w' (place p) = wd_files w (place p) \<Longrightarrow> read_file p w' = read_file p w"
  by (simp add: read_file_def)

lemma normalize_report_cases:
  obtains e where "read_file (path_join (archive_dir c) ocr) w = Inl e" "normalize_report su c rep ocr w = (w, Inl e)"
  | raw where "read_file (path_join (archive_dir c) ocr) w = Inr raw"
    "normalize_report su c rep ocr w =
      (w\<lparr>wd_files := (wd_files w)(normalized_place c rep \<mapsto> fst (run_normalize (in_splitter su) rep raw),
         segments_place c rep \<mapsto> segments_jsonl (snd (run_normalize (in_splitter su) rep raw)))\<rparr>, Inr ())"
  by (cases "read_file (path_join (archive_dir c) ocr) w")
    (auto simp: normalize_report_def write_file_def split_beta)

text \<open>Only the files of the reports change.\<close>

lemma normalize_reports_frame:
  assumes "\<And>rep. rep \<in> set reps \<Longrightarrow> q \<notin> {segments_place c rep, normalized_place c rep}"
  shows "wd_files (fst (normalize_reports su c recs reps w)) q = wd_files w q"
  using assms
proof (induction reps arbitrary: w)
  case (Cons rep reps)
  show ?case
  proof (cases "resolve_ocr_path recs rep")
    case (Inr ocr)
    show ?thesis
    proof (cases rule: normalize_report_cases [of c ocr w su rep])
      case (2 raw)
      then show ?thesis using Cons Inr by (simp add: and_then_def)
    qed (simp add: Inr and_then_def)
  qed simp
qed simp

lemma normalize_updates: "wd_updates (fst (normalize_reports su c recs reps w)) = wd_updates w"
proof (induction reps arbitrary: w)
  case (Cons rep reps)
  show ?case
  proof (cases "resolve_ocr_path recs rep")
    case (Inr ocr)
    then show ?thesis using Cons by (cases rule: normalize_report_cases [of c ocr w su rep]) (simp_all add: and_then_def)
  qed simp
qed simp

lemma resolve_in: "resolve_ocr_path recs rep = Inr ocr \<Longrightarrow> \<exists>r \<in> set recs. mr_ocr_path r = ocr"
  by (auto simp: resolve_ocr_path_def find_Some_iff split: option.splits)

text \<open>What is written for one report.\<close>

definition normalized_from :: "ingest_setup \<Rightarrow> config \<Rightarrow> manifest_record list \<Rightarrow> world \<Rightarrow> world \<Rightarrow> pystr \<Rightarrow> bool" where
  "normalized_from su c recs w w' rep \<longleftrightarrow> (case resolve_ocr_path recs rep of Inl _ \<Rightarrow> False | Inr ocr \<Rightarrow>
     (case read_file (path_join (archive_dir c) ocr) w of Inl _ \<Rightarrow> False | Inr raw \<Rightarrow>
       wd_files w' (normalized_place c rep) = Some (fst (run_normalize (in_splitter su) rep raw))
       \<and> wd_files w' (segments_place c rep) = Some (segments_jsonl (snd (run_normalize (in_splitter su) rep raw)))))"

lemma normalize_reports_writes:
  assumes "cf_archive_subdir c = lit ''msr-archive''" "list_all (\<lambda>r. inside (mr_ocr_path r)) recs"
    and "list_all plain reps" "distinct reps" "lit ''msr-archive'' \<notin> set reps"
    and "normalize_reports su c recs reps w = (w', Inr u)"
  shows "list_all (normalized_from su c recs w w') reps"
  using assms(3-)
proof (induction reps arbitrary: w)
  case (Cons rep reps)
  obtain ocr where ocr: "resolve_ocr_path recs rep = Inr ocr"
    using Cons.prems(4) by (auto split: sum.splits)
  then have ocr_in: "inside ocr" using resolve_in assms(2) by (fastforce simp: list_all_iff)
  show ?case
  proof (cases rule: normalize_report_cases [of c ocr w su rep])
    case (1 e)
    then show ?thesis using Cons.prems(4) ocr by (simp add: and_then_def)
  next
    case (2 raw)
    let ?w = "w\<lparr>wd_files := (wd_files w)(normalized_place c rep \<mapsto> fst (run_normalize (in_splitter su) rep raw),
         segments_place c rep \<mapsto> segments_jsonl (snd (run_normalize (in_splitter su) rep raw)))\<rparr>"
    have rest: "normalize_reports su c recs reps ?w = (w', Inr u)"
      using Cons.prems(4) ocr 2 by (simp add: and_then_def)
    have ne: "rep' \<noteq> rep" "plain rep'" if "rep' \<in> set reps" for rep'
      using Cons.prems(1,2) that by (auto simp: list_all_iff)
    have "wd_files w' q = wd_files ?w q" if q: "q \<in> {segments_place c rep, normalized_place c rep}" for q
    proof -
      have "q \<notin> {segments_place c rep', normalized_place c rep'}" if "rep' \<in> set reps" for rep'
        using q reports_apart [OF ne(1) [OF that] ne(2) [OF that], of c] Cons.prems(1) by auto
      then show ?thesis using normalize_reports_frame [of reps q c su recs ?w] rest by simp
    qed
    moreover have "segments_place c rep \<noteq> normalized_place c rep"
      using Cons.prems(1) by (simp add: report_places)
    ultimately have "normalized_from su c recs w w' rep"
      using ocr 2(1) by (simp add: normalized_from_def)
    moreover have "normalized_from su c recs w w' rep'" if "rep' \<in> set reps" for rep'
    proof -
      have "normalized_from su c recs ?w w' rep'"
        using Cons.IH [OF _ _ _ rest] Cons.prems that by (simp add: list_all_iff)
      moreover have "read_file (path_join (archive_dir c) ocr') ?w = read_file (path_join (archive_dir c) ocr') w"
        if "resolve_ocr_path recs rep' = Inr ocr'" for ocr'
      proof -
        have "inside ocr'" using resolve_in [OF that] assms(2) by (fastforce simp: list_all_iff)
        then show ?thesis using archive_not_report [OF assms(1), of ocr' rep] Cons.prems(1,3)
          by (intro read_file_cong) auto
      qed
      ultimately show ?thesis by (auto simp: normalized_from_def split: sum.splits)
    qed
    ultimately show ?thesis by (simp add: list_all_iff)
  qed
qed simp

section \<open>Properties\<close>

text \<open>The archive's table is not among the files the normalize stage writes.\<close>

lemma readme_after_normalize:
  assumes "cf_archive_subdir c = lit ''msr-archive''"
  shows "read_file (readme_path c) (fst (normalize_reports su c recs CURATED_REPORTS w)) = read_file (readme_path c) w"
proof (rule read_file_cong)
  have "place (readme_path c) \<notin> {segments_place c rep, normalized_place c rep}" if "rep \<in> set CURATED_REPORTS" for rep
  proof -
    have "plain rep" "rep \<noteq> lit ''msr-archive''" using that plain_curated by (auto simp: list_all_iff)
    then show ?thesis unfolding readme_path_def by (intro archive_not_report [OF assms]) simp_all
  qed
  then show "wd_files (fst (normalize_reports su c recs CURATED_REPORTS w)) (place (readme_path c)) = wd_files w (place (readme_path c))"
    by (rule normalize_reports_frame)
qed

text \<open>C15. The umbrella command is its stages. For every configuration read from an environment, \<open>ingest\<close>,
  which parses the archive's table once, does the same as \<open>acquire\<close>, \<open>normalize\<close> and \<open>documents\<close> run one
  after the other, each parsing the table again: the same files, the same updates and the same result,
  whatever git does and wherever a stage stops.\<close>

theorem cmd_ingest_stages:
  assumes "from_env env = Inr c"
  shows "cmd_ingest su c w =
    and_then (cmd_acquire su c) (\<lambda>_. and_then (cmd_normalize su c) (\<lambda>_. cmd_documents su c)) w"
proof -
  have again: "and_then (normalize_reports su c recs CURATED_REPORTS) (\<lambda>_. and_then (load_manifest_records c) h) w =
      and_then (normalize_reports su c recs CURATED_REPORTS) (\<lambda>_. h recs) w"
    if "load_manifest_records c w = (w, Inr recs)" for recs w and h :: "manifest_record list \<Rightarrow> int stage"
  proof (cases "normalize_reports su c recs CURATED_REPORTS w")
    case (Pair w' r)
    have "read_file (readme_path c) w' = read_file (readme_path c) w"
      using readme_after_normalize [OF from_env_archive [OF assms], of su recs w] Pair by simp
    then have "load_manifest_records c w' = (w', Inr recs)" using that by (simp add: load_manifest_records_def)
    then show ?thesis using Pair by (simp add: and_then_def split: sum.splits)
  qed
  have load: "load_manifest_records c w = (w, snd (load_manifest_records c w))" for w
    by (simp add: load_manifest_records_def)
  have "and_then (load_manifest_records c) (\<lambda>recs. and_then (normalize_reports su c recs CURATED_REPORTS)
        (\<lambda>_. and_then (load_manifest_records c) (\<lambda>recs. and_then (write_curated su recs) (\<lambda>_. done_with (0 :: int))))) =
      and_then (load_manifest_records c) (\<lambda>recs. and_then (normalize_reports su c recs CURATED_REPORTS)
        (\<lambda>_. and_then (write_curated su recs) (\<lambda>_. done_with 0)))"
  proof
    fix w
    show "and_then (load_manifest_records c) (\<lambda>recs. and_then (normalize_reports su c recs CURATED_REPORTS)
        (\<lambda>_. and_then (load_manifest_records c) (\<lambda>recs. and_then (write_curated su recs) (\<lambda>_. done_with (0 :: int))))) w =
      and_then (load_manifest_records c) (\<lambda>recs. and_then (normalize_reports su c recs CURATED_REPORTS)
        (\<lambda>_. and_then (write_curated su recs) (\<lambda>_. done_with 0))) w"
    proof (cases "snd (load_manifest_records c w)")
      case (Inl e)
      then show ?thesis using load [of w] by (simp add: and_then_def split: prod.splits)
    next
      case (Inr recs)
      then have l: "load_manifest_records c w = (w, Inr recs)" using load [of w] by simp
      show ?thesis unfolding and_then_def [of "load_manifest_records c" _ w] l using again [OF l] by simp
    qed
  qed
  then show ?thesis by (simp add: cmd_ingest_def cmd_acquire_def cmd_normalize_def cmd_documents_def and_then_assoc)
qed


lemma cmd_ingest_stages_witness:
  "\<forall>su w. cmd_ingest su default_config w = and_then (cmd_acquire su default_config)
     (\<lambda>_. and_then (cmd_normalize su default_config) (\<lambda>_. cmd_documents su default_config)) w"
  using cmd_ingest_stages [OF from_env_empty] by blast

text \<open>The normalize stage writes the artifacts of its reports and nothing else. When it returns, each
  report has the normalized text and the segments of the OCR file its row names, as that file was before
  the stage; every other file, the archive's included, and the graph are as before. Relied on: the rows
  name OCR files inside the archive, and the ids are plain names other than the archive's.\<close>

theorem normalize_stage_writes:
  assumes "cf_archive_subdir c = lit ''msr-archive''" "list_all (\<lambda>r. inside (mr_ocr_path r)) recs"
    and "list_all plain reps" "distinct reps" "lit ''msr-archive'' \<notin> set reps"
    and "normalize_reports su c recs reps w = (w', Inr u)"
  shows "list_all (normalized_from su c recs w w') reps \<and> wd_updates w' = wd_updates w
    \<and> (\<forall>q. q \<notin> set (map (segments_place c) reps @ map (normalized_place c) reps) \<longrightarrow> wd_files w' q = wd_files w q)
    \<and> read_file (readme_path c) w' = read_file (readme_path c) w"
proof -
  have frame: "wd_files w' q = wd_files w q" if "q \<notin> set (map (segments_place c) reps @ map (normalized_place c) reps)" for q
    using normalize_reports_frame [of reps q c su recs w] assms(6) that by auto
  moreover have "read_file (readme_path c) w' = read_file (readme_path c) w"
  proof (rule read_file_cong, rule frame)
    have "place (readme_path c) \<notin> {segments_place c rep, normalized_place c rep}" if "rep \<in> set reps" for rep
      unfolding readme_path_def using that assms(3,5) by (intro archive_not_report assms) (auto simp: list_all_iff)
    then show "place (readme_path c) \<notin> set (map (segments_place c) reps @ map (normalized_place c) reps)" by auto
  qed
  moreover have "wd_updates w' = wd_updates w"
    using normalize_updates [of su c recs reps w] assms(6) by simp
  ultimately show ?thesis using normalize_reports_writes [OF assms] by blast
qed

definition sample_world :: world where
  "sample_world = \<lparr>wd_files = (\<lambda>_. Some (lit ''a'')), wd_checkout = True, wd_updates = []\<rparr>"

definition sample_ingest :: ingest_setup where
  "sample_ingest = \<lparr>in_post = (\<lambda>_ _. None), in_git = (\<lambda>_ _. done_with ()), in_environ = Map.empty, in_splitter = (\<lambda>p. [p]),
     in_run_ts = []\<rparr>"

lemma normalize_stage_writes_witness:
  "let recs = [\<lparr>mr_report_number = lit ''ORNL-2150'', mr_title = [], mr_date = [], mr_ocr_path = lit ''ocr/a.txt''\<rparr>];
       w' = fst (normalize_reports sample_ingest default_config recs [lit ''ORNL-2150''] sample_world)
   in wd_files w' (segments_place default_config (lit ''ORNL-2150''))
        = Some (segments_jsonl (snd (run_normalize (\<lambda>p. [p]) (lit ''ORNL-2150'') (lit ''a''))))
      \<and> read_file (readme_path default_config) w' = Inr (lit ''a'')"
proof -
  let ?recs = "[\<lparr>mr_report_number = lit ''ORNL-2150'', mr_title = [], mr_date = [], mr_ocr_path = lit ''ocr/a.txt''\<rparr>]"
  let ?w = "normalize_reports sample_ingest default_config ?recs [lit ''ORNL-2150''] sample_world"
  have read: "read_file p sample_world = Inr (lit ''a'')" for p
    by (simp add: read_file_def sample_world_def lit_def)
  have run: "?w = (fst ?w, Inr ())"
    by (simp add: resolve_ocr_path_def and_then_def normalize_report_def read split_beta)
  have "list_all (normalized_from sample_ingest default_config ?recs sample_world (fst ?w)) [lit ''ORNL-2150'']
    \<and> read_file (readme_path default_config) (fst ?w) = read_file (readme_path default_config) sample_world"
    using normalize_stage_writes [OF _ _ _ _ _ run]
    by (simp add: default_config_def plain_def inside_def path_of_def path_parts_def starts_with_def lit_def)
  then show ?thesis
    by (simp add: normalized_from_def resolve_ocr_path_def read sample_ingest_def)
qed

end
