(* ===== verification/Cli.thy ===== *)
theory Cli
  imports Link_Stage Extract_Stage Ingest Mine_Runner Backfill
begin

text \<open>
  The rest of \<open>cli.py\<close>: which reports a run processes, the link stage of the safety genre, the lines of
  the mining and backfill commands, the order of the safety stages, and \<open>main\<close>. Argument parsing
  (argparse) and logging are outside the model; parsed arguments are an argument.
\<close>

section \<open>The reports of a run\<close>

text \<open>A left value is the text of the \<open>ValueError\<close>.\<close>

definition resolve_link_reports :: "pystr list \<Rightarrow> pystr list option \<Rightarrow> int option \<Rightarrow> pystr + pystr list" where
  "resolve_link_reports all_reports selected limit =
     (let unknown = (case selected of None \<Rightarrow> [] | Some sel \<Rightarrow> filter (\<lambda>rep. rep \<notin> set all_reports) sel)
      in if unknown \<noteq> [] then Inl (concat [lit ''unknown --report id(s): '', join (lit '', '') unknown,
             lit ''; expected one of: '', join (lit '', '') all_reports])
         else let reports = (case selected of None \<Rightarrow> all_reports
                | Some sel \<Rightarrow> filter (\<lambda>rep. rep \<in> set sel) all_reports)
              in case limit of
                   None \<Rightarrow> Inr reports
                 | Some n \<Rightarrow> if n < 1 then Inl (lit ''--limit must be >= 1, got '' @ show_int n)
                     else Inr (take (nat n) reports))"

section \<open>Linking the safety sources\<close>

record safety_link_stage =
  sl_accepted :: "pystr list"
  sl_artifacts :: "(pystr \<times> mention_record list) list"
  sl_lines :: "pystr list"

definition safety_link_summary :: "pystr \<Rightarrow> mention_record list \<Rightarrow> pystr" where
  "safety_link_summary source found =
     (let linked = length (linked_mentions_of source found)
      in concat [lit ''safety link: source='', source, lit '' spans='', show_nat (length found),
           lit '' linked='', show_nat linked, lit '' novel='', show_nat (length found - linked)])"

text \<open>The disambiguator asks the client for every span; there is no cache.\<close>

definition safety_link_document :: "link_setup \<Rightarrow> pystr \<Rightarrow> segment list \<Rightarrow> safety_link_stage \<Rightarrow>
    safety_link_stage \<times> unit result" where
  "safety_link_document su source segs st =
     (let found = link_report (lk_run su\<lparr>disambiguator := lk_client su\<rparr>) segs None;
          st = st\<lparr>sl_artifacts := sl_artifacts st @ [(source, found)]\<rparr>
      in case write_mentions (lk_post su) (linked_mentions_of source found) (lk_run_ts su) (lk_batch_size su)
             (sl_accepted st) of
           (acc, Inl e) \<Rightarrow> (st\<lparr>sl_accepted := acc\<rparr>, Inl e)
         | (acc, Inr _) \<Rightarrow> (st\<lparr>sl_accepted := acc, sl_lines := sl_lines st @ [safety_link_summary source found]\<rparr>, Inr ()))"

definition run_safety_link :: "link_setup \<Rightarrow> (pystr \<Rightarrow> segment list option) \<Rightarrow> pystr list \<Rightarrow> pystr list \<Rightarrow>
    safety_link_stage \<times> unit result" where
  "run_safety_link su segments_of sources acc =
     (let start = \<lparr>sl_accepted = acc, sl_artifacts = [], sl_lines = []\<rparr>
      in case send_all (lk_post su) [stable_activity_insert_data, activity_insert_data (lk_run_ts su)] acc of
           (acc, Inl e) \<Rightarrow> (start\<lparr>sl_accepted := acc\<rparr>, Inl e)
         | (acc, Inr _) \<Rightarrow> over_reports (safety_link_document su) segments_of sources (start\<lparr>sl_accepted := acc\<rparr>))"

section \<open>Lines and stages\<close>

definition kind_summary :: "(pystr \<times> nat) list \<Rightarrow> pystr" where
  "kind_summary by_kind = join (lit '' '') (map (\<lambda>(kind, count). kind @ lit ''='' @ show_nat count) (sort_key fst by_kind))"

text \<open>The same line under the three names \<open>mine\<close>, \<open>safety mine\<close> and \<open>safety ingest: mine\<close>.\<close>

definition mine_line :: "pystr \<Rightarrow> summary \<Rightarrow> pystr" where
  "mine_line name sm = concat [name, lit '' candidates='', show_nat (sm_candidates sm),
     lit '' proposals=['', kind_summary (sm_proposals_by_kind sm), lit ''] auto_accepted='', show_nat (sm_auto_accepted sm),
     lit '' rejected='', show_nat (sm_rejected sm), lit '' dropped='', show_nat (sm_dropped sm)]"

definition backfill_line :: "backfill_summary \<Rightarrow> pystr" where
  "backfill_line bs = concat [lit ''backfill-observations: proposals_processed='', show_nat (bf_proposals_processed bs),
     lit '' observations_written='', show_nat (bf_observations_written bs),
     lit '' documents_tagged='', show_nat (bf_documents_tagged bs),
     lit '' doc_frequency_scalars_removed='', show_int (bf_scalars_removed bs)]"

definition cmd_safety_documents :: "endpoint \<Rightarrow> pystr \<Rightarrow> safety_source list \<Rightarrow> pystr list \<Rightarrow> pystr list \<times> int result" where
  "cmd_safety_documents post run_ts sources acc = (case send_all post
       [stable_activity_insert_data, activity_insert_data run_ts] acc of
       (acc, Inl e) \<Rightarrow> (acc, Inl e)
     | (acc, Inr _) \<Rightarrow> (case write_safety_documents post sources run_ts acc of
         (acc, Inl e) \<Rightarrow> (acc, Inl e) | (acc, Inr _) \<Rightarrow> (acc, Inr 0)))"

text \<open>The order of \<open>safety ingest\<close>, over its five stages.\<close>

definition cmd_safety_ingest :: "('w \<Rightarrow> 'w \<times> int result) \<Rightarrow> ('w \<Rightarrow> 'w \<times> int result) \<Rightarrow> ('w \<Rightarrow> 'w \<times> unit result) \<Rightarrow>
    ('w \<Rightarrow> 'w \<times> summary result) \<Rightarrow> ('w \<Rightarrow> 'w \<times> unit result) \<Rightarrow> 'w \<Rightarrow> 'w \<times> pystr list \<times> int result" where
  "cmd_safety_ingest extract documents link mine relations w =
     (case and_then extract (\<lambda>_. and_then documents (\<lambda>_. and_then link (\<lambda>_. mine))) w of
        (w, Inl e) \<Rightarrow> (w, [], Inl e)
      | (w, Inr sm) \<Rightarrow> (case relations w of
          (w, Inl e) \<Rightarrow> (w, [mine_line (lit ''safety ingest: mine'') sm], Inl e)
        | (w, Inr _) \<Rightarrow> (w, [mine_line (lit ''safety ingest: mine'') sm], Inr 0)))"

section \<open>\<open>main\<close>\<close>

record cli_args =
  ca_command :: pystr
  ca_report :: "pystr list option"
  ca_limit :: "int option"
  ca_safety_command :: pystr

record 'w handlers =
  h_link :: "config \<Rightarrow> pystr list \<Rightarrow> 'w \<Rightarrow> 'w \<times> int result"
  h_extract :: "config \<Rightarrow> pystr list \<Rightarrow> 'w \<Rightarrow> 'w \<times> int result"
  h_safety :: "pystr \<rightharpoonup> (config \<Rightarrow> 'w \<Rightarrow> 'w \<times> int result)"
  h_other :: "pystr \<rightharpoonup> (config \<Rightarrow> 'w \<Rightarrow> 'w \<times> int result)"

definition run_handler :: "(config \<Rightarrow> 'w \<Rightarrow> 'w \<times> int result) option \<Rightarrow> config \<Rightarrow> 'w \<Rightarrow> 'w \<times> pystr list \<times> int result" where
  "run_handler h config w = (case h of
       None \<Rightarrow> (w, [], Inl KeyError) | Some f \<Rightarrow> (case f config w of (w, r) \<Rightarrow> (w, [], r)))"

text \<open>\<open>link\<close> and \<open>extract\<close> first settle their reports; a selection that is refused is printed on
  the error stream (the second component).\<close>

definition run_selected :: "(config \<Rightarrow> pystr list \<Rightarrow> 'w \<Rightarrow> 'w \<times> int result) \<Rightarrow> config \<Rightarrow> cli_args \<Rightarrow> 'w \<Rightarrow>
    'w \<times> pystr list \<times> int result" where
  "run_selected h config args w = (case resolve_link_reports CURATED_REPORTS (ca_report args) (ca_limit args) of
       Inl message \<Rightarrow> (w, [ca_command args @ lit '': '' @ message], Inr 1)
     | Inr reports \<Rightarrow> (case h config reports w of (w, r) \<Rightarrow> (w, [], r)))"

definition main :: "'w handlers \<Rightarrow> environment \<Rightarrow> cli_args \<Rightarrow> 'w \<Rightarrow> 'w \<times> pystr list \<times> int result" where
  "main hs env args w = (case from_env env of
       Inl e \<Rightarrow> (w, [], Inl e)
     | Inr config \<Rightarrow>
         if ca_command args = lit ''link'' then run_selected (h_link hs) config args w
         else if ca_command args = lit ''extract'' then run_selected (h_extract hs) config args w
         else if ca_command args = lit ''safety'' then run_handler (h_safety hs (ca_safety_command args)) config w
         else run_handler (h_other hs (ca_command args)) config w)"

section \<open>One client, two ways to link\<close>

text \<open>A client that looks at the surface only, and a cache of its answers.\<close>

definition by_surface :: "(pystr \<Rightarrow> pystr \<Rightarrow> outcome) \<Rightarrow> bool" where
  "by_surface ask \<longleftrightarrow> (\<forall>w s s'. ask w s = ask w s')"

definition holds_answers :: "(pystr \<Rightarrow> pystr \<Rightarrow> outcome) \<Rightarrow> cache \<Rightarrow> bool" where
  "holds_answers ask cache \<longleftrightarrow> (\<forall>w x. map_of cache w = Some x \<longrightarrow> x = ask w [])"

lemma answers_held:
  assumes "by_surface ask" "holds_answers ask c" "answer_all (cached_disambiguator ask) qs c = (c', outs)"
  shows "holds_answers ask c'"
  using assms(2,3)
proof (induction qs arbitrary: c outs)
  case (Cons q qs)
  obtain w t where q: "q = (w, t)" by (cases q)
  obtain c1 x where one: "cached_disambiguator ask w t c = (c1, x)" by (rule prod.exhaust)
  have "ask w t = ask w []" using assms(1) by (simp add: by_surface_def)
  then have "holds_answers ask c1"
    using Cons.prems(1) one by (auto simp: holds_answers_def cached_disambiguator_def Let_def map_add_def split: option.splits if_splits)
  moreover obtain outs' where "answer_all (cached_disambiguator ask) qs c1 = (c', outs')"
    using Cons.prems(2) q one by (auto split: prod.splits)
  ultimately show ?case by (rule Cons.IH)
qed simp

lemma all_some: "map Some outs = map (\<lambda>(w, t). f w t) qs \<Longrightarrow> list_all (\<lambda>(w, t). f w t \<noteq> None) qs"
proof (induction qs arbitrary: outs)
  case (Cons q qs)
  then show ?case by (cases outs; cases q) (auto dest: sym)
qed simp

lemma pass_answers:
  assumes "valid_setup su" "lk_client su = Some ask" "by_surface ask" "holds_answers ask c"
    and "link_pass su rep segs c = Inr (c', found)"
  shows "holds_answers ask c' \<and> map_of c \<subseteq>\<^sub>m map_of c'
    \<and> list_all (\<lambda>(w, t). map_of c' w \<noteq> None) (report_questions (lk_run su) segs)"
proof -
  let ?qs = "report_questions (lk_run su) segs"
  obtain c1 where c1: "prewarm_report ask (lk_concurrency su) (lk_schedule su rep) (lk_run su) segs c = Inr c1"
      "(c', found) = link_report_st (cached_disambiguator ask) (lk_run su) segs c1"
    using assms(2,5) by (auto simp: link_pass_def bind_result_eq_Inr)
  have v: "valid_schedule (lk_schedule su rep)" using assms(1) by (simp add: valid_setup_def)
  obtain k outs where k: "answer_all (cached_disambiguator ask) ?qs c = (k, outs)" by fastforce
  have "c' = c1" using prewarmed_pass [OF v c1(1), of ask] c1(2) by simp
  then have eq: "map_of c' = map_of k" using prewarmed [OF v c1(1) k] by simp
  have "map Some outs = map (\<lambda>(w, t). map_of k w) ?qs" "map_of c \<subseteq>\<^sub>m map_of k" using cached_answers [OF k] by simp_all
  moreover from this(1) have "list_all (\<lambda>(w, t). map_of k w \<noteq> None) ?qs"
    by (rule all_some)
  moreover have "holds_answers ask k" by (rule answers_held [OF assms(3,4) k])
  ultimately show ?thesis by (simp add: eq holds_answers_def)
qed


lemma documents_answers:
  assumes "valid_setup su" "lk_client su = Some ask" "by_surface ask" "holds_answers ask (ls_cache st)"
    and "link_documents su segments_of reports st = (st', Inr u)"
  shows "holds_answers ask (ls_cache st') \<and> map_of (ls_cache st) \<subseteq>\<^sub>m map_of (ls_cache st')
    \<and> list_all (\<lambda>(rep, segs). list_all (\<lambda>(w, t). map_of (ls_cache st') w \<noteq> None) (report_questions (lk_run su) segs))
        (present segments_of reports)"
  using assms(4,5)
proof (induction reports arbitrary: st)
  case (Cons rep reports)
  show ?case
  proof (cases "segments_of rep")
    case None
    then show ?thesis using Cons by (simp add: present_def List.map_filter_simps)
  next
    case (Some segs)
    obtain st1 where st1: "link_document su rep segs st = (st1, Inr ())" "link_documents su segments_of reports st1 = (st', Inr u)"
      using Cons.prems(2) Some by (auto split: prod.splits sum.splits)
    obtain found where "link_pass su rep segs (ls_cache st) = Inr (ls_cache st1, found)"
      using link_document_Inr [OF st1(1)] by blast
    note pass = pass_answers [OF assms(1,2,3) Cons.prems(1) this]
    then have rest: "holds_answers ask (ls_cache st')" "map_of (ls_cache st1) \<subseteq>\<^sub>m map_of (ls_cache st')"
        "list_all (\<lambda>(rep, segs). list_all (\<lambda>(w, t). map_of (ls_cache st') w \<noteq> None) (report_questions (lk_run su) segs))
           (present segments_of reports)"
      using Cons.IH [OF _ st1(2)] by auto
    have "list_all (\<lambda>(w, t). map_of (ls_cache st') w \<noteq> None) (report_questions (lk_run su) segs)"
      using pass rest(2) by (fastforce simp: list_all_iff map_le_def dom_def)
    then show ?thesis using rest pass Some map_le_trans by (auto simp: present_def List.map_filter_simps)
  qed
qed (simp add: present_def)

lemma outcome_is_answer:
  assumes "by_surface ask" "holds_answers ask c" "list_all (\<lambda>(w, t). map_of c w \<noteq> None) (report_questions run segs)"
  shows "link_report (with_outcome run (outcome_of c)) segs None = link_report (run\<lparr>disambiguator := Some ask\<rparr>) segs None"
proof -
  have "outcome_of c w t = ask w t" if wt: "(w, t) \<in> set (report_questions run segs)" for w t
  proof -
    obtain x where x: "map_of c w = Some x" using assms(3) wt by (auto simp: list_all_iff)
    then have "x = ask w []" using assms(2) unfolding holds_answers_def by blast
    also have "\<dots> = ask w t" using assms(1) by (simp add: by_surface_def)
    finally show ?thesis using x by (simp add: outcome_of_def)
  qed
  then have "map (\<lambda>(w, t). outcome_of c w t) (report_questions run segs) = map (\<lambda>(w, t). ask w t) (report_questions run segs)"
    by auto
  then have "link_report (with_outcome run (outcome_of c)) segs None = link_report (with_outcome run ask) segs None"
    by (rule link_report_cong)
  then show ?thesis by (simp add: with_outcome_def)
qed

lemma safety_documents_Inr:
  assumes "over_reports (safety_link_document su) segments_of reports st = (st', Inr u)"
  shows "let arts = map (\<lambda>(rep, segs). (rep, link_report (lk_run su\<lparr>disambiguator := lk_client su\<rparr>) segs None))
           (present segments_of reports)
    in sl_artifacts st' = sl_artifacts st @ arts \<and> sl_accepted st' = sl_accepted st @ report_updates su arts"
  using assms
proof (induction reports arbitrary: st)
  case (Cons rep reports)
  show ?case
  proof (cases "segments_of rep")
    case None
    then show ?thesis using Cons by (simp add: present_def List.map_filter_simps)
  next
    case (Some segs)
    let ?found = "link_report (lk_run su\<lparr>disambiguator := lk_client su\<rparr>) segs None"
    obtain st1 where st1: "safety_link_document su rep segs st = (st1, Inr ())"
        "over_reports (safety_link_document su) segments_of reports st1 = (st', Inr u)"
      using Cons.prems Some by (auto split: prod.splits sum.splits)
    obtain acc where acc: "write_mentions (lk_post su) (linked_mentions_of rep ?found) (lk_run_ts su) (lk_batch_size su)
        (sl_accepted st) = (acc, Inr ())" "sl_artifacts st1 = sl_artifacts st @ [(rep, ?found)]" "sl_accepted st1 = acc"
      using st1(1) by (auto simp: safety_link_document_def Let_def split: prod.splits sum.splits)
    have "acc = sl_accepted st @ mention_updates su (linked_mentions_of rep ?found)"
      by (rule write_mentions_Inr [OF acc(1)]) simp_all
    then show ?thesis using Cons.IH [OF st1(2)] acc(2,3) Some
      by (simp add: present_def List.map_filter_simps Let_def)
  qed
qed (simp add: present_def)


section \<open>Properties\<close>

text \<open>What a run selects. A selection is refused exactly when it names an unknown report or the limit is
  below one, and then \<open>main\<close> runs no stage, prints one line and exits with 1. Otherwise the reports are the
  first ones, up to the limit, of the named reports in the order of the curated list: no report is
  processed that is not in it, none twice.\<close>

theorem resolve_link_reports_spec:
  "case resolve_link_reports all selected limit of
     Inl message \<Rightarrow> \<not> (set (case selected of None \<Rightarrow> [] | Some sel \<Rightarrow> sel) \<subseteq> set all \<and> (case limit of None \<Rightarrow> True | Some n \<Rightarrow> 1 \<le> n))
   | Inr reports \<Rightarrow> set (case selected of None \<Rightarrow> [] | Some sel \<Rightarrow> sel) \<subseteq> set all \<and> (case limit of None \<Rightarrow> True | Some n \<Rightarrow> 1 \<le> n)
       \<and> subseq reports all \<and> (case limit of None \<Rightarrow> True | Some n \<Rightarrow> int (length reports) \<le> n)
       \<and> prefix reports (filter (\<lambda>rep. case selected of None \<Rightarrow> True | Some sel \<Rightarrow> rep \<in> set sel) all)"
proof -
  let ?f = "filter (\<lambda>rep. case selected of None \<Rightarrow> True | Some sel \<Rightarrow> rep \<in> set sel) all"
  have f: "(case selected of None \<Rightarrow> all | Some sel \<Rightarrow> filter (\<lambda>rep. rep \<in> set sel) all) = ?f"
    by (cases selected) simp_all
  have take: "prefix (take n ?f) ?f" "subseq (take n ?f) all" "subseq ?f all" for n
    using subseq_order.trans [OF prefix_imp_subseq [OF take_is_prefix] subseq_filter_left] by (auto simp: take_is_prefix)
  show ?thesis
    using take by (auto simp: resolve_link_reports_def Let_def f filter_empty_conv split: option.splits)
qed

lemma nothing_seeded: "(if b then [] else seed_cache iris []) = []"
  by (simp add: seed_cache_def)

text \<open>C37. The cache and the pre-warming of the link stage make no difference to a client that looks at the
  surface only. The safety link stage, which asks for every span, and the link stage, which caches,
  starting from an empty cache, make the same mentions of the same reports and send the same updates.\<close>

theorem safety_link_agrees:
  assumes "valid_setup su" "\<And>ask. lk_client su = Some ask \<Longrightarrow> by_surface ask"
    and "cmd_link save su segments_of [] reports acc = (st, saved, Inr code)"
    and "run_safety_link su segments_of reports acc = (st', Inr u)"
  shows "sl_artifacts st' = ls_artifacts st \<and> sl_accepted st' = ls_accepted st"
proof -
  let ?acts = "[stable_activity_insert_data, activity_insert_data (lk_run_ts su)]"
  obtain a where a: "send_all (lk_post su) ?acts acc = (a, Inr ())"
      "over_reports (safety_link_document su) segments_of reports \<lparr>sl_accepted = a, sl_artifacts = [], sl_lines = []\<rparr> = (st', Inr ())"
    using assms(4) by (auto simp: run_safety_link_def Let_def simp del: send_all.simps split: prod.splits sum.splits)
  let ?st = "\<lparr>ls_accepted = a, ls_cache = [], ls_artifacts = [], ls_lines = []\<rparr>"
  have docs: "link_documents su segments_of reports ?st = (st, Inr ())"
    using assms(3) a(1) by (auto simp: cmd_link_def Let_def nothing_seeded simp del: send_all.simps split: prod.splits sum.splits)
  note linked = link_documents_Inr [OF assms(1) docs]
  note safety = safety_documents_Inr [OF a(2)]
  have "link_report (with_outcome (lk_run su) (outcome_of (ls_cache st))) segs None =
      link_report (lk_run su\<lparr>disambiguator := lk_client su\<rparr>) segs None" if rs: "(rep, segs) \<in> set (present segments_of reports)" for rep segs
  proof (cases "lk_client su")
    case None
    then have "ls_cache st = []" using linked by simp
    moreover have "outcome_of [] = (\<lambda>_ _. novel)" by (simp add: outcome_of_def fun_eq_iff)
    ultimately show ?thesis using None no_client_novel by simp
  next
    case (Some ask)
    have "holds_answers ask []" by (simp add: holds_answers_def)
    note documents_answers [OF assms(1) Some assms(2) [OF Some] _ docs, simplified, OF this]
    then show ?thesis using outcome_is_answer [OF assms(2) [OF Some]] Some rs by (fastforce simp: list_all_iff)
  qed
  then have arts: "map (\<lambda>(rep, segs). (rep, link_report (with_outcome (lk_run su) (outcome_of (ls_cache st))) segs None)) (present segments_of reports)
    = map (\<lambda>(rep, segs). (rep, link_report (lk_run su\<lparr>disambiguator := lk_client su\<rparr>) segs None)) (present segments_of reports)"
    by auto
  show ?thesis using linked safety unfolding Let_def arts by simp
qed

lemma write_mentions_accepting: "1 \<le> n \<Longrightarrow> \<exists>acc'. write_mentions accepting ms ts n acc = (acc', Inr ())"
  by (simp add: write_mentions_def send_all_accepting Let_def del: send_all.simps)

lemma prewarm_report_ok: "1 \<le> k \<Longrightarrow> \<exists>c1. prewarm_report ask k schedule run segs c = Inr c1"
  by (cases "fst (link_report_st (collector c) run segs []) = []") (simp_all add: prewarm_report_def Let_def)

definition accepting_setup :: link_setup where
  "accepting_setup = sample_setup\<lparr>lk_post := accepting\<rparr>"

lemma safety_link_agrees_witness:
  "\<exists>st saved st'. cmd_link (\<lambda>_. []) accepting_setup (\<lambda>_. Some [Linker.sample_segment]) [] [lit ''ORNL-1''] [] = (st, saved, Inr 0)
     \<and> run_safety_link accepting_setup (\<lambda>_. Some [Linker.sample_segment]) [lit ''ORNL-1''] [] = (st', Inr ())
     \<and> sl_artifacts st' = ls_artifacts st \<and> sl_accepted st' = ls_accepted st"
proof -
  have set: "lk_post accepting_setup = accepting" "lk_client accepting_setup = Some (\<lambda>_ _. novel)"
      "1 \<le> lk_batch_size accepting_setup" "1 \<le> lk_concurrency accepting_setup"
    by (simp_all add: accepting_setup_def sample_setup_def)
  have valid: "valid_setup accepting_setup" by (simp add: valid_setup_def accepting_setup_def sample_setup_def reversed_valid)
  have doc: "\<exists>st'. link_document accepting_setup rep segs st = (st', Inr ())" for rep segs st
  proof -
    obtain c found where pass: "link_pass accepting_setup rep segs (ls_cache st) = Inr (c, found)"
    proof -
      obtain c1 where "prewarm_report (\<lambda>_ _. novel) (lk_concurrency accepting_setup) (lk_schedule accepting_setup rep)
          (lk_run accepting_setup) segs (ls_cache st) = Inr c1"
        using prewarm_report_ok [OF set(4)] by blast
      then have "link_pass accepting_setup rep segs (ls_cache st) =
          Inr (link_report_st (cached_disambiguator (\<lambda>_ _. novel)) (lk_run accepting_setup) segs c1)"
        by (simp add: link_pass_def set(2))
      then show ?thesis using that by (metis prod.exhaust)
    qed
    obtain acc where "write_mentions accepting (linked_mentions_of rep found) (lk_run_ts accepting_setup)
        (lk_batch_size accepting_setup) (ls_accepted st) = (acc, Inr ())"
      using write_mentions_accepting [OF set(3)] by blast
    then show ?thesis using pass by (simp add: link_document_def set(1))
  qed
  have sdoc: "\<exists>st'. safety_link_document accepting_setup rep segs st = (st', Inr ())" for rep segs st
  proof -
    obtain acc where "write_mentions accepting (linked_mentions_of rep
        (link_report (lk_run accepting_setup\<lparr>disambiguator := lk_client accepting_setup\<rparr>) segs None)) (lk_run_ts accepting_setup)
        (lk_batch_size accepting_setup) (sl_accepted st) = (acc, Inr ())"
      using write_mentions_accepting [OF set(3)] by blast
    then show ?thesis by (simp add: safety_link_document_def Let_def set(1))
  qed
  obtain st where st: "link_document accepting_setup (lit ''ORNL-1'') [Linker.sample_segment]
      \<lparr>ls_accepted = [stable_activity_insert_data, activity_insert_data (lk_run_ts accepting_setup)], ls_cache = [],
       ls_artifacts = [], ls_lines = []\<rparr> = (st, Inr ())"
    using doc by blast
  obtain st' where st': "safety_link_document accepting_setup (lit ''ORNL-1'') [Linker.sample_segment]
      \<lparr>sl_accepted = [stable_activity_insert_data, activity_insert_data (lk_run_ts accepting_setup)], sl_artifacts = [],
       sl_lines = []\<rparr> = (st', Inr ())"
    using sdoc by blast
  have 1: "cmd_link (\<lambda>_. []) accepting_setup (\<lambda>_. Some [Linker.sample_segment]) [] [lit ''ORNL-1''] [] = (st, Some [], Inr 0)"
    unfolding cmd_link_def set Let_def send_all_accepting nothing_seeded by (simp add: st)
  have 2: "run_safety_link accepting_setup (\<lambda>_. Some [Linker.sample_segment]) [lit ''ORNL-1''] [] = (st', Inr ())"
    unfolding run_safety_link_def set Let_def send_all_accepting by (simp add: st')
  have "by_surface ask" if "lk_client accepting_setup = Some ask" for ask
    using that set(2) by (auto simp: by_surface_def)
  from safety_link_agrees [OF valid this 1 2] show ?thesis using 1 2 by blast
qed

end
