(* ===== verification/Variants.thy ===== *)
theory Variants
  imports Linker
begin

text \<open>
  \<open>variants.py\<close>: the surface variants of a label, and the patterns \<open>seeding.build_matcher\<close> makes of them.
  \<open>str.lower\<close> is an argument.
\<close>

section \<open>Variants of a label\<close>

definition is_separator :: "nat \<Rightarrow> bool" where
  "is_separator c \<longleftrightarrow> c = 45 \<or> c = 183 \<or> c = 8226"

text \<open>Runs of white space become one space, then the ends are stripped.\<close>

fun collapse_runs :: "pystr \<Rightarrow> pystr" where
  "collapse_runs [] = []"
| "collapse_runs [c] = (if is_space c then [32] else [c])"
| "collapse_runs (c # d # s) = (if is_space c then (if is_space d then collapse_runs (d # s) else 32 # collapse_runs (d # s))
     else c # collapse_runs (d # s))"

definition collapse_whitespace :: "pystr \<Rightarrow> pystr" where
  "collapse_whitespace label = strip (collapse_runs label)"

definition separator_variants :: "pystr \<Rightarrow> pystr list" where
  "separator_variants label = (if \<not> list_ex is_separator label then [label]
     else map (\<lambda>replacement. collapse_whitespace (concat (map (\<lambda>c. if is_separator c then replacement else [c]) label)))
       [lit ''-'', lit '' '', []])"

text \<open>\<open>(?:[A-Z][a-z]?\d*|[sep\s])+\<close> on a whole text: what may come next depends on the character before.\<close>

datatype formula_state = Between | Capital | Inside

fun formula_scan :: "formula_state \<Rightarrow> pystr \<Rightarrow> bool" where
  "formula_scan st [] = True"
| "formula_scan st (c # cs) =
     (if is_upper c then formula_scan Capital cs
      else if is_separator c \<or> is_space c then formula_scan Between cs
      else if is_lower c then st = Capital \<and> formula_scan Inside cs
      else is_digit c \<and> st \<noteq> Between \<and> formula_scan Inside cs)"

definition is_formula_label :: "pystr \<Rightarrow> bool" where
  "is_formula_label label \<longleftrightarrow> label \<noteq> [] \<and> formula_scan Between label"

text \<open>The spans of \<open>(?<=[A-Za-z])\d+\<close>.\<close>

fun subscript_runs :: "nat \<Rightarrow> bool \<Rightarrow> pystr \<Rightarrow> (nat \<times> nat) list" where
  "subscript_runs i after_letter [] = []"
| "subscript_runs i after_letter (c # cs) =
     (if after_letter \<and> is_digit c
      then (i, i + length (takeWhile is_digit (c # cs))) # subscript_runs (Suc i) False cs
      else subscript_runs (Suc i) (is_upper c \<or> is_lower c) cs)"

definition ocr_subscript_variants :: "pystr \<Rightarrow> pystr list" where
  "ocr_subscript_variants label = concat (map (\<lambda>(s, e).
     [take s label @ lit '','' @ drop e label, take s label @ lit ''.'' @ drop e label]) (subscript_runs 0 False label))"

definition variant_bases :: "pystr \<Rightarrow> pystr list" where
  "variant_bases label = (let base = collapse_whitespace label
     in if base = [] then [] else base # (if is_formula_label base then ocr_subscript_variants base else []))"

definition generate_variants :: "(pystr \<Rightarrow> pystr) \<Rightarrow> pystr \<Rightarrow> pystr list" where
  "generate_variants lower label = sorted_list_of_set (set (concat (map (\<lambda>candidate.
     concat (map (\<lambda>variant. [variant, lower variant]) (separator_variants candidate))) (variant_bases label))))"

section \<open>Patterns\<close>

definition matcher_patterns :: "(pystr \<Rightarrow> pystr) \<Rightarrow> known_entity list \<Rightarrow> (pystr \<times> pystr) list" where
  "matcher_patterns lower known = concat (map (\<lambda>entity. concat (map (\<lambda>label.
     map (\<lambda>variant. (variant, ke_target_iri entity)) (filter (\<lambda>v. v \<noteq> []) (generate_variants lower label)))
     (ke_labels entity))) (sort_key ke_target_iri known))"

section \<open>Facts\<close>

lemma set_generate_variants: "set (generate_variants lower label) =
  (\<Union>b \<in> set (variant_bases label). \<Union>v \<in> set (separator_variants b). {v, lower v})"
  by (auto simp: generate_variants_def)

text \<open>Single spaces: no two white spaces in a row, and white space is a space.\<close>

fun single_spaced :: "pystr \<Rightarrow> bool" where
  "single_spaced [] = True"
| "single_spaced [c] = (is_space c \<longrightarrow> c = 32)"
| "single_spaced (c # d # s) = ((is_space c \<longrightarrow> c = 32 \<and> \<not> is_space d) \<and> single_spaced (d # s))"

lemma collapse_runs_single: "single_spaced s \<Longrightarrow> collapse_runs s = s"
  by (induction s rule: single_spaced.induct) auto

lemma hd_collapse_runs: "s \<noteq> [] \<Longrightarrow> collapse_runs s \<noteq> [] \<and> (is_space (hd (collapse_runs s)) \<longleftrightarrow> is_space (hd s))"
  by (induction s rule: collapse_runs.induct) (auto simp: is_space_def)

lemma single_collapse_runs: "single_spaced (collapse_runs s)"
proof (induction s rule: collapse_runs.induct)
  case (3 c d s)
  obtain x xs where x: "collapse_runs (d # s) = x # xs" "is_space x \<longleftrightarrow> is_space d"
    using hd_collapse_runs [of "d # s"] by (cases "collapse_runs (d # s)") auto
  then show ?case using 3 by auto
qed simp_all

lemma single_spaced_tl: "single_spaced (c # s) \<Longrightarrow> single_spaced s"
  by (cases s) auto

lemma single_spaced_append: "single_spaced (s @ t) \<Longrightarrow> single_spaced s \<and> single_spaced t"
proof (induction s)
  case (Cons c s)
  then have "single_spaced s \<and> single_spaced t" using single_spaced_tl [of c "s @ t"] by simp
  then show ?case using Cons.prems by (cases s; cases t) auto
qed simp

lemma single_spaced_sublist:
  assumes "single_spaced s" "sublist t s"
  shows "single_spaced t"
proof -
  obtain ps ss where "s = ps @ t @ ss" using assms(2) unfolding sublist_def by blast
  then have "single_spaced (t @ ss)" using single_spaced_append [of ps "t @ ss"] assms(1) by simp
  then show ?thesis using single_spaced_append [of t ss] by blast
qed

lemma strip_sublist: "sublist (strip s) s"
proof -
  have "suffix (dropWhile is_space s) s" by (rule suffix_dropWhile)
  moreover have "prefix (rev (dropWhile is_space (rev t))) t" for t :: pystr
    using suffix_dropWhile [of is_space "rev t"] by (simp add: suffix_to_prefix)
  ultimately show ?thesis unfolding strip_def strip_by_def
    by (meson prefix_imp_sublist suffix_imp_sublist sublist_order.order.trans)
qed


lemma single_collapse_whitespace: "single_spaced (collapse_whitespace s)"
  unfolding collapse_whitespace_def by (rule single_spaced_sublist [OF single_collapse_runs strip_sublist])

lemma strip_strip: "strip (strip s) = strip s"
  unfolding strip_def by (rule strip_by_id) (rule strip_by_ends)

lemma collapse_whitespace_idem: "collapse_whitespace (collapse_whitespace s) = collapse_whitespace s"
  using collapse_runs_single [OF single_collapse_whitespace [of s]]
  by (simp add: collapse_whitespace_def strip_strip)

text \<open>The collapsed label is one of its separator variants unless it has a dot among its separators.\<close>

lemma label_is_variant:
  assumes "183 \<notin> set base" "8226 \<notin> set base" "base = collapse_whitespace label"
  shows "base \<in> set (separator_variants base)"
proof -
  have "concat (map (\<lambda>c. if is_separator c then lit ''-'' else [c]) s) = s" if "183 \<notin> set s" "8226 \<notin> set s" for s
    using that by (induction s) (auto simp: is_separator_def lit_def)
  then show ?thesis using assms collapse_whitespace_idem [of label] by (auto simp: separator_variants_def)
qed

lemma no_label_variants:
  assumes "c \<in> {183, 8226}" "v \<in> set (separator_variants b)"
  shows "c \<notin> set v"
proof (cases "list_ex is_separator b")
  case True
  have sub: "c \<notin> set (collapse_whitespace s)" if "c \<notin> set s" for s
  proof -
    have "set (collapse_runs s) \<subseteq> insert 32 (set s)" by (induction s rule: collapse_runs.induct) auto
    moreover have "set (strip (collapse_runs s)) \<subseteq> set (collapse_runs s)"
      using strip_sublist set_mono_sublist by blast
    ultimately show ?thesis using that assms(1) unfolding collapse_whitespace_def by auto
  qed
  have "c \<notin> set (concat (map (\<lambda>x. if is_separator x then r else [x]) b))" if "c \<notin> set r" for r
    using that assms(1) by (auto simp: is_separator_def split: if_splits)
  then have gone: "c \<notin> set (collapse_whitespace (concat (map (\<lambda>x. if is_separator x then r else [x]) b)))" if "c \<notin> set r" for r
    using sub that by blast
  obtain r where "r \<in> {lit ''-'', lit '' '', []}" "v = collapse_whitespace (concat (map (\<lambda>x. if is_separator x then r else [x]) b))"
    using assms(2) True by (auto simp: separator_variants_def simp del: set_concat)
  moreover from this(1) have "c \<notin> set r" using assms(1) by (auto simp: lit_def)
  ultimately show ?thesis using gone by blast
next
  case False
  then show ?thesis using assms by (auto simp: separator_variants_def is_separator_def list_ex_iff)
qed


section \<open>Properties\<close>

lemma patterns_indexed:
  assumes "(v, i) \<in> set (matcher_patterns lower known)"
  shows "v \<noteq> [] \<and> (\<exists>entity \<in> set known. ke_target_iri entity = i
    \<and> (\<exists>label \<in> set (ke_labels entity). v \<in> set (generate_variants lower label)))"
  using assms by (auto simp: matcher_patterns_def)

lemma fold_index_dom:
  "dom (fold (\<lambda>en index. index(ke_target_iri en \<mapsto> (ke_target_iri en, ke_kind en))) ks index) =
   dom index \<union> ke_target_iri ` set ks"
  by (induction ks arbitrary: index) auto

lemma patterns_have_targets:
  "(v, i) \<in> set (matcher_patterns lower known) \<Longrightarrow> build_target_index known i \<noteq> None"
  using patterns_indexed [of v i lower known] fold_index_dom [of "sort_key ke_target_iri known" Map.empty]
  by (auto simp: build_target_index_def dom_def set_eq_iff image_iff)

text \<open>
  \<open>build_matcher\<close>: the ruler's engine (spaCy) is an argument that is given the patterns. With an engine
  whose entities carry the ids of its patterns, \<open>match\<close> drops no entity, and reports each under the IRI and
  the kind of an entity of the graph.
\<close>

definition build_matcher :: "((pystr \<times> pystr) list \<Rightarrow> pystr \<Rightarrow> ent list) \<Rightarrow> (pystr \<Rightarrow> pystr) \<Rightarrow> known_entity list \<Rightarrow> seeded_matcher" where
  "build_matcher ruler lower known =
     \<lparr>target_index = build_target_index known, nlp = ruler (matcher_patterns lower known)\<rparr>"

lemma build_matcher_matches:
  assumes "list_all (\<lambda>e. ent_id e \<in> snd ` set (matcher_patterns lower known)) (ruler (matcher_patterns lower known) t)"
  shows "length (seeded_match (build_matcher ruler lower known) t) = length (ruler (matcher_patterns lower known) t)
    \<and> list_all (\<lambda>m. list_ex (\<lambda>en. m_target_iri m = ke_target_iri en \<and> m_kind m = ke_kind en) known)
        (seeded_match (build_matcher ruler lower known) t)"
proof
  let ?es = "ruler (matcher_patterns lower known) t"
  have "to_match (build_target_index known) e \<noteq> None" if "e \<in> set ?es" for e
    using assms that patterns_have_targets by (fastforce simp: list_all_iff to_match_def split: option.splits)
  then have "length (List.map_filter (to_match (build_target_index known)) ?es) = length ?es"
    by (simp add: List.map_filter_def)
  then show "length (seeded_match (build_matcher ruler lower known) t) = length ?es"
    by (simp add: seeded_match_def build_matcher_def)
  have "list_ex (\<lambda>en. m_target_iri m = ke_target_iri en \<and> m_kind m = ke_kind en) known"
    if "to_match (build_target_index known) e = Some m" for e m
    using that build_target_index_known by (fastforce simp: to_match_def list_ex_iff split: option.splits)
  then show "list_all (\<lambda>m. list_ex (\<lambda>en. m_target_iri m = ke_target_iri en \<and> m_kind m = ke_kind en) known)
      (seeded_match (build_matcher ruler lower known) t)"
    by (auto simp: seeded_match_def build_matcher_def list_all_iff List.map_filter_def)
qed

text \<open>Variants of a label. They are sorted, without repetitions, closed under \<open>lower\<close>,
  and free of the dots that stand for a hyphen in OCR text. The collapsed label itself is among them
  exactly when it is not empty and has no such dot: the documented promise that the original label is
  always included fails for the labels the separator variants were made for. Relied on: \<open>str.lower\<close>
  makes no dots and changes nothing the second time.\<close>

theorem generate_variants_original:
  assumes "\<And>s c. c \<in> {183, 8226} \<Longrightarrow> c \<notin> set s \<Longrightarrow> c \<notin> set (lower s)" "\<And>s. lower (lower s) = lower s"
  shows "(collapse_whitespace label \<in> set (generate_variants lower label) \<longleftrightarrow>
      collapse_whitespace label \<noteq> [] \<and> set (collapse_whitespace label) \<inter> {183, 8226} = {})
    \<and> sorted (generate_variants lower label) \<and> distinct (generate_variants lower label)
    \<and> list_all (\<lambda>v. lower v \<in> set (generate_variants lower label) \<and> set v \<inter> {183, 8226} = {}) (generate_variants lower label)"
proof -
  let ?base = "collapse_whitespace label" and ?vs = "generate_variants lower label"
  have dotless: "set v \<inter> {183, 8226} = {} \<and> lower v \<in> set ?vs" if v: "v \<in> set ?vs" for v
  proof -
    obtain b w where w: "b \<in> set (variant_bases label)" "w \<in> set (separator_variants b)" "v \<in> {w, lower w}"
      using v by (auto simp: set_generate_variants)
    have "c \<notin> set w" if "c \<in> {183, 8226}" for c using no_label_variants [OF that w(2)] .
    then have "c \<notin> set v" if "c \<in> {183, 8226}" for c using w(3) that assms(1) by auto
    moreover have "lower v \<in> set ?vs" using w assms(2) by (auto simp: set_generate_variants)
    ultimately show ?thesis by blast
  qed
  have "?base \<in> set ?vs" if "?base \<noteq> []" "set ?base \<inter> {183, 8226} = {}"
  proof -
    have "?base \<in> set (variant_bases label)" using that(1) by (simp add: variant_bases_def Let_def)
    moreover have "?base \<in> set (separator_variants ?base)" using that(2) by (intro label_is_variant [OF _ _ refl]) auto
    ultimately show ?thesis by (auto simp: set_generate_variants)
  qed
  moreover have "?base \<noteq> []" if "?base \<in> set ?vs"
  proof
    assume e: "?base = []"
    then have "set ?vs = {}" unfolding set_generate_variants by (simp add: variant_bases_def)
    then show False using that by simp
  qed
  ultimately show ?thesis using dotless by (auto simp: list_all_iff generate_variants_def)
qed

lemma lower_char_dots: "c \<in> {183, 8226} \<Longrightarrow> c \<noteq> d \<Longrightarrow> c \<notin> set (lower_char d)"
  by (auto simp: lower_char_def is_upper_def)

lemma lower_ascii_dots: "c \<in> {183, 8226} \<Longrightarrow> c \<notin> set s \<Longrightarrow> c \<notin> set (lower_ascii s)"
proof (induction s)
  case (Cons d s)
  then show ?case using lower_char_dots [of c d] by (auto simp: lower_ascii_def)
qed (simp add: lower_ascii_def)

lemma lower_ascii_twice: "lower_ascii (lower_ascii s) = lower_ascii s"
  by (induction s) (auto simp: lower_ascii_def lower_char_def is_upper_def)

lemma generate_variants_original_witness:
  "lit ''LiF-BeF2'' \<in> set (generate_variants lower_ascii (lit ''LiF-BeF2''))
   \<and> lit ''LiF'' @ [183] @ lit ''BeF2'' \<notin> set (generate_variants lower_ascii (lit ''LiF'' @ [183] @ lit ''BeF2''))"
proof -
  have "collapse_whitespace (lit ''LiF-BeF2'') = lit ''LiF-BeF2''"
    "collapse_whitespace (lit ''LiF'' @ [183] @ lit ''BeF2'') = lit ''LiF'' @ [183] @ lit ''BeF2''"
    by (simp_all add: collapse_whitespace_def lit_def is_space_def strip_def strip_by_def)
  moreover have "set (lit ''LiF-BeF2'') \<inter> {183, 8226} = {}" "lit ''LiF-BeF2'' \<noteq> []" by (simp_all add: lit_def)
  ultimately show ?thesis
    using generate_variants_original [of lower_ascii "lit ''LiF-BeF2''", OF lower_ascii_dots lower_ascii_twice]
      generate_variants_original [of lower_ascii "lit ''LiF'' @ [183] @ lit ''BeF2''", OF lower_ascii_dots lower_ascii_twice]
    by auto
qed

end
