(* ===== verification/Signals.thy ===== *)
theory Signals
  imports Triage
begin

text \<open>
  \<open>signal_kind\<close> of \<open>triage.py\<close>: the context hint of a candidate, with its five patterns. A search
  only asks whether a pattern occurs, so the matcher here knows alternation and \<open>\\b\<close> but neither
  captures nor an order of preference. What \<open>\\w\<close> matches (a Unicode table of the interpreter) is an
  argument.
\<close>

section \<open>Patterns with word boundaries\<close>

datatype sx =
    One "nat \<Rightarrow> bool"
  | Nothing
  | Bound
  | Seq sx sx
  | Alt sx sx
  | Many sx

text \<open>A position: whether the character prev it is a word character, and the text after it.\<close>

type_synonym position = "bool \<times> pystr"

definition boundary :: "(nat \<Rightarrow> bool) \<Rightarrow> position \<Rightarrow> bool" where
  "boundary wordc = (\<lambda>(prev, s). prev \<noteq> (s \<noteq> [] \<and> wordc (hd s)))"

fun many_iter :: "nat \<Rightarrow> (position \<Rightarrow> position list) \<Rightarrow> position \<Rightarrow> position list" where
  "many_iter 0 f p = [p]"
| "many_iter (Suc n) f p = p # concat (map (\<lambda>q. if length (snd q) < length (snd p) then many_iter n f q else []) (f p))"

primrec stops :: "(nat \<Rightarrow> bool) \<Rightarrow> sx \<Rightarrow> position \<Rightarrow> position list" where
  "stops wordc (One c) = (\<lambda>(prev, s). case s of [] \<Rightarrow> [] | x # xs \<Rightarrow> if c x then [(wordc x, xs)] else [])"
| "stops wordc Nothing = (\<lambda>p. [p])"
| "stops wordc Bound = (\<lambda>p. if boundary wordc p then [p] else [])"
| "stops wordc (Seq r q) = (\<lambda>p. concat (map (stops wordc q) (stops wordc r p)))"
| "stops wordc (Alt r q) = (\<lambda>p. stops wordc r p @ stops wordc q p)"
| "stops wordc (Many r) = (\<lambda>p. many_iter (length (snd p)) (stops wordc r) p)"

fun occurs :: "(nat \<Rightarrow> bool) \<Rightarrow> sx \<Rightarrow> position \<Rightarrow> bool" where
  "occurs wordc r (prev, []) = (stops wordc r (prev, []) \<noteq> [])"
| "occurs wordc r (prev, c # cs) = (stops wordc r (prev, c # cs) \<noteq> [] \<or> occurs wordc r (wordc c, cs))"

definition pattern_found :: "(nat \<Rightarrow> bool) \<Rightarrow> sx \<Rightarrow> pystr \<Rightarrow> bool" where
  "pattern_found wordc r s = occurs wordc r (False, s)"

section \<open>The patterns\<close>

fun Seqs :: "sx list \<Rightarrow> sx" where
  "Seqs [] = Nothing"
| "Seqs [r] = r"
| "Seqs (r # rs) = Seq r (Seqs rs)"

fun Alts :: "sx list \<Rightarrow> sx" where
  "Alts [] = One (\<lambda>_. False)"
| "Alts [r] = r"
| "Alts (r # rs) = Alt r (Alts rs)"

fun Within :: "nat \<Rightarrow> sx \<Rightarrow> sx" where
  "Within 0 r = Nothing"
| "Within (Suc n) r = Alt Nothing (Seq r (Within n r))"

definition Maybe :: "sx \<Rightarrow> sx" where "Maybe r = Alt Nothing r"
definition Some_of :: "sx \<Rightarrow> sx" where "Some_of r = Seq r (Many r)"

text \<open>
  \<open>re.IGNORECASE\<close> on text: a letter matches both its cases, and \<open>i\<close>, \<open>k\<close> and \<open>s\<close> also the dotted and the
  dotless i, the Kelvin sign and the long s. Pattern letters are given in lower case.
\<close>

definition same_letter :: "nat \<Rightarrow> nat \<Rightarrow> bool" where
  "same_letter c x \<longleftrightarrow> x = c \<or> is_lower c \<and> (x = c - 32 \<or> c = 105 \<and> x \<in> {304, 305} \<or> c = 107 \<and> x = 8490 \<or> c = 115 \<and> x = 383)"

definition Caseless :: "pystr \<Rightarrow> sx" where
  "Caseless s = Seqs (map (\<lambda>c. One (same_letter c)) s)"

definition word_sx :: "(nat \<Rightarrow> bool) \<Rightarrow> sx" where "word_sx wordc = One wordc"
definition blanks :: sx where "blanks = Many (One is_space)"

definition NUMBER_TOKEN :: sx where
  "NUMBER_TOKEN = Seq (One is_digit) (Many (One (\<lambda>c. is_digit c \<or> c = 46 \<or> c = 44)))"

definition UNIT_TOKEN :: "(nat \<Rightarrow> bool) \<Rightarrow> sx" where
  "UNIT_TOKEN wordc = (let blank = Maybe (One is_space); percent = One (\<lambda>c. c = 37) in Alts
     [Seqs [Caseless (lit ''mole''), blank, percent],
      Seqs [Caseless (lit ''wt''), blank, percent],
      Seqs [Caseless (lit ''mol''), blank, percent],
      Seqs [Caseless (lit ''atom''), Maybe (Caseless (lit ''s'')), blank, percent],
      Caseless (lit ''ppm''),
      Seqs [Caseless (lit ''g/cm''), Many (One wordc)],
      Caseless (lit ''mg/''),
      Seqs [Caseless (lit ''mole''), Maybe (Caseless (lit ''s'')), Caseless (lit ''/'')],
      Caseless (lit ''mol/''),
      Seqs [Maybe (Caseless (lit ''m'')), Caseless (lit ''pa''), Bound],
      Seqs [Maybe (One (\<lambda>c. c = 176)), Caseless (lit ''c''), Bound],
      Seqs [Maybe (One (\<lambda>c. c = 176)), Caseless (lit ''k''), Bound],
      Caseless (lit ''kj/''),
      Caseless (lit ''cal/''),
      Seqs [Maybe (One (\<lambda>c. c = 215)), Caseless (lit ''10''), blanks, Maybe (Caseless (lit ''-'')), One is_digit],
      Seqs [Caseless (lit ''x''), blank, Caseless (lit ''10'')]])"

definition PROPERTY_RE :: "(nat \<Rightarrow> bool) \<Rightarrow> sx" where
  "PROPERTY_RE wordc = Seqs [NUMBER_TOKEN, blanks, UNIT_TOKEN wordc]"

definition FORMULA_RE :: sx where
  "FORMULA_RE = Seqs [One is_upper, Maybe (One is_lower), One is_digit]"

definition reactor_names :: "pystr list" where
  "reactor_names = [lit ''msre'', lit ''msbr'', lit ''are'', lit ''reactor'']"

definition REACTOR_RE :: sx where
  "REACTOR_RE = Seqs [Bound, Alts (map Caseless reactor_names), Bound]"

definition CLASS_RE :: "(nat \<Rightarrow> bool) \<Rightarrow> sx" where
  "CLASS_RE wordc = (let any = One (\<lambda>_. True); graphite = Caseless (lit ''graphite''); moderat = Caseless (lit ''moderat'') in Alts
     [Seqs [graphite, Within 60 any, moderat, Many (One wordc)],
      Seqs [moderat, Many (One wordc), Within 60 any, graphite],
      Seqs [Bound, Caseless (lit ''moderator''), Bound],
      Seqs [Caseless (lit ''constructed''), Some_of (One is_space), Caseless (lit ''of''), Bound],
      Seqs [Bound, Caseless (lit ''moderated''), Bound]])"

definition RELATION_RE :: "(nat \<Rightarrow> bool) \<Rightarrow> sx" where
  "RELATION_RE wordc = Alts
     [Seqs [Some_of (One wordc), Caseless (lit ''-moderated''), Bound],
      Seqs [Caseless (lit ''moderated''), Some_of (One is_space), Caseless (lit ''by''), Some_of (One is_space), Some_of (One wordc)]]"

section \<open>The hint\<close>

definition evidence_text :: "mined \<Rightarrow> pystr" where
  "evidence_text candidate = join (lit '' '') (map ev_sentence_text (ca_evidence candidate))"

definition signal_kind :: "(nat \<Rightarrow> bool) \<Rightarrow> mined \<Rightarrow> pystr option" where
  "signal_kind wordc candidate = (let s = evidence_text candidate in
     if pattern_found wordc (PROPERTY_RE wordc) s then Some (lit ''property'')
     else if pattern_found wordc FORMULA_RE s \<or> pattern_found wordc REACTOR_RE s \<or> ca_source candidate = lit ''miss''
       then Some (lit ''instance'')
     else if pattern_found wordc (CLASS_RE wordc) s then Some (lit ''class'')
     else if pattern_found wordc (RELATION_RE wordc) s then Some (lit ''relation'')
     else None)"

section \<open>The targets of the evolution demo\<close>

text \<open>\<open>detect_evolution_targets\<close> of \<open>curated.py\<close>: the same kind of search in the text of the curated reports.\<close>

definition SOLUBILITY_UNIT_TOKEN :: sx where
  "SOLUBILITY_UNIT_TOKEN = (let blank = Maybe (One is_space); percent = One (\<lambda>c. c = 37) in Alts
     [Seqs [Caseless (lit ''mole''), blank, percent],
      Seqs [Caseless (lit ''wt''), blank, percent],
      Seqs [Caseless (lit ''mol''), blank, percent],
      Seqs [Caseless (lit ''atom''), Maybe (Caseless (lit ''s'')), blank, percent],
      Caseless (lit ''ppm''),
      Caseless (lit ''g/''),
      Caseless (lit ''mg/''),
      Seqs [Caseless (lit ''mole''), Maybe (Caseless (lit ''s'')), Caseless (lit ''/'')],
      Caseless (lit ''mol/''),
      Seqs [Maybe (One (\<lambda>c. c = 215)), Caseless (lit ''10''), blanks, Maybe (Caseless (lit ''-'')), One is_digit],
      Seqs [Caseless (lit ''x''), blank, Caseless (lit ''10'')]])"

definition SOLUBILITY_RE :: "(nat \<Rightarrow> bool) \<Rightarrow> sx" where
  "SOLUBILITY_RE wordc = (let any = One (\<lambda>_. True); solubility = Seq (Caseless (lit ''solubilit'')) (Many (One wordc)) in Alt
     (Seqs [solubility, Within 80 any, NUMBER_TOKEN, blanks, SOLUBILITY_UNIT_TOKEN])
     (Seqs [NUMBER_TOKEN, blanks, SOLUBILITY_UNIT_TOKEN, Within 80 any, solubility]))"

definition GRAPHITE_MODERATOR_RE :: "(nat \<Rightarrow> bool) \<Rightarrow> sx" where
  "GRAPHITE_MODERATOR_RE wordc = (let any = One (\<lambda>_. True); graphite = Caseless (lit ''graphite'');
       moderate = Seqs [Caseless (lit ''moderat''),
         Alts [Caseless (lit ''or''), Caseless (lit ''ing''), Caseless (lit ''es''), Caseless (lit ''e'')], Many (One wordc)] in Alt
     (Seqs [graphite, Within 60 any, moderate])
     (Seqs [moderate, Within 60 any, graphite]))"

definition detect_evolution_targets :: "(nat \<Rightarrow> bool) \<Rightarrow> pystr \<Rightarrow> (string \<times> bool) list" where
  "detect_evolution_targets wordc s =
     [(''solubility'', pattern_found wordc (SOLUBILITY_RE wordc) s),
      (''graphite_moderator'', pattern_found wordc (GRAPHITE_MODERATOR_RE wordc) s)]"

section \<open>What a match is\<close>

text \<open>The language of a pattern between two positions, as an inductive relation.\<close>

inductive spans :: "(nat \<Rightarrow> bool) \<Rightarrow> sx \<Rightarrow> position \<Rightarrow> position \<Rightarrow> bool" for wordc where
  one: "c x \<Longrightarrow> spans wordc (One c) (prev, x # xs) (wordc x, xs)"
| nothing: "spans wordc Nothing p p"
| bound: "boundary wordc p \<Longrightarrow> spans wordc Bound p p"
| seq: "spans wordc r p q \<Longrightarrow> spans wordc r' q t \<Longrightarrow> spans wordc (Seq r r') p t"
| alt1: "spans wordc r p q \<Longrightarrow> spans wordc (Alt r r') p q"
| alt2: "spans wordc r' p q \<Longrightarrow> spans wordc (Alt r r') p q"
| many_end: "spans wordc (Many r) p p"
| many_step: "spans wordc r p q \<Longrightarrow> spans wordc (Many r) q t \<Longrightarrow> spans wordc (Many r) p t"

inductive_cases spansE:
  "spans wordc (One c) p q" "spans wordc Nothing p q" "spans wordc Bound p q"
  "spans wordc (Seq r r') p q" "spans wordc (Alt r r') p q"

inductive_simps spans_simps [simp]:
  "spans wordc (One c) p q" "spans wordc Nothing p q" "spans wordc Bound p q"
  "spans wordc (Seq r r') p q" "spans wordc (Alt r r') p q"

lemma many_iter_sound:
  assumes "\<And>p q. q \<in> set (f p) \<Longrightarrow> spans wordc r p q"
  shows "t \<in> set (many_iter n f p) \<Longrightarrow> spans wordc (Many r) p t"
proof (induction n arbitrary: p)
  case (Suc n)
  then consider "t = p" | q where "q \<in> set (f p)" "t \<in> set (many_iter n f q)" by (auto split: if_splits)
  then show ?case using assms Suc.IH by cases (simp add: many_end, blast intro: many_step)
qed (simp add: many_end)

lemma stops_sound: "q \<in> set (stops wordc r p) \<Longrightarrow> spans wordc r p q"
proof (induction r arbitrary: p q)
  case (Seq r r')
  from Seq.prems obtain t where "t \<in> set (stops wordc r p)" "q \<in> set (stops wordc r' t)" by (auto simp only: stops.simps set_concat set_map)
  then show ?case using Seq.IH by (blast intro: seq)
next
  case (Many r)
  then show ?case using many_iter_sound [of "stops wordc r"] by simp
qed (auto split: list.splits if_splits intro: spans.intros)

lemma spans_shrinks: "spans wordc r p q \<Longrightarrow> p = q \<or> length (snd q) < length (snd p)"
  by (induction rule: spans.induct) auto

lemma many_iter_complete:
  assumes "spans wordc (Many r) p t" "length (snd p) \<le> n" "\<And>p q. spans wordc r p q \<Longrightarrow> q \<in> set (f p)"
  shows "t \<in> set (many_iter n f p)"
  using assms
proof (induction "Many r" p t arbitrary: n rule: spans.induct)
  case (many_end p)
  then show ?case by (cases n) auto
next
  case (many_step p q t)
  show ?case
  proof (cases "q = p")
    case True
    then show ?thesis using many_step by simp
  next
    case False
    then have lt: "length (snd q) < length (snd p)" using spans_shrinks many_step(1) by metis
    then obtain m where m: "n = Suc m" "length (snd q) \<le> m" using many_step.prems(1) by (cases n) auto
    then have "t \<in> set (many_iter m f q)" using many_step by blast
    moreover have "q \<in> set (f p)" using many_step by blast
    ultimately show ?thesis using lt unfolding m by (auto simp: image_iff intro!: bexI [of _ q])
  qed
qed

lemma stops_complete: "spans wordc r p q \<Longrightarrow> q \<in> set (stops wordc r p)"
proof (induction r arbitrary: p q)
  case (Seq r r')
  from Seq.prems obtain t where "spans wordc r p t" "spans wordc r' t q" by (blast elim: spansE)
  then have "t \<in> set (stops wordc r p)" "q \<in> set (stops wordc r' t)" using Seq.IH by blast+
  then show ?case unfolding stops.simps set_concat set_map by blast
next
  case (Many r)
  then show ?case using many_iter_complete [of wordc r p q "length (snd p)" "stops wordc r"] by simp
qed (auto elim!: spansE)

lemma stops_iff: "q \<in> set (stops wordc r p) \<longleftrightarrow> spans wordc r p q"
  using stops_sound stops_complete by blast

text \<open>The position reached after reading \<open>u\<close>.\<close>

definition after :: "(nat \<Rightarrow> bool) \<Rightarrow> bool \<Rightarrow> pystr \<Rightarrow> bool" where
  "after wordc prev u = (if u = [] then prev else wordc (last u))"

lemma after_simps [simp]: "after wordc prev [] = prev" "after wordc prev (c # u) = after wordc (wordc c) u"
  by (simp_all add: after_def)

lemma split_Cons: "(\<exists>u v q. c # cs = u @ v \<and> P u v q) \<longleftrightarrow> (\<exists>q. P [] (c # cs) q) \<or> (\<exists>u v q. cs = u @ v \<and> P (c # u) v q)"
  unfolding Cons_eq_append_conv by blast

lemma stops_some: "stops wordc r p \<noteq> [] \<longleftrightarrow> (\<exists>q. spans wordc r p q)"
  unfolding stops_iff [symmetric] by (metis list.set_intros(1) list.exhaust empty_iff list.set(1))

lemma occurs_iff: "occurs wordc r (prev, s) \<longleftrightarrow> (\<exists>u v q. s = u @ v \<and> spans wordc r (after wordc prev u, v) q)"
proof (induction s arbitrary: prev)
  case Nil
  show ?case unfolding occurs.simps stops_some by (simp add: after_def)
next
  case (Cons c cs)
  have "(\<exists>u v q. c # cs = u @ v \<and> spans wordc r (after wordc prev u, v) q)
    \<longleftrightarrow> (\<exists>q. spans wordc r (prev, c # cs) q) \<or> (\<exists>u v q. cs = u @ v \<and> spans wordc r (after wordc (wordc c) u, v) q)"
    unfolding split_Cons by (simp only: after_simps)
  then show ?case unfolding occurs.simps stops_some Cons.IH by simp
qed

section \<open>Names and formulas\<close>

definition same_letters :: "pystr \<Rightarrow> pystr \<Rightarrow> bool" where
  "same_letters name u \<longleftrightarrow> list_all2 same_letter name u"

lemma spans_Caseless:
  "name \<noteq> [] \<Longrightarrow> spans wordc (Caseless name) (prev, s) q
    \<longleftrightarrow> (\<exists>u. same_letters name u \<and> s = u @ snd q \<and> fst q = after wordc prev u)"
proof (induction name arbitrary: prev s)
  case (Cons c name)
  show ?case
  proof (cases "name = []")
    case True
    then show ?thesis by (cases q) (auto simp: Caseless_def same_letters_def list_all2_Cons1)
  next
    case False
    then have "Caseless (c # name) = Seq (One (same_letter c)) (Caseless name)"
      by (cases name) (simp_all add: Caseless_def)
    then show ?thesis using Cons.IH False by (fastforce simp: same_letters_def list_all2_Cons1)
  qed
qed simp

lemma spans_Alts: "rs \<noteq> [] \<Longrightarrow> spans wordc (Alts rs) p q \<longleftrightarrow> (\<exists>r \<in> set rs. spans wordc r p q)"
  by (induction rs rule: Alts.induct) auto

text \<open>A reactor is named: the letters of a name in any case, at word boundaries on both sides.\<close>

definition names_reactor :: "(nat \<Rightarrow> bool) \<Rightarrow> pystr \<Rightarrow> bool" where
  "names_reactor wordc s \<longleftrightarrow> (\<exists>x u y name. s = x @ u @ y \<and> name \<in> set reactor_names \<and> same_letters name u
     \<and> boundary wordc (after wordc False x, u @ y) \<and> boundary wordc (after wordc False (x @ u), y))"

lemma after_append: "after wordc (after wordc prev x) u = after wordc prev (x @ u)"
  by (simp add: after_def)

lemma reactor_found: "pattern_found wordc REACTOR_RE s \<longleftrightarrow> names_reactor wordc s"
proof -
  have "\<forall>n \<in> set reactor_names. n \<noteq> []" "reactor_names \<noteq> []" by (simp_all add: reactor_names_def lit_def)
  then have names: "spans wordc (Alts (map Caseless reactor_names)) (prev, v) q \<longleftrightarrow>
      (\<exists>name \<in> set reactor_names. \<exists>u. same_letters name u \<and> v = u @ snd q \<and> fst q = after wordc prev u)" for prev v q
    by (simp add: spans_Alts spans_Caseless)
  have ends: "spans wordc REACTOR_RE p q \<longleftrightarrow>
      boundary wordc p \<and> spans wordc (Alts (map Caseless reactor_names)) p q \<and> boundary wordc q" for p q
    unfolding REACTOR_RE_def by (cases p; cases q) (simp; blast)
  show ?thesis
  proof
    assume "pattern_found wordc REACTOR_RE s"
    then obtain x v q where "s = x @ v" "spans wordc REACTOR_RE (after wordc False x, v) q"
      unfolding pattern_found_def occurs_iff by blast
    moreover obtain t y where q: "q = (t, y)" by (rule prod.exhaust)
    ultimately obtain name u where u: "v = u @ y" "name \<in> set reactor_names" "same_letters name u"
        "boundary wordc (after wordc False x, v)" "t = after wordc False (x @ u)" "boundary wordc (t, y)"
      unfolding ends names q fst_conv snd_conv after_append by blast
    then show "names_reactor wordc s" unfolding names_reactor_def \<open>s = x @ v\<close> by blast
  next
    assume "names_reactor wordc s"
    then obtain x u y name where split: "s = x @ u @ y" "name \<in> set reactor_names" "same_letters name u"
      and bounds: "boundary wordc (after wordc False x, u @ y)" "boundary wordc (after wordc False (x @ u), y)"
      unfolding names_reactor_def by blast
    have "spans wordc REACTOR_RE (after wordc False x, u @ y) (after wordc False (x @ u), y)"
      unfolding ends names using split bounds by (auto simp: after_append)
    then show "pattern_found wordc REACTOR_RE s" unfolding pattern_found_def occurs_iff using split(1) by blast
  qed
qed

text \<open>The shape of a formula: a capital, perhaps a small letter, a digit.\<close>

fun begins_with :: "(nat \<Rightarrow> bool) \<Rightarrow> pystr \<Rightarrow> bool" where
  "begins_with c [] = False"
| "begins_with c (x # xs) = c x"

fun formula_shape :: "pystr \<Rightarrow> bool" where
  "formula_shape [] = False"
| "formula_shape (e # s) \<longleftrightarrow>
     is_upper e \<and> (begins_with is_digit s \<or> begins_with is_lower s \<and> begins_with is_digit (tl s)) \<or> formula_shape s"

lemma formula_here:
  "stops wordc FORMULA_RE (prev, e # s) \<noteq> [] \<longleftrightarrow>
     is_upper e \<and> (begins_with is_digit s \<or> begins_with is_lower s \<and> begins_with is_digit (tl s))"
  "stops wordc FORMULA_RE (prev, []) = []"
  by (cases s; cases "tl s"; simp add: FORMULA_RE_def Maybe_def) (simp add: FORMULA_RE_def)

lemma formula_found: "pattern_found wordc FORMULA_RE s \<longleftrightarrow> formula_shape s"
proof -
  have "occurs wordc FORMULA_RE (prev, s) \<longleftrightarrow> formula_shape s" for prev
    by (induction s arbitrary: prev) (simp_all add: formula_here)
  then show ?thesis by (simp add: pattern_found_def)
qed

text \<open>
  The hint is one of four kinds or none; a text without a number that a unit follows is an instance
  exactly when it names a reactor, has the shape of a formula in it, or the candidate is a miss.
\<close>

lemma signal_kind_cases:
  "signal_kind wordc candidate \<in> {None, Some (lit ''property''), Some (lit ''instance''), Some (lit ''class''), Some (lit ''relation'')}"
  by (auto simp: signal_kind_def Let_def)

lemma signal_kind_instance:
  "signal_kind wordc candidate = Some (lit ''instance'') \<longleftrightarrow>
    \<not> pattern_found wordc (PROPERTY_RE wordc) (evidence_text candidate)
    \<and> (names_reactor wordc (evidence_text candidate) \<or> formula_shape (evidence_text candidate) \<or> ca_source candidate = lit ''miss'')"
  by (auto simp: signal_kind_def Let_def reactor_found formula_found lit_def)

section \<open>The hint of a relation\<close>

text \<open>
  \<open>\\bmoderated\\b\<close> is a pattern of the context of a class, which is tried before that of a relation. What is
  needed of \<open>\\w\<close>: it matches letters, and neither a hyphen nor white space.
\<close>

definition proper_words :: "(nat \<Rightarrow> bool) \<Rightarrow> bool" where
  "proper_words wordc \<longleftrightarrow> \<not> wordc 45 \<and> (\<forall>c. (is_alpha_ascii c \<longrightarrow> wordc c) \<and> (is_space c \<longrightarrow> \<not> wordc c))"

definition moderated :: pystr where "moderated = lit ''moderated''"

lemma spans_Some_of: "spans wordc (Some_of (One c)) (prev, s) q \<Longrightarrow> \<exists>u. u \<noteq> [] \<and> list_all c u \<and> s = u @ snd q \<and> fst q = after wordc prev u"
proof -
  have many: "\<exists>u. list_all c u \<and> snd p = u @ snd q \<and> fst q = after wordc (fst p) u"
    if "spans wordc (Many (One c)) p q" for p q
    using that
  proof (induction "Many (One c)" p q rule: spans.induct)
    case (many_step p q t)
    from many_step(1) obtain x where x: "c x" "snd p = x # snd q" "fst q = wordc x" by (auto elim: spansE)
    from many_step(3) obtain u where u: "list_all c u" "snd q = u @ snd t" "fst t = after wordc (fst q) u" by blast
    then show ?case using x by (intro exI [of _ "x # u"]) simp
  qed (intro exI [of _ "[]"], simp)
  assume "spans wordc (Some_of (One c)) (prev, s) q"
  then obtain x xs where x: "c x" "s = x # xs" and rest: "spans wordc (Many (One c)) (wordc x, xs) q"
    unfolding Some_of_def by (auto elim!: spansE)
  from many [OF rest] obtain u where u: "list_all c u" "xs = u @ snd q" "fst q = after wordc (wordc x) u" by auto
  have "x # u \<noteq> []" "list_all c (x # u)" using x(1) u(1) by simp_all
  moreover have "s = (x # u) @ snd q" using x(2) u(2) by (metis append_Cons)
  moreover have "fst q = after wordc prev (x # u)" using u(3) by (metis after_simps(2))
  ultimately show ?thesis by blast
qed

lemma same_letter_word:
  "proper_words wordc \<Longrightarrow> same_letter c x \<Longrightarrow> is_lower c \<Longrightarrow> c \<notin> {105, 107, 115} \<Longrightarrow> wordc x"
proof -
  assume wordc: "proper_words wordc" and "same_letter c x" "is_lower c" "c \<notin> {105, 107, 115}"
  then have "is_alpha_ascii x" by (auto simp: same_letter_def is_lower_def is_alpha_ascii_def is_upper_def)
  then show "wordc x" using wordc by (simp add: proper_words_def)
qed

lemma moderated_starts:
  assumes "proper_words wordc" "same_letters moderated u"
  shows "u \<noteq> [] \<and> wordc (hd u) \<and> wordc (last u)"
proof -
  have len: "length u = 9" using assms(2) by (auto simp: same_letters_def moderated_def lit_def dest: list_all2_lengthD)
  have "same_letter (moderated ! 0) (u ! 0)" "same_letter (moderated ! 8) (u ! 8)"
    using assms(2) len by (auto simp: same_letters_def list_all2_conv_all_nth)
  then have "wordc (u ! 0)" "wordc (u ! 8)"
    using same_letter_word [OF assms(1)] by (auto simp: moderated_def lit_def is_lower_def)
  moreover have "u \<noteq> []" using len by auto
  ultimately show ?thesis using len by (simp add: hd_conv_nth last_conv_nth)
qed

lemma class_moderated:
  assumes "proper_words wordc" "s = x @ u @ y" "same_letters moderated u" "\<not> after wordc False x" "y = [] \<or> \<not> wordc (hd y)"
  shows "pattern_found wordc (CLASS_RE wordc) s"
proof -
  note u = moderated_starts [OF assms(1,3)]
  have "boundary wordc (after wordc False x, u @ y)" using u assms(4) by (auto simp: boundary_def hd_append)
  moreover have "boundary wordc (after wordc (after wordc False x) u, y)" using u assms(5) by (auto simp: boundary_def after_def)
  moreover have "spans wordc (Caseless moderated) (after wordc False x, u @ y) (after wordc (after wordc False x) u, y)"
    using assms(3) by (subst spans_Caseless) (auto simp: moderated_def lit_def)
  ultimately have "spans wordc (Seqs [Bound, Caseless moderated, Bound]) (after wordc False x, u @ y) (after wordc (after wordc False x) u, y)"
    by (auto intro!: seq bound)
  then have "spans wordc (CLASS_RE wordc) (after wordc False x, u @ y) (after wordc (after wordc False x) u, y)"
    unfolding CLASS_RE_def Let_def Alts.simps moderated_def by (intro alt2)
  then show ?thesis unfolding pattern_found_def occurs_iff assms(2) by blast
qed

lemma hyphen_moderated: "lit ''-moderated'' = 45 # moderated"
  by (simp add: lit_def moderated_def)

lemma relation_found:
  assumes "proper_words wordc" "pattern_found wordc (RELATION_RE wordc) s"
  shows "\<exists>x u y. s = x @ u @ y \<and> same_letters moderated u \<and> (y = [] \<or> \<not> wordc (hd y))
    \<and> (after wordc False x \<longrightarrow> y \<noteq> [] \<and> is_space (hd y))"
proof -
  from assms(2) obtain x v q where s: "s = x @ v" and m: "spans wordc (RELATION_RE wordc) (after wordc False x, v) q"
    unfolding pattern_found_def occurs_iff by blast
  from m consider
      "spans wordc (Seqs [Some_of (One wordc), Caseless (45 # moderated), Bound]) (after wordc False x, v) q"
    | "spans wordc (Seqs [Caseless moderated, Some_of (One is_space), Caseless (lit ''by''), Some_of (One is_space), Some_of (One wordc)]) (after wordc False x, v) q"
    unfolding RELATION_RE_def Alts.simps hyphen_moderated moderated_def [symmetric] by (auto simp only: spans_simps)
  then show ?thesis
  proof cases
    case 1
    then obtain p p' where p: "spans wordc (Some_of (One wordc)) (after wordc False x, v) p"
      "spans wordc (Caseless (45 # moderated)) p p'" "boundary wordc p'" by (auto elim!: spansE)
    from spans_Some_of [OF p(1)] obtain u1 where u1: "v = u1 @ snd p" by blast
    from p(2) obtain h where h: "same_letters (45 # moderated) h" "snd p = h @ snd p'" "fst p' = after wordc (fst p) h"
      using spans_Caseless [of "45 # moderated" wordc "fst p" "snd p" p'] by auto
    then obtain u where u: "h = 45 # u" "same_letters moderated u"
      by (auto simp: same_letters_def list_all2_Cons1 same_letter_def is_lower_def)
    have "snd p' = [] \<or> \<not> wordc (hd (snd p'))"
      using p(3) h(3) moderated_starts [OF assms(1) u(2)] u(1) by (cases p') (auto simp: boundary_def after_def)
    moreover have "\<not> after wordc False (x @ u1 @ [45])" using assms(1) by (simp add: after_def proper_words_def)
    ultimately show ?thesis using s u1 h(2) u
      by (intro exI [of _ "x @ u1 @ [45]"] exI [of _ u] exI [of _ "snd p'"]) simp
  next
    case 2
    then obtain p p' where p: "spans wordc (Caseless moderated) (after wordc False x, v) p"
      "spans wordc (Some_of (One is_space)) p p'" by (auto elim!: spansE)
    from p(1) obtain u where u: "same_letters moderated u" "v = u @ snd p"
      by (subst (asm) spans_Caseless) (auto simp: moderated_def lit_def)
    from p(2) spans_Some_of [of wordc is_space "fst p" "snd p" p'] obtain b where
      "b \<noteq> []" "list_all is_space b" "snd p = b @ snd p'" by auto
    then have "snd p \<noteq> [] \<and> is_space (hd (snd p))" by (cases b) auto
    then show ?thesis using s u assms(1) by (intro exI [of _ x] exI [of _ u] exI [of _ "snd p"]) (auto simp: proper_words_def)
  qed
qed

text \<open>
  The hint of a relation is given only for a text with a longer word that ends in \<open>moderated\<close> and white
  space after it: never for a frame like \<open>graphite-moderated\<close> or \<open>moderated by graphite\<close>.
\<close>

theorem signal_kind_relation:
  assumes "proper_words wordc" "signal_kind wordc candidate = Some (lit ''relation'')"
  shows "\<exists>x c u b y. evidence_text candidate = x @ [c] @ u @ [b] @ y \<and> wordc c \<and> same_letters moderated u \<and> is_space b"
proof -
  have none: "\<not> pattern_found wordc (CLASS_RE wordc) (evidence_text candidate)"
    and some: "pattern_found wordc (RELATION_RE wordc) (evidence_text candidate)"
    using assms(2) by (auto simp: signal_kind_def Let_def lit_def split: if_splits)
  from relation_found [OF assms(1) some] obtain x u y where
    u: "evidence_text candidate = x @ u @ y" "same_letters moderated u" "y = [] \<or> \<not> wordc (hd y)"
    and sp: "after wordc False x \<longrightarrow> y \<noteq> [] \<and> is_space (hd y)" by blast
  have "after wordc False x" using class_moderated [OF assms(1) u(1,2) _ u(3)] none by blast
  then have "x \<noteq> []" "wordc (last x)" "y \<noteq> []" "is_space (hd y)" using sp by (auto simp: after_def split: if_splits)
  moreover from this obtain x' c b y' where "x = x' @ [c]" "y = b # y'" by (metis rev_exhaust list.exhaust)
  ultimately have "evidence_text candidate = x' @ [c] @ u @ [b] @ y'" "wordc c" "is_space b" using u(1) by simp_all
  then show ?thesis using u(2) by blast
qed

definition sample_hint_candidate :: mined where
  "sample_hint_candidate = \<lparr>ca_term = [], ca_source = lit ''lexical'',
     ca_evidence = [\<lparr>ev_report = [], ev_document_iri = [], ev_sentence_text = lit ''unmoderated by air'',
       ev_start_offset = 0, ev_end_offset = 0\<rparr>],
     ca_doc_frequency = 1, ca_surface_form = [], ca_observations = []\<rparr>"

lemma sample_words: "proper_words is_alpha_ascii"
  by (auto simp: proper_words_def is_alpha_ascii_def is_upper_def is_lower_def is_space_def)

lemma no_digit_no_property: "\<not> list_ex is_digit s \<Longrightarrow> \<not> occurs wordc (Seq (Seq (One is_digit) r) r') (prev, s)"
  by (induction s arbitrary: prev) auto

lemma sample_hint: "signal_kind is_alpha_ascii sample_hint_candidate = Some (lit ''relation'')"
proof -
  let ?s = "lit ''unmoderated by air''"
  have "\<not> list_ex is_digit ?s" by (simp add: lit_def is_digit_def digit_value_def is_ascii_digit_def digit_zeros_def)
  then have "\<not> pattern_found is_alpha_ascii (PROPERTY_RE is_alpha_ascii) ?s"
    unfolding pattern_found_def PROPERTY_RE_def NUMBER_TOKEN_def Seqs.simps by (rule no_digit_no_property)
  moreover have "\<not> pattern_found is_alpha_ascii FORMULA_RE ?s"
    unfolding formula_found by (simp add: lit_def is_upper_def)
  moreover have "\<not> pattern_found is_alpha_ascii REACTOR_RE ?s" by code_simp
  moreover have "\<not> pattern_found is_alpha_ascii (CLASS_RE is_alpha_ascii) ?s" by code_simp
  moreover have "pattern_found is_alpha_ascii (RELATION_RE is_alpha_ascii) ?s" by code_simp
  moreover have "evidence_text sample_hint_candidate = ?s" "ca_source sample_hint_candidate \<noteq> lit ''miss''"
    by (simp_all add: evidence_text_def sample_hint_candidate_def lit_def)
  ultimately show ?thesis by (simp add: signal_kind_def Let_def)
qed

theorem signal_kind_relation_witness:
  "\<exists>x c u b y. evidence_text sample_hint_candidate = x @ [c] @ u @ [b] @ y \<and> is_alpha_ascii c \<and> same_letters moderated u \<and> is_space b"
  using sample_words sample_hint by (rule signal_kind_relation)

end
