(* ===== verification/Graph_Query.thy ===== *)
theory Graph_Query
  imports Graph_Reader Artifacts Config
begin

text \<open>
  How \<open>GraphReader\<close> runs a query: \<open>_default_select\<close> and \<open>_default_select_staging\<close> of \<open>graph_reader.py\<close>, with
  \<open>urllib.parse.urlencode\<close>, and the reading of such a body by the standard of form data. The HTTP exchange
  (httpx) is an argument.
\<close>

section \<open>Form encoding\<close>

text \<open>\<open>str.encode('utf-8')\<close>; surrogates raise a \<open>UnicodeEncodeError\<close>, a \<open>ValueError\<close>.\<close>

definition scalar :: "nat \<Rightarrow> bool" where
  "scalar c \<longleftrightarrow> c < 55296 \<or> 57344 \<le> c \<and> c < 1114112"

definition utf8_char :: "nat \<Rightarrow> nat list" where
  "utf8_char c = (if c < 128 then [c]
     else if c < 2048 then [192 + c div 64, 128 + c mod 64]
     else if c < 65536 then [224 + c div 4096, 128 + c div 64 mod 64, 128 + c mod 64]
     else [240 + c div 262144, 128 + c div 4096 mod 64, 128 + c div 64 mod 64, 128 + c mod 64])"

definition utf8_encode :: "pystr \<Rightarrow> nat list result" where
  "utf8_encode s = (if list_all scalar s then Inr (concat (map utf8_char s)) else Inl ValueError)"

definition hex_upper :: "nat \<Rightarrow> nat" where
  "hex_upper d = (if d < 10 then 48 + d else 55 + d)"

definition always_safe :: "nat \<Rightarrow> bool" where
  "always_safe b \<longleftrightarrow> is_alpha_ascii b \<or> is_ascii_digit b \<or> b \<in> {45, 46, 95, 126}"

definition quote_byte :: "nat \<Rightarrow> pystr" where
  "quote_byte b = (if always_safe b then [b] else if b = 32 then [43] else [37, hex_upper (b div 16), hex_upper (b mod 16)])"

definition quote_plus :: "pystr \<Rightarrow> pystr result" where
  "quote_plus s = bind_result (utf8_encode s) (\<lambda>bs. Inr (concat (map quote_byte bs)))"

fun quote_pairs :: "(pystr \<times> pystr) list \<Rightarrow> pystr list result" where
  "quote_pairs [] = Inr []"
| "quote_pairs ((k, v) # ps) = bind_result (quote_plus k) (\<lambda>k. bind_result (quote_plus v) (\<lambda>v.
     bind_result (quote_pairs ps) (\<lambda>rest. Inr ((k @ lit ''='' @ v) # rest))))"

definition urlencode :: "(pystr \<times> pystr) list \<Rightarrow> pystr result" where
  "urlencode ps = bind_result (quote_pairs ps) (\<lambda>parts. Inr (join (lit ''&'') parts))"

section \<open>The request and its answer\<close>

record select_response =
  sr_success :: bool
  sr_json :: "json option"

type_synonym http_post = "pystr \<Rightarrow> pystr \<Rightarrow> (pystr \<times> pystr) list \<Rightarrow> pyfloat \<Rightarrow> select_response result"

definition select_headers :: "(pystr \<times> pystr) list" where
  "select_headers = [(lit ''Content-Type'', lit ''application/x-www-form-urlencoded''),
     (lit ''Accept'', lit ''application/sparql-results+json'')]"

text \<open>\<open>["results"]["bindings"]\<close>.\<close>

definition item :: "string \<Rightarrow> json \<Rightarrow> json result" where
  "item k j = (case j of JObj d \<Rightarrow> required d k | _ \<Rightarrow> Inl TypeError)"

text \<open>A row as the readers use it: a variable's value, by \<open>binding[var]["value"]\<close>.\<close>

definition binding_of :: "json \<Rightarrow> binding" where
  "binding_of j = (case j of
       JObj d \<Rightarrow> (\<lambda>var. case map_of d var of
           Some (JObj cell) \<Rightarrow> (case map_of cell (lit ''value'') of Some (JStr v) \<Rightarrow> Some v | _ \<Rightarrow> None)
         | _ \<Rightarrow> None)
     | _ \<Rightarrow> Map.empty)"

definition select_rows :: "select_response \<Rightarrow> binding list result" where
  "select_rows r = (if \<not> sr_success r then Inl HTTPError
     else (case sr_json r of None \<Rightarrow> Inl ValueError
       | Some j \<Rightarrow> bind_result (item ''results'' j) (\<lambda>results. bind_result (item ''bindings'' results)
           (\<lambda>rows. case rows of JArr bindings \<Rightarrow> Inr (map binding_of bindings) | _ \<Rightarrow> Inl TypeError))))"

definition run_select :: "((pystr \<times> pystr) list) \<Rightarrow> http_post \<Rightarrow> pystr \<Rightarrow> pyfloat \<Rightarrow> binding list result" where
  "run_select params post query_endpoint timeout = bind_result (urlencode params) (\<lambda>body.
     bind_result (post query_endpoint body select_headers timeout) select_rows)"

definition default_select :: "http_post \<Rightarrow> pystr \<Rightarrow> pyfloat \<Rightarrow> select_fn" where
  "default_select post query_endpoint timeout query = run_select (build_query_params query) post query_endpoint timeout"

definition default_select_staging :: "http_post \<Rightarrow> pystr \<Rightarrow> pyfloat \<Rightarrow> select_fn" where
  "default_select_staging post query_endpoint timeout query =
     run_select (build_staging_query_params query) post query_endpoint timeout"

text \<open>The reader of a configuration, with its two ways to select.\<close>

record graph_reader =
  gr_query_endpoint :: pystr
  gr_timeout :: pyfloat
  gr_select :: select_fn
  gr_select_staging :: select_fn

definition make_reader :: "http_post \<Rightarrow> pystr \<Rightarrow> select_fn option \<Rightarrow> select_fn option \<Rightarrow> pyfloat \<Rightarrow> graph_reader" where
  "make_reader post query_endpoint select staging timeout =
     \<lparr>gr_query_endpoint = query_endpoint, gr_timeout = timeout,
      gr_select = (case select of Some f \<Rightarrow> f | None \<Rightarrow> default_select post query_endpoint timeout),
      gr_select_staging = (case staging of Some f \<Rightarrow> f | None \<Rightarrow> default_select_staging post query_endpoint timeout)\<rparr>"

definition reader_from_config :: "http_post \<Rightarrow> config \<Rightarrow> graph_reader" where
  "reader_from_config post c = make_reader post (sparql_query_endpoint c) None None (Fin 30)"

section \<open>Reading a form\<close>

text \<open>The other side, after the definition of \<open>application/x-www-form-urlencoded\<close>.\<close>

fun hex_of :: "nat \<Rightarrow> nat" where
  "hex_of c = (if c < 58 then c - 48 else c - 55)"

fun form_bytes :: "pystr \<Rightarrow> nat list" where
  "form_bytes [] = []"
| "form_bytes [c] = [if c = 43 then 32 else c]"
| "form_bytes [c, d] = (if c = 43 then 32 else c) # form_bytes [d]"
| "form_bytes (c # h # l # s) = (if c = 37 then (hex_of h * 16 + hex_of l) # form_bytes s
     else (if c = 43 then 32 else c) # form_bytes (h # l # s))"

fun utf8_decode :: "nat list \<Rightarrow> pystr option" where
  "utf8_decode [] = Some []"
| "utf8_decode (a # bs) =
     (if a < 128 then map_option (Cons a) (utf8_decode bs)
      else if a < 224 then (case bs of b # r \<Rightarrow> map_option (Cons ((a - 192) * 64 + (b - 128))) (utf8_decode r) | _ \<Rightarrow> None)
      else if a < 240 then (case bs of b # c # r \<Rightarrow>
          map_option (Cons ((a - 224) * 4096 + (b - 128) * 64 + (c - 128))) (utf8_decode r) | _ \<Rightarrow> None)
      else (case bs of b # c # d # r \<Rightarrow>
          map_option (Cons ((a - 240) * 262144 + (b - 128) * 4096 + (c - 128) * 64 + (d - 128))) (utf8_decode r) | _ \<Rightarrow> None))"

definition form_text :: "pystr \<Rightarrow> pystr option" where
  "form_text s = utf8_decode (form_bytes s)"

text \<open>A part without \<open>=\<close> is a name with an empty value.\<close>

definition form_pair :: "pystr \<Rightarrow> (pystr \<times> pystr) option" where
  "form_pair s = (case form_text (takeWhile (\<lambda>c. c \<noteq> 61) s) of None \<Rightarrow> None
     | Some k \<Rightarrow> map_option (Pair k) (form_text (drop 1 (dropWhile (\<lambda>c. c \<noteq> 61) s))))"

fun all_some :: "'a option list \<Rightarrow> 'a list option" where
  "all_some [] = Some []"
| "all_some (x # xs) = (case x of None \<Rightarrow> None | Some y \<Rightarrow> map_option (Cons y) (all_some xs))"

definition parse_form :: "pystr \<Rightarrow> (pystr \<times> pystr) list option" where
  "parse_form body = all_some (map form_pair (split_on 38 body))"

section \<open>The round trip\<close>

lemma div_mod_64:
  "c div 64 * 64 + c mod 64 = (c :: nat)"
  "c div 4096 * 4096 + c div 64 mod 64 * 64 + c mod 64 = (c :: nat)"
  "c div 262144 * 262144 + c div 4096 mod 64 * 4096 + c div 64 mod 64 * 64 + c mod 64 = (c :: nat)"
proof -
  have flat: "(x * 64 + y) * 64 + z = n \<Longrightarrow> x * 4096 + y * 64 + z = n"
      "((v * 64 + x) * 64 + y) * 64 + z = n \<Longrightarrow> v * 262144 + x * 4096 + y * 64 + z = n" for v x y z n :: nat by simp_all
  have step: "a div 64 * 64 + a mod 64 = a" for a :: nat by (rule div_mult_mod_eq)
  have d: "c div 4096 = c div 64 div 64" "c div 262144 = c div 64 div 64 div 64" by (simp_all add: div_mult2_eq [symmetric])
  show "c div 64 * 64 + c mod 64 = c" by (rule step)
  have "(c div 64 div 64 * 64 + c div 64 mod 64) * 64 + c mod 64 = c" by (simp only: step)
  then show "c div 4096 * 4096 + c div 64 mod 64 * 64 + c mod 64 = c" unfolding d by (rule flat)
  have "((c div 64 div 64 div 64 * 64 + c div 64 div 64 mod 64) * 64 + c div 64 mod 64) * 64 + c mod 64 = c"
    by (simp only: step)
  then show "c div 262144 * 262144 + c div 4096 mod 64 * 4096 + c div 64 mod 64 * 64 + c mod 64 = c"
    unfolding d by (rule flat)
qed

lemma utf8_leads:
  "c < 2048 \<Longrightarrow> c div 64 < 32" "c < 65536 \<Longrightarrow> c div 4096 < 16" "c < 1114112 \<Longrightarrow> c div 262144 < (16 :: nat)"
  by (simp_all add: div_less_iff_less_mult)

lemma utf8_decode_char: "scalar c \<Longrightarrow> utf8_decode (utf8_char c @ bs) = map_option (Cons c) (utf8_decode bs)"
proof -
  assume c: "scalar c"
  consider "c < 128" | "128 \<le> c" "c < 2048" | "2048 \<le> c" "c < 65536" | "65536 \<le> c" by linarith
  then show ?thesis
  proof cases
    case 2
    then show ?thesis using utf8_leads(1) [of c] by (simp add: utf8_char_def div_mod_64)
  next
    case 3
    then show ?thesis using utf8_leads(2) [of c] by (simp add: utf8_char_def div_mod_64)
  next
    case 4
    then show ?thesis by (simp add: utf8_char_def div_mod_64)
  qed (simp add: utf8_char_def)
qed

lemma utf8_round_trip: "list_all scalar s \<Longrightarrow> utf8_decode (concat (map utf8_char s)) = Some s"
  by (induction s) (simp_all add: utf8_decode_char)

lemma utf8_bytes: "scalar c \<Longrightarrow> list_all (\<lambda>b. b < 256) (utf8_char c)"
proof -
  assume c: "scalar c"
  then have "c div 262144 < 16" by (intro utf8_leads) (auto simp: scalar_def)
  moreover have "a mod 64 < 64" for a :: nat by simp
  ultimately show ?thesis using utf8_leads(1,2) [of c]
    by (auto simp: utf8_char_def intro: less_le_trans [of _ 64 "128 :: nat"])
qed

lemma hex_back: "d < 16 \<Longrightarrow> hex_of (hex_upper d) = d"
  by (simp add: hex_upper_def)

lemma form_bytes_Cons: "c \<noteq> 37 \<Longrightarrow> form_bytes (c # s) = (if c = 43 then 32 else c) # form_bytes s"
  by (cases s rule: form_bytes.cases) auto

lemma form_bytes_quote: "b < 256 \<Longrightarrow> form_bytes (quote_byte b @ s) = b # form_bytes s"
proof -
  assume b: "b < 256"
  then have "b div 16 < 16" "b mod 16 < 16" by (simp_all add: div_less_iff_less_mult)
  then have "hex_of (hex_upper (b div 16)) * 16 + hex_of (hex_upper (b mod 16)) = b" by (simp only: hex_back div_mult_mod_eq)
  moreover have "always_safe b \<Longrightarrow> b \<noteq> 37 \<and> b \<noteq> 43"
    by (auto simp: always_safe_def is_alpha_ascii_def is_upper_def is_lower_def is_ascii_digit_def)
  ultimately show ?thesis by (auto simp: quote_byte_def form_bytes_Cons simp del: hex_of.simps)
qed

lemma form_bytes_quotes: "list_all (\<lambda>b. b < 256) bs \<Longrightarrow> form_bytes (concat (map quote_byte bs)) = bs"
  by (induction bs) (simp_all add: form_bytes_quote)

lemma quote_plus_back:
  assumes "quote_plus s = Inr q"
  shows "form_text q = Some s \<and> 38 \<notin> set q \<and> 61 \<notin> set q"
proof -
  have s: "list_all scalar s" and q: "q = concat (map quote_byte (concat (map utf8_char s)))"
    using assms by (auto simp: quote_plus_def utf8_encode_def bind_result_def split: if_splits)
  have bytes: "list_all (\<lambda>b. b < 256) (concat (map utf8_char s))"
    using s utf8_bytes by (induction s) auto
  have "38 \<notin> set (quote_byte b) \<and> 61 \<notin> set (quote_byte b)" if "b < 256" for b
    using that by (auto simp: quote_byte_def always_safe_def hex_upper_def is_alpha_ascii_def is_upper_def is_lower_def is_ascii_digit_def)
  then have "38 \<notin> set q \<and> 61 \<notin> set q" using bytes unfolding q by (fastforce simp: list_all_iff)
  then show ?thesis using form_bytes_quotes [OF bytes] utf8_round_trip [OF s] q by (simp add: form_text_def)
qed

lemma form_pair_back: "quote_plus k = Inr k' \<Longrightarrow> quote_plus v = Inr v' \<Longrightarrow> form_pair (k' @ lit ''='' @ v') = Some (k, v)"
proof -
  assume "quote_plus k = Inr k'" "quote_plus v = Inr v'"
  note read = quote_plus_back [OF this(1)] quote_plus_back [OF this(2)]
  have "takeWhile (\<lambda>c. c \<noteq> 61) (k' @ lit ''='' @ v') = k'" "dropWhile (\<lambda>c. c \<noteq> 61) (k' @ lit ''='' @ v') = 61 # v'"
    using read(1) by (auto simp: lit_def takeWhile_append dropWhile_append)
  then show ?thesis using read by (simp add: form_pair_def)
qed

lemma quote_pairs_back:
  "quote_pairs ps = Inr parts \<Longrightarrow> map form_pair parts = map Some ps \<and> list_all (\<lambda>p. 38 \<notin> set p) parts"
proof (induction ps arbitrary: parts)
  case (Cons p ps)
  obtain k v where "p = (k, v)" by (rule prod.exhaust)
  with Cons.prems obtain k' v' rest where "quote_plus k = Inr k'" "quote_plus v = Inr v'" "quote_pairs ps = Inr rest"
      "parts = (k' @ lit ''='' @ v') # rest" by (auto simp: bind_result_eq_Inr)
  then show ?case using Cons.IH form_pair_back quote_plus_back \<open>p = (k, v)\<close> by (auto simp: lit_def)
qed simp

lemma split_on_join: "ps \<noteq> [] \<Longrightarrow> list_all (\<lambda>p. c \<notin> set p) ps \<Longrightarrow> split_on c (join [c] ps) = ps"
proof (induction ps rule: induct_list012)
  case (3 x y zs)
  have "split_on c (x @ c # s) = x # split_on c s" if "c \<notin> set x" for s using that by (induction x) auto
  then show ?case using 3 by simp
qed (simp_all add: split_on_absent)

lemma all_some_map: "all_some (map Some xs) = Some xs"
  by (induction xs) auto

lemma urlencode_back: "urlencode ps = Inr body \<Longrightarrow> ps \<noteq> [] \<Longrightarrow> parse_form body = Some ps"
proof -
  assume body: "urlencode ps = Inr body" and ne: "ps \<noteq> []"
  then obtain parts where parts: "quote_pairs ps = Inr parts" "body = join [38] parts"
    by (auto simp: urlencode_def bind_result_eq_Inr lit_def)
  note read = quote_pairs_back [OF parts(1)]
  then have "parts \<noteq> []" using ne read by auto
  then show ?thesis using split_on_join read by (simp add: parse_form_def parts(2) all_some_map)
qed

section \<open>What a query is run on\<close>

text \<open>A server that reads the form and answers by query and dataset.\<close>

definition serve :: "(pystr \<Rightarrow> pystr list \<Rightarrow> select_response result) \<Rightarrow> http_post" where
  "serve reply url body headers timeout = (case parse_form body of
       None \<Rightarrow> Inl HTTPError
     | Some ps \<Rightarrow> (case map_of ps (lit ''query'') of None \<Rightarrow> Inl HTTPError
         | Some q \<Rightarrow> reply q (map snd (filter (\<lambda>(k, v). k = lit ''default-graph-uri'') ps))))"

lemma quote_pairs_valid:
  "list_all (\<lambda>(k, v). list_all scalar k \<and> list_all scalar v) ps \<Longrightarrow> \<exists>parts. quote_pairs ps = Inr parts"
proof (induction ps)
  case (Cons p ps)
  then obtain parts where "quote_pairs ps = Inr parts" by auto
  moreover obtain k v where "p = (k, v)" by (rule prod.exhaust)
  ultimately show ?case using Cons.prems by (simp add: quote_plus_def utf8_encode_def bind_result_def)
qed simp

lemma urlencode_cases:
  "(\<exists>body. urlencode ps = Inr body) \<longleftrightarrow> list_all (\<lambda>(k, v). list_all scalar k \<and> list_all scalar v) ps"
  "urlencode ps = Inl e \<Longrightarrow> e = ValueError"
proof -
  have sound: "quote_pairs ps = Inr parts \<Longrightarrow> list_all (\<lambda>(k, v). list_all scalar k \<and> list_all scalar v) ps" for parts
    by (induction ps arbitrary: parts) (auto simp: bind_result_eq_Inr quote_plus_def utf8_encode_def split: if_splits)
  then show "(\<exists>body. urlencode ps = Inr body) \<longleftrightarrow> list_all (\<lambda>(k, v). list_all scalar k \<and> list_all scalar v) ps"
    using quote_pairs_valid [of ps] by (auto simp: urlencode_def bind_result_def split: sum.splits)
  have "quote_pairs ps = Inl e \<Longrightarrow> e = ValueError"
    by (induction ps) (auto simp: bind_result_def quote_plus_def utf8_encode_def split: if_splits sum.splits)
  then show "urlencode ps = Inl e \<Longrightarrow> e = ValueError"
    by (auto simp: urlencode_def bind_result_def split: sum.splits)
qed

text \<open>C18. Every query a reader runs reaches the server as it was written, on its dataset and no other. What the
  server reads from the body is the query, character by character, with the three core graphs as default
  graphs for the core reader and the staging graph alone for the staging reader, so no core read sees a staged
  or proposed triple; a query that is not valid Unicode raises a \<open>ValueError\<close> before anything is sent.\<close>

theorem select_reaches_dataset:
  "default_select (serve reply) query_endpoint timeout query =
     (if list_all scalar query then bind_result (reply query CORE_GRAPHS) select_rows else Inl ValueError)
   \<and> default_select_staging (serve reply) query_endpoint timeout query =
     (if list_all scalar query then bind_result (reply query [STAGING_GRAPH]) select_rows else Inl ValueError)
   \<and> STAGING_GRAPH \<notin> set CORE_GRAPHS"
proof -
  have run: "run_select ((lit ''query'', query) # map (Pair (lit ''default-graph-uri'')) graphs) (serve reply) query_endpoint timeout =
      (if list_all scalar query then bind_result (reply query graphs) select_rows else Inl ValueError)"
    if graphs: "list_all (list_all scalar) graphs" for graphs
  proof (cases "urlencode ((lit ''query'', query) # map (Pair (lit ''default-graph-uri'')) graphs)")
    case (Inl e)
    then have "e = ValueError" "\<not> list_all scalar query"
      using urlencode_cases [of "(lit ''query'', query) # map (Pair (lit ''default-graph-uri'')) graphs"] graphs
      by (auto simp: list_all_iff lit_def scalar_def)
    then show ?thesis by (simp add: run_select_def Inl bind_result_def)
  next
    case (Inr body)
    then have "list_all scalar query"
      using urlencode_cases(1) [of "(lit ''query'', query) # map (Pair (lit ''default-graph-uri'')) graphs"] by auto
    moreover have "parse_form body = Some ((lit ''query'', query) # map (Pair (lit ''default-graph-uri'')) graphs)"
      using urlencode_back [OF Inr] by simp
    moreover have "lit ''query'' \<noteq> lit ''default-graph-uri''" by (simp add: lit_def)
    ultimately show ?thesis by (simp add: run_select_def Inr bind_result_def serve_def filter_map comp_def)
  qed
  have "list_all (list_all scalar) CORE_GRAPHS" "list_all (list_all scalar) [STAGING_GRAPH]" "STAGING_GRAPH \<notin> set CORE_GRAPHS"
    by (simp_all add: CORE_GRAPHS_def STAGING_GRAPH_def lit_def scalar_def)
  then show ?thesis using run [of CORE_GRAPHS] run [of "[STAGING_GRAPH]"]
    by (simp add: default_select_def default_select_staging_def build_query_params_def build_staging_query_params_def)
qed

end
