(* ===== verification/Safety_Corpus.thy ===== *)
theory Safety_Corpus
  imports Ingest Backfill
begin

text \<open>
  The safety corpus on disk: fetching the sources (\<open>_cmd_safety_fetch\<close>), their text, normalized text and
  segments (\<open>safety_acquire.py\<close> and \<open>_cmd_safety_extract\<close> of \<open>cli.py\<close>), and the index that the mining stage
  builds of it (\<open>_build_safety_corpus_index\<close> of \<open>novelty.py\<close>). The fetch script, the page texts of a PDF
  (pypdf) and the sentence splitter are arguments.
\<close>

section \<open>The stages\<close>

definition cmd_safety_fetch :: "environment \<Rightarrow> (pystr list \<Rightarrow> 'w \<Rightarrow> 'w \<times> unit result) \<Rightarrow> 'w \<Rightarrow> 'w \<times> int result" where
  "cmd_safety_fetch environ runner = and_then
     (runner [lit ''bash'', (case environ (lit ''MSR_SAFETY_FETCH_SCRIPT'') of
        None \<Rightarrow> lit ''scripts/fetch-safety-sources.sh'' | Some script \<Rightarrow> script)]) (\<lambda>_. done_with 0)"

record safety_setup =
  sf_pages :: "path \<Rightarrow> pystr list result"
  sf_splitter :: "pystr \<Rightarrow> pystr list"

text \<open>\<open>extract_pdf_text\<close> with its files.\<close>

definition extract_source :: "safety_setup \<Rightarrow> config \<Rightarrow> safety_source \<Rightarrow> unit stage" where
  "extract_source su c source w = (case sf_pages su (path_join (safety_dir c) (ss_pdf_filename source)) of
       Inl e \<Rightarrow> (w, Inl e)
     | Inr pages \<Rightarrow> (case extract_pdf_text source pages of
         None \<Rightarrow> (w, Inl IndexError)
       | Some t \<Rightarrow> (write_file (safety_text_path c (ss_id source)) t w, Inr ())))"

definition normalize_and_segment :: "safety_setup \<Rightarrow> config \<Rightarrow> safety_source \<Rightarrow> unit stage" where
  "normalize_and_segment su c source w = (case read_file (safety_text_path c (ss_id source)) w of
       Inl e \<Rightarrow> (w, Inl e)
     | Inr raw_text \<Rightarrow>
         (let normalized = normalize_text raw_text;
              w = write_file (safety_normalized_path c (ss_id source)) normalized w;
              segments = segment_text (sf_splitter su) normalized (ss_id source)
          in (write_file (safety_segments_path c (ss_id source)) (segments_jsonl segments) w, Inr ())))"

definition safety_extract_line :: "config \<Rightarrow> safety_source \<Rightarrow> pystr" where
  "safety_extract_line c source = concat [lit ''safety extract: source='', ss_id source,
     lit '' text='', path_text (safety_text_path c (ss_id source)),
     lit '' normalized='', path_text (safety_normalized_path c (ss_id source)),
     lit '' segments='', path_text (safety_segments_path c (ss_id source))]"

text \<open>With the lines printed.\<close>

fun cmd_safety_extract :: "safety_setup \<Rightarrow> config \<Rightarrow> safety_source list \<Rightarrow> world \<times> pystr list \<Rightarrow> (world \<times> pystr list) \<times> int result" where
  "cmd_safety_extract su c [] (w, out) = ((w, out), Inr 0)"
| "cmd_safety_extract su c (source # sources) (w, out) =
     (case and_then (extract_source su c source) (\<lambda>_. normalize_and_segment su c source) w of
        (w, Inl e) \<Rightarrow> ((w, out), Inl e)
      | (w, Inr _) \<Rightarrow> cmd_safety_extract su c sources (w, out @ [safety_extract_line c source]))"

section \<open>The index of the safety corpus\<close>

text \<open>\<open>None\<close>: there is no such file, and the source is left out.\<close>

definition read_safety_text :: "config \<Rightarrow> world \<Rightarrow> pystr \<Rightarrow> pystr option" where
  "read_safety_text c w rep = map_option universal_newlines (wd_files w (place (safety_normalized_path c rep)))"

definition build_safety_corpus_index_with_ids :: "(pystr \<Rightarrow> pystr) \<Rightarrow> config \<Rightarrow> world \<Rightarrow> pystr list \<Rightarrow> (pystr \<times> pystr) list" where
  "build_safety_corpus_index_with_ids casefold c w reports = index_documents casefold (safety_files (read_safety_text c w) reports)"

definition build_safety_corpus_index :: "(pystr \<Rightarrow> pystr) \<Rightarrow> config \<Rightarrow> world \<Rightarrow> pystr list \<Rightarrow> pystr list" where
  "build_safety_corpus_index casefold c w reports = map snd (build_safety_corpus_index_with_ids casefold c w reports)"

section \<open>Places\<close>

lemma safety_places:
  assumes "plain i"
  shows "place (safety_normalized_path c i) = (fst (place (safety_dir c)), snd (place (safety_dir c)) @ [i, lit ''normalized.txt''])"
    "place (safety_segments_path c i) = (fst (place (safety_dir c)), snd (place (safety_dir c)) @ [i, lit ''segments.jsonl''])"
  using assms by (simp_all add: safety_normalized_path_def safety_segments_path_def safety_report_dir_def place_join)

lemma plain_txt: "47 \<notin> set i \<Longrightarrow> plain (i @ lit ''.txt'')"
  by (auto simp: plain_def lit_def append_eq_Cons_conv)

lemma text_place:
  assumes "plain i"
  shows "place (safety_text_path c i) = (fst (place (safety_dir c)), snd (place (safety_dir c)) @ [i @ lit ''.txt''])"
proof -
  have "plain (i @ lit ''.txt'')" using assms by (intro plain_txt) (simp add: plain_def)
  then show ?thesis by (simp add: safety_text_path_def place_join)
qed

text \<open>The three files of a source.\<close>

definition source_places :: "config \<Rightarrow> pystr \<Rightarrow> (bool \<times> pystr list) list" where
  "source_places c i = map place [safety_text_path c i, safety_normalized_path c i, safety_segments_path c i]"

lemma source_places_apart:
  "plain i \<Longrightarrow> plain j \<Longrightarrow> i \<noteq> j \<Longrightarrow> set (source_places c i) \<inter> set (source_places c j) = {}"
  by (auto simp: source_places_def safety_places text_place)

lemma source_places_distinct: "plain i \<Longrightarrow> distinct (source_places c i)"
  by (simp add: source_places_def safety_places text_place)

section \<open>One source\<close>

definition source_text :: "safety_setup \<Rightarrow> config \<Rightarrow> safety_source \<Rightarrow> pystr option" where
  "source_text su c source = (case sf_pages su (path_join (safety_dir c) (ss_pdf_filename source)) of
     Inl _ \<Rightarrow> None | Inr pages \<Rightarrow> extract_pdf_text source pages)"

definition source_files :: "safety_setup \<Rightarrow> pystr \<Rightarrow> pystr \<Rightarrow> pystr list" where
  "source_files su i t = (let normalized = normalize_text (universal_newlines t)
     in [t, normalized, segments_jsonl (segment_text (sf_splitter su) normalized i)])"

lemma extract_one:
  assumes "and_then (extract_source su c source) (\<lambda>_. normalize_and_segment su c source) w = (w', Inr u)" "plain (ss_id source)"
  shows "\<exists>t. source_text su c source = Some t \<and> wd_updates w' = wd_updates w
    \<and> map (wd_files w') (source_places c (ss_id source)) = map Some (source_files su (ss_id source) t)
    \<and> (\<forall>q. q \<notin> set (source_places c (ss_id source)) \<longrightarrow> wd_files w' q = wd_files w q)"
proof -
  let ?i = "ss_id source"
  obtain t where t: "source_text su c source = Some t"
    and rest: "normalize_and_segment su c source (write_file (safety_text_path c ?i) t w) = (w', Inr u)"
    using assms(1) by (auto simp: and_then_def extract_source_def source_text_def split: sum.splits option.splits)
  have "read_file (safety_text_path c ?i) (write_file (safety_text_path c ?i) t w) = Inr (universal_newlines t)"
    by (simp add: read_file_def write_file_def)
  then have "w' = w\<lparr>wd_files := (wd_files w)(place (safety_text_path c ?i) \<mapsto> t,
      place (safety_normalized_path c ?i) \<mapsto> normalize_text (universal_newlines t),
      place (safety_segments_path c ?i) \<mapsto> segments_jsonl (segment_text (sf_splitter su) (normalize_text (universal_newlines t)) ?i))\<rparr>"
    using rest by (simp add: normalize_and_segment_def write_file_def Let_def)
  moreover have "distinct (source_places c ?i)" using source_places_distinct assms(2) by blast
  ultimately show ?thesis using t by (auto simp: source_places_def source_files_def Let_def)
qed

section \<open>All sources\<close>

lemma extract_all:
  assumes "cmd_safety_extract su c sources (w, out) = ((w', out'), Inr code)"
    "list_all plain (map ss_id sources)" "distinct (map ss_id sources)"
  shows "code = 0 \<and> wd_updates w' = wd_updates w \<and> out' = out @ map (safety_extract_line c) sources
    \<and> list_all (\<lambda>s. \<exists>t. source_text su c s = Some t \<and>
        map (wd_files w') (source_places c (ss_id s)) = map Some (source_files su (ss_id s) t)) sources
    \<and> (\<forall>q. q \<notin> set (concat (map (source_places c \<circ> ss_id) sources)) \<longrightarrow> wd_files w' q = wd_files w q)"
  using assms
proof (induction sources arbitrary: w out)
  case (Cons s sources)
  let ?i = "ss_id s"
  obtain w1 where one: "and_then (extract_source su c s) (\<lambda>_. normalize_and_segment su c s) w = (w1, Inr ())"
    and rest: "cmd_safety_extract su c sources (w1, out @ [safety_extract_line c s]) = ((w', out'), Inr code)"
    using Cons.prems(1) by (auto split: prod.splits sum.splits)
  have ids: "plain ?i" "list_all plain (map ss_id sources)" "distinct (map ss_id sources)" "?i \<notin> ss_id ` set sources"
    using Cons.prems(2,3) by auto
  from extract_one [OF one ids(1)] obtain t where t: "source_text su c s = Some t" "wd_updates w1 = wd_updates w"
      "map (wd_files w1) (source_places c ?i) = map Some (source_files su ?i t)"
      "\<And>q. q \<notin> set (source_places c ?i) \<Longrightarrow> wd_files w1 q = wd_files w q" by blast
  note tail = Cons.IH [OF rest ids(2,3)]
  then have frame: "wd_files w' q = wd_files w1 q" if "q \<notin> set (concat (map (source_places c \<circ> ss_id) sources))" for q
    using that by blast
  have "wd_files w' q = wd_files w1 q" if "q \<in> set (source_places c ?i)" for q
  proof (rule frame)
    have "q \<notin> set (source_places c (ss_id s'))" if s': "s' \<in> set sources" for s'
    proof -
      have "plain (ss_id s')" "?i \<noteq> ss_id s'" using s' ids by (auto simp: list_all_iff)
      then show ?thesis using source_places_apart [OF ids(1)] \<open>q \<in> set (source_places c ?i)\<close> by blast
    qed
    then show "q \<notin> set (concat (map (source_places c \<circ> ss_id) sources))" by auto
  qed
  then have "map (wd_files w') (source_places c ?i) = map Some (source_files su ?i t)" unfolding t(3) [symmetric] by auto
  moreover have "wd_files w' q = wd_files w q" if "q \<notin> set (concat (map (source_places c \<circ> ss_id) (s # sources)))" for q
    using that frame t(4) by auto
  ultimately show ?case using tail t(1,2) by auto
qed simp

lemma normalized_no_return: "universal_newlines (normalize_text t) = normalize_text t"
proof (rule universal_newlines_rows)
  show "13 \<notin> set (normalize_text t)" using normalize_text_chars [of 13 t] by auto
qed

lemma safety_index:
  assumes "\<And>s. s \<in> set sources \<Longrightarrow> wd_files w (place (safety_normalized_path c (ss_id s))) = Some (f s)"
  shows "build_safety_corpus_index_with_ids casefold c w (map ss_id sources)
    = map (\<lambda>s. (MSRD @ ss_id s, casefold (universal_newlines (f s)))) sources"
  using assms by (induction sources)
    (simp_all add: build_safety_corpus_index_with_ids_def index_documents_def safety_files_def read_safety_text_def List.map_filter_simps)

text \<open>The stage returns when each PDF can be read and has the pages its source declares.\<close>

lemma extract_one_returns:
  assumes "source_text su c s \<noteq> None"
  shows "\<exists>w'. and_then (extract_source su c s) (\<lambda>_. normalize_and_segment su c s) w = (w', Inr ())"
proof -
  obtain t where "extract_source su c s w = (write_file (safety_text_path c (ss_id s)) t w, Inr ())"
    using assms by (auto simp: extract_source_def source_text_def split: sum.splits)
  moreover have "read_file (safety_text_path c (ss_id s)) (write_file (safety_text_path c (ss_id s)) t w) = Inr (universal_newlines t)"
    by (simp add: read_file_def write_file_def)
  ultimately show ?thesis by (simp add: and_then_def normalize_and_segment_def Let_def)
qed

lemma extract_returns:
  "list_all (\<lambda>s. source_text su c s \<noteq> None) sources \<Longrightarrow> \<exists>w' out'. cmd_safety_extract su c sources (w, out) = ((w', out'), Inr 0)"
proof (induction sources arbitrary: w out)
  case (Cons s sources)
  then obtain w1 where "and_then (extract_source su c s) (\<lambda>_. normalize_and_segment su c s) w = (w1, Inr ())"
    using extract_one_returns [of su c s w] by auto
  then show ?case using Cons by simp
qed simp

section \<open>Properties\<close>

text \<open>C16. The safety corpus that mining scans is the one the extraction stage wrote. When the stage returns,
  each source has its raw text, its normalized text and the segments of that text, no other file and nothing
  in the graph has changed, and one line was printed per source. The index built afterwards holds exactly
  one document per source, in order, with its IRI and its normalized text folded, so that no term has a
  document frequency above the number of sources. Relied on: the ids of the sources are distinct plain names.\<close>

theorem safety_corpus_indexed:
  assumes "list_all plain (map ss_id sources)" "distinct (map ss_id sources)"
    "cmd_safety_extract su c sources (w, out) = ((w', out'), Inr code)"
  shows "code = 0 \<and> out' = out @ map (safety_extract_line c) sources \<and> wd_updates w' = wd_updates w
    \<and> list_all (\<lambda>s. source_text su c s \<noteq> None \<and> map (wd_files w') (source_places c (ss_id s))
        = map Some (source_files su (ss_id s) (the (source_text su c s)))) sources
    \<and> (\<forall>q. q \<notin> set (concat (map (source_places c \<circ> ss_id) sources)) \<longrightarrow> wd_files w' q = wd_files w q)
    \<and> build_safety_corpus_index_with_ids casefold c w' (map ss_id sources)
        = map (\<lambda>s. (MSRD @ ss_id s, casefold (normalize_text (universal_newlines (the (source_text su c s)))))) sources
    \<and> score_document_frequency terms (build_safety_corpus_index_with_ids casefold c w' (map ss_id sources)) t \<le> length sources"
proof -
  note all = extract_all [OF assms(3,1,2)]
  then have files: "list_all (\<lambda>s. source_text su c s \<noteq> None \<and> map (wd_files w') (source_places c (ss_id s))
      = map Some (source_files su (ss_id s) (the (source_text su c s)))) sources" by (auto simp: list_all_iff)
  have "wd_files w' (place (safety_normalized_path c (ss_id s))) = Some (normalize_text (universal_newlines (the (source_text su c s))))"
    if "s \<in> set sources" for s
    using files that by (auto simp: list_all_iff source_places_def source_files_def Let_def)
  from safety_index [OF this, of sources casefold]
  have index: "build_safety_corpus_index_with_ids casefold c w' (map ss_id sources)
      = map (\<lambda>s. (MSRD @ ss_id s, casefold (normalize_text (universal_newlines (the (source_text su c s)))))) sources"
    by (simp add: normalized_no_return)
  have "score_document_frequency terms (build_safety_corpus_index_with_ids casefold c w' (map ss_id sources)) t \<le> length sources"
    unfolding score_document_frequency_eq index by (auto intro: le_trans [OF length_filter_le])
  then show ?thesis using all files index by blast
qed

definition sample_safety :: safety_setup where
  "sample_safety = \<lparr>sf_pages = (\<lambda>_. Inr (replicate 400 (lit ''Salt''))), sf_splitter = (\<lambda>p. [p])\<rparr>"

lemma sources_plain: "list_all plain (map ss_id SAFETY_SOURCES)" "distinct (map ss_id SAFETY_SOURCES)"
  by (simp_all add: SAFETY_SOURCES_def PUB2027_SRS_123_def GIF_HOLCOMB_MSR_SAFETY_def ORNL_TM_2006_12_def
      ORNL_MSR_TECH_SAFETY_def plain_def lit_def)

lemma safety_sample_texts: "list_all (\<lambda>s. source_text sample_safety default_config s \<noteq> None) SAFETY_SOURCES"
  by (auto simp: source_text_def sample_safety_def extract_pdf_text_def page_indices_def list_all_iff SAFETY_SOURCES_def
      PUB2027_SRS_123_def GIF_HOLCOMB_MSR_SAFETY_def ORNL_TM_2006_12_def ORNL_MSR_TECH_SAFETY_def)

lemma safety_corpus_indexed_witness:
  "let w' = fst (fst (cmd_safety_extract sample_safety default_config SAFETY_SOURCES (sample_world, [])));
       docs = build_safety_corpus_index_with_ids lower_ascii default_config w' (map ss_id SAFETY_SOURCES)
   in map fst docs = map (\<lambda>s. MSRD @ ss_id s) SAFETY_SOURCES \<and> score_document_frequency {lit ''salt''} docs (lit ''salt'') \<le> 4"
proof -
  obtain w' out' where run: "cmd_safety_extract sample_safety default_config SAFETY_SOURCES (sample_world, []) = ((w', out'), Inr 0)"
    using extract_returns [OF safety_sample_texts] by blast
  let ?docs = "build_safety_corpus_index_with_ids lower_ascii default_config w' (map ss_id SAFETY_SOURCES)"
  have four: "length SAFETY_SOURCES = 4" by (simp add: SAFETY_SOURCES_def)
  note all = safety_corpus_indexed [OF sources_plain run, of lower_ascii "{lit ''salt''}" "lit ''salt''"]
  then have "map fst ?docs = map (\<lambda>s. MSRD @ ss_id s) SAFETY_SOURCES" by simp
  moreover have "score_document_frequency {lit ''salt''} ?docs (lit ''salt'') \<le> 4" unfolding four [symmetric] using all by blast
  ultimately show ?thesis by (simp add: run)
qed

end
