(* ===== verification/Mine_Files.thy ===== *)
theory Mine_Files
  imports Safety_Corpus Novelty
begin

text \<open>
  Mining from the files of the earlier stages: \<open>_read_jsonl\<close>, the three readers of \<open>novelty.py\<close> that open
  \<open>segments.jsonl\<close> and \<open>mentions.jsonl\<close>, and \<open>mine_candidates\<close> over them. \<open>json.loads\<close>, \<open>casefold\<close>, the parsed
  documents of the noun-chunk pass and the files of the archive are arguments.
\<close>

section \<open>Reading the artifacts\<close>

text \<open>The loop over the reports: one without the file is passed over.\<close>

fun over_files :: "json_loads \<Rightarrow> (pystr \<Rightarrow> path) \<Rightarrow> world \<Rightarrow> (pystr \<Rightarrow> json list \<Rightarrow> 'a list result) \<Rightarrow> pystr list \<Rightarrow> 'a list result" where
  "over_files loads file_of w f [] = Inr []"
| "over_files loads file_of w f (rep # reports) = bind_result
     (case wd_files w (place (file_of rep)) of None \<Rightarrow> Inr []
      | Some content \<Rightarrow> bind_result (read_jsonl loads content) (f rep))
     (\<lambda>xs. bind_result (over_files loads file_of w f reports) (\<lambda>ys. Inr (xs @ ys)))"

definition mine_segments_path :: "config \<Rightarrow> pystr \<Rightarrow> pystr \<Rightarrow> path" where
  "mine_segments_path c genre rep = (if genre = lit ''safety'' then safety_segments_path c rep else segments_path c rep)"

definition mine_mentions_path :: "config \<Rightarrow> pystr \<Rightarrow> pystr \<Rightarrow> path" where
  "mine_mentions_path c genre rep = (if genre = lit ''safety'' then safety_mentions_path c rep else mentions_path c rep)"

definition seg_line_of_json :: "pystr \<Rightarrow> json \<Rightarrow> seg_line result" where
  "seg_line_of_json rep v = (case v of
       JObj d \<Rightarrow> bind_result (text_field d ''text'') (\<lambda>t. bind_result (int_field d ''char_start'') (\<lambda>a.
         Inr \<lparr>sl_report = rep, sl_char_start = a, sl_text = t\<rparr>))
     | _ \<Rightarrow> Inl TypeError)"

definition read_seg_lines :: "json_loads \<Rightarrow> config \<Rightarrow> pystr \<Rightarrow> world \<Rightarrow> pystr list \<Rightarrow> seg_line list result" where
  "read_seg_lines loads c genre w reports =
     over_files loads (mine_segments_path c genre) w (\<lambda>rep. map_result (seg_line_of_json rep)) reports"

text \<open>What mining reads of a mention; the other fields are left empty.\<close>

definition mined_mention :: "pystr \<Rightarrow> pystr \<Rightarrow> int \<Rightarrow> int \<Rightarrow> mention_record" where
  "mined_mention outcome surface a b = \<lparr>mn_report = [], mn_seg_index = 0, mn_start = a, mn_end = b, mn_surface = surface,
     mn_status = outcome, mn_target_iri = None, mn_target_kind = None, mn_layer = 0, mn_score = None\<rparr>"

definition has_status :: "pystr \<Rightarrow> (pystr \<times> json) list \<Rightarrow> bool" where
  "has_status s d \<longleftrightarrow> get_field d ''status'' = JStr s"

definition novel_rows :: "json \<Rightarrow> mention_record list result" where
  "novel_rows v = (case v of
       JObj d \<Rightarrow> if \<not> has_status (lit ''novel'') d then Inr []
         else bind_result (text_field d ''surface_form'') (\<lambda>surface. bind_result (int_field d ''char_start'') (\<lambda>a.
           bind_result (int_field d ''char_end'') (\<lambda>b. Inr [mined_mention (lit ''novel'') surface a b])))
     | _ \<Rightarrow> Inl TypeError)"

definition linked_rows :: "json \<Rightarrow> mention_record list result" where
  "linked_rows v = (case v of
       JObj d \<Rightarrow> if \<not> has_status (lit ''linked'') d then Inr []
         else (case get_field d ''surface_form'' of
             JStr surface \<Rightarrow> Inr (if surface = [] then [] else [mined_mention (lit ''linked'') surface 0 0])
           | JNull \<Rightarrow> Inr []
           | _ \<Rightarrow> Inl TypeError)
     | _ \<Rightarrow> Inl TypeError)"

definition read_misses :: "(pystr \<Rightarrow> pystr) \<Rightarrow> json_loads \<Rightarrow> config \<Rightarrow> pystr \<Rightarrow> world \<Rightarrow> pystr list \<Rightarrow> mined list result" where
  "read_misses casefold loads c genre w reports = over_files loads (mine_mentions_path c genre) w
     (\<lambda>rep vs. bind_result (map_result novel_rows vs) (\<lambda>rows. Inr (read_miss_candidates casefold rep (concat rows)))) reports"

definition read_exclusion :: "json_loads \<Rightarrow> select_fn \<Rightarrow> config \<Rightarrow> pystr \<Rightarrow> world \<Rightarrow> pystr list \<Rightarrow> exclusion_index result" where
  "read_exclusion loads select c genre w reports =
     bind_result (read_known_entities select) (\<lambda>entities. bind_result (read_role_reactor_labels select) (\<lambda>labels.
     bind_result (over_files loads (mine_mentions_path c genre) w
         (\<lambda>rep vs. bind_result (map_result linked_rows vs) (\<lambda>rows. Inr (concat rows))) reports)
       (\<lambda>rows. Inr (build_exclusion_set entities (sorted_list_of_set labels) rows))))"

definition mine_config_of :: "config \<Rightarrow> mine_config" where
  "mine_config_of c = \<lparr>salience_threshold = cf_salience_threshold c, safety_salience_threshold = cf_safety_salience_threshold c,
     mine_max_candidates = cf_mine_max_candidates c\<rparr>"

definition corpus_files :: "config \<Rightarrow> pystr \<Rightarrow> (pystr \<times> pystr) list \<Rightarrow> world \<Rightarrow> pystr list \<Rightarrow> (pystr \<times> pystr) list" where
  "corpus_files c genre archive_files w reports =
     (if genre = lit ''safety'' then safety_files (read_safety_text c w) reports else archive_files)"

definition mine_files :: "(pystr \<Rightarrow> pystr) \<Rightarrow> json_loads \<Rightarrow> select_fn \<Rightarrow> (pystr \<Rightarrow> doc) option \<Rightarrow> (pystr \<times> pystr) list \<Rightarrow>
    config \<Rightarrow> pystr \<Rightarrow> pystr list \<Rightarrow> world \<Rightarrow> mined list result" where
  "mine_files casefold loads select pipeline archive_files c genre reports w =
     bind_result (read_seg_lines loads c genre w reports) (\<lambda>segs.
     bind_result (read_misses casefold loads c genre w reports) (\<lambda>misses.
     bind_result (read_exclusion loads select c genre w reports) (\<lambda>exclusion.
       Inr (mine_candidates (mine_config_of c) genre
         (enumerate_terms casefold genre (cf_safety_max_chunk_tokens c) pipeline segs) misses exclusion
         (index_documents casefold (corpus_files c genre archive_files w reports))))))"

section \<open>Reading what was written\<close>

definition seg_line_of :: "pystr \<Rightarrow> text_segment \<Rightarrow> seg_line" where
  "seg_line_of rep sg = \<lparr>sl_report = rep, sl_char_start = int (ts_char_start sg), sl_text = ts_text sg\<rparr>"

definition list_of :: "'a list option \<Rightarrow> 'a list" where
  "list_of x = (case x of None \<Rightarrow> [] | Some xs \<Rightarrow> xs)"

lemma list_of_simps [simp]: "list_of None = []" "list_of (Some xs) = xs"
  by (simp_all add: list_of_def)

lemma over_files_written:
  assumes "list_all (\<lambda>rep. wd_files w (place (file_of rep)) = map_option (\<lambda>xs. jsonl (map g xs)) (written rep)
      \<and> reads_back loads (map g (list_of (written rep)))) reports"
    and "\<And>x. is_object (g x)" "\<And>rep xs. f rep (map g xs) = Inr (h rep xs)" "\<And>rep. h rep [] = []"
  shows "over_files loads file_of w f reports = Inr (concat (map (\<lambda>rep. h rep (list_of (written rep))) reports))"
  using assms(1)
proof (induction reports)
  case (Cons rep reports)
  have "list_all is_object (map g xs)" for xs using assms(2) by (simp add: list_all_iff)
  then have "read_jsonl loads (jsonl (map g xs)) = Inr (map g xs)" if "written rep = Some xs" for xs
    using that Cons.prems by (intro read_jsonl_jsonl) auto
  then show ?case using Cons assms(3,4) by (cases "written rep") simp_all
qed simp

lemma seg_line_of_segment_json [simp]: "seg_line_of_json rep (segment_json sg) = Inr (seg_line_of rep sg)"
  by (simp add: seg_line_of_json_def segment_json_def seg_line_of_def field_defs)

lemma novel_rows_mention: "novel_rows (mention_json r) =
    Inr (if mn_status r = lit ''novel'' then [mined_mention (lit ''novel'') (mn_surface r) (mn_start r) (mn_end r)] else [])"
  by (simp add: novel_rows_def mention_json_def has_status_def field_defs)

lemma linked_rows_mention: "linked_rows (mention_json r) =
    Inr (if mn_status r = lit ''linked'' \<and> mn_surface r \<noteq> [] then [mined_mention (lit ''linked'') (mn_surface r) 0 0] else [])"
  by (simp add: linked_rows_def mention_json_def has_status_def field_defs)

lemma concat_if: "concat (map (\<lambda>r. if P r then [g r] else []) rs) = map g (filter P rs)"
  by (induction rs) auto

lemma misses_read: "bind_result (map_result novel_rows (map mention_json rs)) (\<lambda>rows. Inr (read_miss_candidates casefold rep (concat rows)))
    = Inr (read_miss_candidates casefold rep rs)"
proof -
  have "map_result novel_rows (map mention_json rs) =
      Inr (map (\<lambda>r. if mn_status r = lit ''novel'' then [mined_mention (lit ''novel'') (mn_surface r) (mn_start r) (mn_end r)] else []) rs)"
    by (rule map_result_inverse) (simp add: novel_rows_mention)
  then show ?thesis by (simp add: concat_if read_miss_candidates_def mined_mention_def filter_map comp_def)
qed

lemma linked_read: "bind_result (map_result linked_rows (map mention_json rs)) (\<lambda>rows. Inr (concat rows))
    = Inr (map (\<lambda>r. mined_mention (lit ''linked'') (mn_surface r) 0 0) (filter (\<lambda>r. mn_status r = lit ''linked'' \<and> mn_surface r \<noteq> []) rs))"
proof -
  have "map_result linked_rows (map mention_json rs) =
      Inr (map (\<lambda>r. if mn_status r = lit ''linked'' \<and> mn_surface r \<noteq> [] then [mined_mention (lit ''linked'') (mn_surface r) 0 0] else []) rs)"
    by (rule map_result_inverse) (simp add: linked_rows_mention)
  then show ?thesis by (simp add: concat_if)
qed

lemma exclusion_of_rows:
  "build_exclusion_set entities labels (map (\<lambda>r. mined_mention (lit ''linked'') (mn_surface r) 0 0)
       (filter (\<lambda>r. mn_status r = lit ''linked'' \<and> mn_surface r \<noteq> []) rs))
   = build_exclusion_set entities labels rs"
  by (simp add: build_exclusion_set_def exclusion_sequences_def mined_mention_def filter_map comp_def)

section \<open>The hand-over to mining\<close>

text \<open>What the reports' files hold: the segments and the mentions written, or nothing.\<close>

definition holds_artifacts :: "json_loads \<Rightarrow> config \<Rightarrow> pystr \<Rightarrow> world \<Rightarrow> pystr list \<Rightarrow>
    (pystr \<Rightarrow> text_segment list option) \<Rightarrow> (pystr \<Rightarrow> mention_record list option) \<Rightarrow> bool" where
  "holds_artifacts loads c genre w reports sgs found \<longleftrightarrow> list_all (\<lambda>rep.
       wd_files w (place (mine_segments_path c genre rep)) = map_option segments_jsonl (sgs rep)
     \<and> wd_files w (place (mine_mentions_path c genre rep)) = map_option mentions_jsonl (found rep)
     \<and> reads_back loads (map segment_json (list_of (sgs rep))) \<and> reads_back loads (map mention_json (list_of (found rep)))) reports"

definition input_of :: "(pystr \<Rightarrow> doc) option \<Rightarrow> pystr list \<Rightarrow> (pystr \<Rightarrow> text_segment list option) \<Rightarrow>
    (pystr \<Rightarrow> mention_record list option) \<Rightarrow> known_entity list \<Rightarrow> pystr set \<Rightarrow> (pystr \<times> pystr) list \<Rightarrow> mine_input" where
  "input_of pipeline reports sgs found entities labels files =
     \<lparr>mi_pipeline = pipeline, mi_segments = concat (map (\<lambda>rep. map (seg_line_of rep) (list_of (sgs rep))) reports),
      mi_mentions = map (\<lambda>rep. (rep, list_of (found rep))) reports, mi_entities = entities,
      mi_role_reactor_labels = sorted_list_of_set labels, mi_files = files\<rparr>"

lemma read_artifacts:
  assumes "holds_artifacts loads c genre w reports sgs found"
  shows "read_seg_lines loads c genre w reports = Inr (concat (map (\<lambda>rep. map (seg_line_of rep) (list_of (sgs rep))) reports))"
    "read_misses casefold loads c genre w reports = Inr (concat (map (\<lambda>rep. read_miss_candidates casefold rep (list_of (found rep))) reports))"
    "over_files loads (mine_mentions_path c genre) w
         (\<lambda>rep vs. bind_result (map_result linked_rows vs) (\<lambda>rows. Inr (concat rows))) reports
      = Inr (map (\<lambda>r. mined_mention (lit ''linked'') (mn_surface r) 0 0)
          (filter (\<lambda>r. mn_status r = lit ''linked'' \<and> mn_surface r \<noteq> []) (concat (map (\<lambda>rep. list_of (found rep)) reports))))"
proof -
  have segs: "list_all (\<lambda>rep. wd_files w (place (mine_segments_path c genre rep)) = map_option (\<lambda>xs. jsonl (map segment_json xs)) (sgs rep)
      \<and> reads_back loads (map segment_json (list_of (sgs rep)))) reports"
    and ments: "list_all (\<lambda>rep. wd_files w (place (mine_mentions_path c genre rep)) = map_option (\<lambda>xs. jsonl (map mention_json xs)) (found rep)
      \<and> reads_back loads (map mention_json (list_of (found rep)))) reports"
    using assms by (simp_all add: holds_artifacts_def list_all_iff segments_jsonl_def [abs_def] mentions_jsonl_def [abs_def])
  have objects: "is_object (segment_json x)" "is_object (mention_json y)" for x y
    by (simp_all add: is_object_def segment_json_def mention_json_def)
  have lines: "map_result (seg_line_of_json rep) (map segment_json xs) = Inr (map (seg_line_of rep) xs)" for rep xs
    by (rule map_result_inverse) simp
  show "read_seg_lines loads c genre w reports = Inr (concat (map (\<lambda>rep. map (seg_line_of rep) (list_of (sgs rep))) reports))"
    unfolding read_seg_lines_def by (rule over_files_written [where g = segment_json and written = sgs and h = "\<lambda>rep. map (seg_line_of rep)", OF segs objects(1) lines]) simp
  show "read_misses casefold loads c genre w reports = Inr (concat (map (\<lambda>rep. read_miss_candidates casefold rep (list_of (found rep))) reports))"
    unfolding read_misses_def by (rule over_files_written [where g = mention_json and written = found and h = "read_miss_candidates casefold", OF ments objects(2) misses_read]) (simp add: read_miss_candidates_def)
  have "over_files loads (mine_mentions_path c genre) w
         (\<lambda>rep vs. bind_result (map_result linked_rows vs) (\<lambda>rows. Inr (concat rows))) reports
      = Inr (concat (map (\<lambda>rep. map (\<lambda>r. mined_mention (lit ''linked'') (mn_surface r) 0 0)
          (filter (\<lambda>r. mn_status r = lit ''linked'' \<and> mn_surface r \<noteq> []) (list_of (found rep)))) reports))"
    by (rule over_files_written [where g = mention_json and written = found and h = "\<lambda>rep rs. map (\<lambda>r. mined_mention (lit ''linked'') (mn_surface r) 0 0)
          (filter (\<lambda>r. mn_status r = lit ''linked'' \<and> mn_surface r \<noteq> []) rs)", OF ments objects(2) linked_read]) simp
  then show "over_files loads (mine_mentions_path c genre) w
         (\<lambda>rep vs. bind_result (map_result linked_rows vs) (\<lambda>rows. Inr (concat rows))) reports
      = Inr (map (\<lambda>r. mined_mention (lit ''linked'') (mn_surface r) 0 0)
          (filter (\<lambda>r. mn_status r = lit ''linked'' \<and> mn_surface r \<noteq> []) (concat (map (\<lambda>rep. list_of (found rep)) reports))))"
    by (simp add: filter_concat map_concat comp_def)
qed

lemma mined_unknown:
  assumes "cand \<in> set (mine_candidates mc genre lexical misses (build_index known) docs)" "s \<in> set known" "s \<noteq> []"
  shows "\<not> sublist s (normalize_token_sequence (ca_term cand))"
proof -
  have "set (bound_candidates n xs) \<subseteq> set xs" for n and xs :: "mined list"
    by (auto simp: bound_candidates_def dest: set_slice_to)
  then have "cand \<in> set (eligible mc genre lexical misses known docs)"
    using assms(1) unfolding mine_candidates_eligible by auto
  then show ?thesis using assms(2,3) by (auto simp: eligible_def observed_def list_ex_iff)
qed


text \<open>Two reports; of the second there is nothing.\<close>

definition sample_sg :: text_segment where
  "sample_sg = \<lparr>ts_report = lit ''R'', ts_index = 0, ts_text = lit ''is'', ts_char_start = 0, ts_char_end = 2\<rparr>"

definition sample_mention :: mention_record where
  "sample_mention = \<lparr>mn_report = lit ''R'', mn_seg_index = 0, mn_start = 0, mn_end = 2, mn_surface = lit ''is'',
     mn_status = lit ''linked'', mn_target_iri = Some (lit ''voc:flibe''), mn_target_kind = Some (lit ''concept''), mn_layer = 2, mn_score = None\<rparr>"

definition sample_loads :: json_loads where
  "sample_loads s = (if s = json_dumps (segment_json sample_sg) then Some (segment_json sample_sg)
     else if s = json_dumps (mention_json sample_mention) then Some (mention_json sample_mention) else None)"

definition sample_files :: world where
  "sample_files = \<lparr>wd_files = [place (segments_path default_config (lit ''R'')) \<mapsto> segments_jsonl [sample_sg],
     place (mentions_path default_config (lit ''R'')) \<mapsto> mentions_jsonl [sample_mention]], wd_checkout = True, wd_updates = []\<rparr>"


end
