(* ===== verification/Cli_Parser.thy ===== *)
theory Cli_Parser
  imports Cli
begin

text \<open>
  The command line's parser as data (\<open>_build_parser\<close> of \<open>cli.py\<close>) and the two tables of handlers. What
  argparse does with the description (reading of the arguments, usage texts, exit code 2) is outside the
  model; what is checked is that \<open>main\<close> has a stage for every command the parser lets through.
\<close>

section \<open>The parser\<close>

record option_parser =
  op_flag :: pystr
  op_append :: bool
  op_int :: bool
  op_metavar :: pystr
  op_help :: pystr

record subparser =
  so_name :: pystr
  so_help :: pystr
  so_options :: "option_parser list"

record argument_parser =
  ap_prog :: pystr
  ap_description :: pystr
  ap_commands :: "subparser list"
  ap_safety :: "subparser list"

definition safety_parsers :: "subparser list" where
  \<open>safety_parsers =
    [\<lparr>so_name = lit ''fetch'', so_help = concat [lit ''Fetch the cached safety-source PDFs (scripts/fetch-safety-sources.sh; '',
       lit ''idempotent).''],
      so_options = []\<rparr>,
     \<lparr>so_name = lit ''extract'', so_help = lit ''pypdf-extract, normalize, and segment every cached safety-source PDF.'',
      so_options = []\<rparr>,
     \<lparr>so_name = lit ''documents'', so_help = lit ''Write the four attributed safety Document provenance nodes to the graph.'',
      so_options = []\<rparr>,
     \<lparr>so_name = lit ''mine'', so_help = concat [lit ''Re-run mining for the safety genre against already-written segments/mentions, '',
       lit ''without re-running extract/link.''],
      so_options = []\<rparr>,
     \<lparr>so_name = lit ''ingest'', so_help = concat [lit ''Run extract, documents, link, mine, and the second-phase safety relations '',
       lit ''extraction over the safety genre, in order.''],
      so_options = []\<rparr>]\<close>

definition command_parsers :: "subparser list" where
  \<open>command_parsers =
    [\<lparr>so_name = lit ''acquire'', so_help = lit ''Clone the msr-archive corpus (idempotent).'',
      so_options = []\<rparr>,
     \<lparr>so_name = lit ''manifest'', so_help = lit ''Parse the msr-archive README manifest and print a summary.'',
      so_options = []\<rparr>,
     \<lparr>so_name = lit ''normalize'', so_help = lit ''Normalize and segment the curated document set.'',
      so_options = []\<rparr>,
     \<lparr>so_name = lit ''documents'', so_help = lit ''Write curated Document provenance nodes to the graph.'',
      so_options = []\<rparr>,
     \<lparr>so_name = lit ''ingest'', so_help = lit ''Run acquire, manifest, normalize, and documents in order.'',
      so_options = []\<rparr>,
     \<lparr>so_name = lit ''link'', so_help = concat [lit ''Link recognized spans to known entities; write msr:Mention triples + '',
       lit ''mentions.jsonl.''],
      so_options = [\<lparr>op_flag = lit ''--report'', op_append = True, op_int = False, op_metavar = lit ''ID'',
       op_help = concat [lit ''Restrict linking to this curated report id (repeatable). Default: all curated '',
       lit ''reports.'']\<rparr>,
      \<lparr>op_flag = lit ''--limit'', op_append = False, op_int = True, op_metavar = lit ''N'',
       op_help = lit ''Process only the first N of the (possibly --report-filtered) selection.''\<rparr>]\<rparr>,
     \<lparr>so_name = lit ''mine'', so_help = concat [lit ''Mine novel ontology candidates from curated text + chunk-6 misses; write '',
       lit ''proposals to staging + auto-accepted instances to data.''],
      so_options = []\<rparr>,
     \<lparr>so_name = lit ''extract'', so_help = concat [lit ''Extract salt<->property<->value measurements and salt<->role/reactor edges from '',
       lit ''linked sentences; write both stores + relations.jsonl.''],
      so_options = [\<lparr>op_flag = lit ''--report'', op_append = True, op_int = False, op_metavar = lit ''ID'',
       op_help = concat [lit ''Restrict extraction to this curated report id (repeatable). Default: all curated '',
       lit ''reports.'']\<rparr>,
      \<lparr>op_flag = lit ''--limit'', op_append = False, op_int = True, op_metavar = lit ''N'',
       op_help = lit ''Process only the first N of the (possibly --report-filtered) selection.''\<rparr>]\<rparr>,
     \<lparr>so_name = lit ''backfill-observations'', so_help = concat [lit ''Deterministic, inference-free backfill: re-scan both cached corpora and rebuild '',
       lit ''per-document/per-corpus observations for already-staged proposals, then remove '',
       lit ''the stale docFrequency scalars (proposal-observation-provenance D4).''],
      so_options = []\<rparr>,
     \<lparr>so_name = lit ''safety'', so_help = concat [lit ''Safety-genre pipeline over the four IAEA/GIF/ORNL sources (design.md D8, '',
       lit ''ingest-iaea-safety chunk 11).''],
      so_options = []\<rparr>]\<close>

definition build_parser :: argument_parser where
  "build_parser = \<lparr>ap_prog = lit ''msr-extraction'', ap_description = lit ''MSR knowledge-graph extraction pipeline.'',
     ap_commands = command_parsers, ap_safety = safety_parsers\<rparr>"

text \<open>The commands parsed: both levels are required; \<open>--report\<close> and \<open>--limit\<close> exist only where they are declared.\<close>

definition takes :: "subparser \<Rightarrow> string \<Rightarrow> bool" where
  "takes p flag \<longleftrightarrow> list_ex (\<lambda>opt. op_flag opt = lit flag) (so_options p)"

definition parsed :: "argument_parser \<Rightarrow> cli_args \<Rightarrow> bool" where
  "parsed ap args \<longleftrightarrow> list_ex (\<lambda>p. so_name p = ca_command args
       \<and> (takes p ''--report'' \<or> ca_report args = None) \<and> (takes p ''--limit'' \<or> ca_limit args = None)) (ap_commands ap)
     \<and> (ca_command args = lit ''safety'' \<longrightarrow> ca_safety_command args \<in> set (map so_name (ap_safety ap)))"

section \<open>The commands that print one line\<close>

definition printing :: "('a \<Rightarrow> pystr) \<Rightarrow> ('w \<Rightarrow> 'w \<times> 'a result) \<Rightarrow> 'w \<Rightarrow> 'w \<times> pystr list \<times> int result" where
  "printing line stage w = (case stage w of (w, Inl e) \<Rightarrow> (w, [], Inl e) | (w, Inr x) \<Rightarrow> (w, [line x], Inr 0))"

definition cmd_mine :: "(pystr \<Rightarrow> 'w \<Rightarrow> 'w \<times> summary result) \<Rightarrow> 'w \<Rightarrow> 'w \<times> pystr list \<times> int result" where
  "cmd_mine run = printing (mine_line (lit ''mine:'')) (run (lit ''chemistry''))"

definition cmd_safety_mine :: "(pystr \<Rightarrow> 'w \<Rightarrow> 'w \<times> summary result) \<Rightarrow> 'w \<Rightarrow> 'w \<times> pystr list \<times> int result" where
  "cmd_safety_mine run = printing (mine_line (lit ''safety mine:'')) (run (lit ''safety''))"

definition cmd_backfill_observations :: "('w \<Rightarrow> 'w \<times> backfill_summary result) \<Rightarrow> 'w \<Rightarrow> 'w \<times> pystr list \<times> int result" where
  "cmd_backfill_observations run = printing backfill_line run"

section \<open>The handlers\<close>

definition HANDLER_NAMES :: "pystr list" where
  "HANDLER_NAMES = [lit ''acquire'', lit ''manifest'', lit ''normalize'', lit ''documents'', lit ''ingest'', lit ''link'',
     lit ''mine'', lit ''extract'', lit ''backfill-observations'']"

definition SAFETY_HANDLER_NAMES :: "pystr list" where
  "SAFETY_HANDLER_NAMES = [lit ''fetch'', lit ''extract'', lit ''documents'', lit ''mine'', lit ''ingest'']"

definition has_handlers :: "'w handlers \<Rightarrow> bool" where
  "has_handlers hs \<longleftrightarrow> list_all (\<lambda>n. h_other hs n \<noteq> None) HANDLER_NAMES \<and> list_all (\<lambda>n. h_safety hs n \<noteq> None) SAFETY_HANDLER_NAMES"

lemma command_names: "map so_name command_parsers = [lit ''acquire'', lit ''manifest'', lit ''normalize'', lit ''documents'',
    lit ''ingest'', lit ''link'', lit ''mine'', lit ''extract'', lit ''backfill-observations'', lit ''safety'']"
  by (simp add: command_parsers_def)

lemma safety_names: "map so_name safety_parsers = SAFETY_HANDLER_NAMES"
  by (simp add: safety_parsers_def SAFETY_HANDLER_NAMES_def)

lemma handler_names: "set (map so_name command_parsers) = insert (lit ''safety'') (set HANDLER_NAMES)"
  unfolding command_names HANDLER_NAMES_def by auto

text \<open>
  Every command the parser lets through has its stage: with the code's tables, \<open>main\<close> runs a handler on the
  configuration, unless the environment is invalid or the selection of reports is refused, and it never fails
  to find one. Only \<open>link\<close> and \<open>extract\<close> have a selection to make.
\<close>

definition stage_of :: "'w handlers \<Rightarrow> cli_args \<Rightarrow> config \<Rightarrow> ('w \<Rightarrow> 'w \<times> int result) option" where
  "stage_of hs args c =
     (if ca_command args \<in> {lit ''link'', lit ''extract''} then
        (case resolve_link_reports CURATED_REPORTS (ca_report args) (ca_limit args) of Inl _ \<Rightarrow> None
         | Inr reports \<Rightarrow> Some ((if ca_command args = lit ''link'' then h_link hs else h_extract hs) c reports))
      else if ca_command args = lit ''safety'' then map_option (\<lambda>f. f c) (h_safety hs (ca_safety_command args))
      else map_option (\<lambda>f. f c) (h_other hs (ca_command args)))"

lemma parsed_command: "parsed build_parser args \<Longrightarrow> ca_command args \<in> insert (lit ''safety'') (set HANDLER_NAMES)"
proof -
  assume "parsed build_parser args"
  then obtain p where "p \<in> set command_parsers" "so_name p = ca_command args" by (auto simp: parsed_def build_parser_def list_ex_iff)
  then have "ca_command args \<in> set (map so_name command_parsers)" by force
  then show ?thesis unfolding handler_names .
qed

lemma parsed_options:
  "parsed build_parser args \<Longrightarrow> ca_command args \<notin> {lit ''link'', lit ''extract''} \<Longrightarrow> ca_report args = None \<and> ca_limit args = None"
  by (auto simp: parsed_def build_parser_def command_parsers_def takes_def)

theorem parsed_commands_handled:
  assumes "parsed build_parser args" "has_handlers hs" "from_env env = Inr c"
  shows "(ca_command args \<in> {lit ''link'', lit ''extract''} \<or> ca_report args = None \<and> ca_limit args = None)
    \<and> (case stage_of hs args c of
         Some stage \<Rightarrow> main hs env args w = (fst (stage w), [], snd (stage w))
       | None \<Rightarrow> ca_command args \<in> {lit ''link'', lit ''extract''} \<and> (\<exists>message. main hs env args w = (w, [message], Inr 1)))"
proof -
  have "ca_command args \<in> set HANDLER_NAMES \<or> ca_command args = lit ''safety'' \<and> ca_safety_command args \<in> set SAFETY_HANDLER_NAMES"
    using parsed_command [OF assms(1)] assms(1) by (auto simp: parsed_def build_parser_def safety_names [symmetric])
  then have handled: "ca_command args = lit ''safety'' \<Longrightarrow> h_safety hs (ca_safety_command args) \<noteq> None"
    "ca_command args \<noteq> lit ''safety'' \<Longrightarrow> h_other hs (ca_command args) \<noteq> None"
    using assms(2) by (auto simp: has_handlers_def list_all_iff HANDLER_NAMES_def lit_def)
  have "case stage_of hs args c of
         Some stage \<Rightarrow> main hs env args w = (fst (stage w), [], snd (stage w))
       | None \<Rightarrow> ca_command args \<in> {lit ''link'', lit ''extract''} \<and> (\<exists>message. main hs env args w = (w, [message], Inr 1))"
  proof (cases "ca_command args \<in> {lit ''link'', lit ''extract''}")
    case True
    then show ?thesis using assms(3)
      by (auto simp: main_def stage_of_def run_selected_def lit_def split: sum.splits prod.splits)
  next
    case False
    then show ?thesis using handled assms(3)
      by (cases "ca_command args = lit ''safety''") (auto simp: main_def stage_of_def run_handler_def split: prod.splits)
  qed
  then show ?thesis using parsed_options [OF assms(1)] by blast
qed

end
