(* ===== verification/Shared_Helpers.thy ===== *)
theory Shared_Helpers
  imports Documents Proposals PyJson
begin

text \<open>
  The helpers of which several modules have their own copy (escaping of literals, local names, decimal
  numbers), each as its module has it, and the file of allowed units and quantity kinds that
  \<open>load_qudt_allowlist\<close> of \<open>proposals.py\<close> reads. The other theories use one definition for all copies; that is
  justified here.
\<close>

section \<open>The copies\<close>

definition edges_escape_literal :: "pystr \<Rightarrow> pystr" where
  "edges_escape_literal s = (let s = replace [92] [92, 92] s; s = replace [34] [92, 34] s; s = replace [10] [92, 110] s;
     s = replace [9] [92, 116] s in replace [13] [92, 114] s)"

definition mentions_escape_literal :: "pystr \<Rightarrow> pystr" where
  "mentions_escape_literal s = (let s = replace [92] [92, 92] s; s = replace [34] [92, 34] s; s = replace [10] [92, 110] s;
     s = replace [9] [92, 116] s in replace [13] [92, 114] s)"

definition proposals_escape_literal :: "pystr \<Rightarrow> pystr" where
  "proposals_escape_literal s = (let s = replace [92] [92, 92] s; s = replace [34] [92, 34] s; s = replace [10] [92, 110] s;
     s = replace [9] [92, 116] s in replace [13] [92, 114] s)"

definition edges_local :: "pystr \<Rightarrow> pystr" where
  "edges_local iri = (if 35 \<in> set iri then after_last 35 iri else if 58 \<in> set iri then after_last 58 iri else iri)"

definition edges_format_number :: "pyfloat \<Rightarrow> pystr" where
  "edges_format_number v = (let s = float_repr v; s = (if 101 \<in> set s \<or> 69 \<in> set s then format_fixed 6 v else s)
     in if 46 \<notin> set s then s @ lit ''.0'' else s)"

definition edges_format_confidence :: "pyfloat \<Rightarrow> pystr" where
  "edges_format_confidence v = (let v = (if \<not> is_finite v then Fin 0 else v) in edges_format_number v)"

text \<open>
  All copies are one function, with one exception: the copy of \<open>documents.py\<close> leaves a carriage return as it
  is, and so differs exactly on the texts that have one.
\<close>

lemma document_escape_differs: "document_escape_literal s = escape_literal s \<longleftrightarrow> 13 \<notin> set s"
proof -
  have "13 \<in> set (document_escape_literal s)" if "13 \<in> set s"
    using that by (auto simp: document_escape_literal_def replace_one)
  moreover have "13 \<notin> set (escape_literal s)" by (auto simp: escape_literal_def replace_one)
  ultimately show ?thesis using escape_without_return by metis
qed

theorem helper_copies_agree:
  "edges_escape_literal = escape_literal \<and> mentions_escape_literal = escape_literal \<and> proposals_escape_literal = escape_literal
   \<and> (\<forall>s. document_escape_literal s = escape_literal s \<longleftrightarrow> 13 \<notin> set s)
   \<and> edges_local = local_part \<and> edges_format_number = format_number \<and> edges_format_confidence = format_confidence"
proof -
  have "edges_escape_literal = escape_literal" "mentions_escape_literal = escape_literal" "proposals_escape_literal = escape_literal"
    by (simp_all add: fun_eq_iff edges_escape_literal_def mentions_escape_literal_def proposals_escape_literal_def escape_literal_def Let_def)
  moreover have "edges_local = local_part" by (simp add: fun_eq_iff edges_local_def local_part_def)
  moreover have number: "edges_format_number = format_number" by (simp add: fun_eq_iff edges_format_number_def format_number_def Let_def)
  moreover have "edges_format_confidence = format_confidence"
    by (simp add: fun_eq_iff edges_format_confidence_def format_confidence_def number)
  ultimately show ?thesis using document_escape_differs by blast
qed

section \<open>The allowlist\<close>

text \<open>\<open>frozenset\<close> of a parsed value, as far as it can hold a text: members of other types equal no text, an
  object or array as a member is not hashable. \<open>None\<close>: it raises.\<close>

definition member_of_json :: "json \<Rightarrow> pystr set option" where
  "member_of_json j = (case j of JStr s \<Rightarrow> Some {s} | JArr _ \<Rightarrow> None | JObj _ \<Rightarrow> None | _ \<Rightarrow> Some {})"

fun members_of :: "json list \<Rightarrow> pystr set option" where
  "members_of [] = Some {}"
| "members_of (j # js) = (case (member_of_json j, members_of js) of (Some a, Some b) \<Rightarrow> Some (a \<union> b) | _ \<Rightarrow> None)"

definition frozenset_of :: "json \<Rightarrow> pystr set option" where
  "frozenset_of j = (case j of
       JArr js \<Rightarrow> members_of js
     | JStr s \<Rightarrow> Some (set (map (\<lambda>c. [c]) s))
     | JObj d \<Rightarrow> Some (set (map fst d))
     | _ \<Rightarrow> None)"

definition load_qudt_allowlist :: "(pystr \<Rightarrow> json option) \<Rightarrow> pystr \<Rightarrow> qudt_allowlist option" where
  "load_qudt_allowlist loads content = (case loads content of
       Some (JObj data) \<Rightarrow>
         (let entry = (\<lambda>key. case map_of data (lit key) of None \<Rightarrow> Some {} | Some j \<Rightarrow> frozenset_of j)
          in case (entry ''allowedUnits'', entry ''allowedQuantityKinds'') of
             (Some us, Some qks) \<Rightarrow> Some \<lparr>al_units = us, al_quantity_kinds = qks\<rparr> | _ \<Rightarrow> None)
     | _ \<Rightarrow> None)"

lemma members_of_texts: "members_of (map JStr xs) = Some (set xs)"
  by (induction xs) (simp_all add: member_of_json_def)

text \<open>Of a file in the vendored form, with two arrays of texts, the allowlist has exactly these texts.\<close>

lemma load_qudt_allowlist_spec:
  assumes "loads content = Some (JObj data)"
    "map_of data (lit ''allowedUnits'') = Some (JArr (map JStr us))"
    "map_of data (lit ''allowedQuantityKinds'') = Some (JArr (map JStr qks))"
  shows "load_qudt_allowlist loads content = Some \<lparr>al_units = set us, al_quantity_kinds = set qks\<rparr>"
  using assms by (simp add: load_qudt_allowlist_def frozenset_of_def members_of_texts Let_def)

end
