(* ===== verification/Spec2Isabelle.thy ===== *)
theory Spec2Isabelle
  imports Prelude PyStr Slug PyFloat PyFloat_Facts PyJson Equations Units Relations Relation_Gate
    Relation_Prompt Relation_Dedupe Relation_Trace Relation_Report Turtle Sparql Measurement_Store
    Measurements Edges PyRegex Formula Decimal_Facts Formula_Facts
    Kg_Prompt Linker Mentions Disambiguation Flash_Client
    Mining_Types Triage Mine_Provenance Proposals Terms Novelty Mine_Runner
    Normalizer Segmenter Manifest Documents Graph_Reader Backfill Link_Stage Extract_Stage
    Artifacts Config Ingest Cli Variants
    Signals Graph_Query Safety_Corpus Mine_Files Cli_Parser Shared_Helpers
begin

text \<open>
  A verification library for the extraction pipeline of msr-graph, the Python package
  \<open>src/extraction/src/msr_extraction\<close>. The pipeline reads technical reports on molten salt
  reactors, links mentions of salts, properties, roles and reactors to a knowledge graph, asks a
  language model for the relations a sentence states, checks every proposal, and writes what
  passes to an RDF store and to a SQLite table. The model proposes and the application
  validates: the properties below are about the application.

  How the parts interact. \<open>relations.py\<close> selects the sentences with linked mentions, sends one
  prompt per sentence, and passes each relation of the reply through its gate, which uses
  \<open>units.py\<close> for units and \<open>equations.py\<close> for correlations. What is accepted is deduplicated
  and handed to \<open>measurements.py\<close> (data graph, then SQLite through \<open>measurement_store.py\<close>,
  then the provenance graph) and to \<open>edges.py\<close>; both write through \<open>sparql.py\<close> with the
  activity of \<open>provenance.py\<close>. Salts are named by \<open>formula.py\<close>, whose canonical form the
  Go loader computes too.

  Before extraction, \<open>linker.py\<close> finds the mentions of a segment in layers: the salts of
  \<open>formula.py\<close>, the exact and gazetteer matches of \<open>seeding.py\<close>, a fuzzy match, and last the
  model through \<open>disambiguation.py\<close>, whose prompt prefix \<open>kg_prompt.py\<close> caches and whose answers
  \<open>disambig_cache.py\<close> keeps across runs; \<open>mentions.py\<close> writes the result in batches. Beside it,
  \<open>mine_runner.py\<close> looks for what the graph does not know yet: \<open>novelty.py\<close> lists terms of the
  corpus that no known label occurs in, \<open>triage.py\<close> asks the model what kind each is, and
  \<open>proposals.py\<close> and \<open>auto_accept.py\<close> turn the answers into proposals for review or individuals,
  attributed to the run by \<open>mine_provenance.py\<close>.

  Theories and what they model.

  \<^item> \<open>Prelude\<close>: exceptions and results (\<open>Inl\<close> an exception, \<open>Inr\<close> a value), Python's
    \<open>min\<close> with a key, positions of lists.
  \<^item> \<open>PyStr\<close>: strings as lists of code points with the methods the code uses. \<open>PyFloat\<close>: IEEE
    754 doubles as exact rationals with rounding, \<open>float(text)\<close>, \<open>format\<close> and \<open>repr\<close>;
    \<open>PyFloat_Facts\<close> and \<open>Decimal_Facts\<close> prove rounding errors, exactness, and that one-decimal
    texts survive a round trip. \<open>PyJson\<close>: parsed JSON. \<open>PyRegex\<close>: a backtracking matcher.
  \<^item> \<open>Slug\<close>: \<open>slugify\<close> of \<open>formula.py\<close>, \<open>measurements.py\<close> and \<open>edges.py\<close>, proved equal.
  \<^item> \<open>Equations\<close>: \<open>equations.py\<close>. \<open>Units\<close>: \<open>units.py\<close>, with the locale \<open>unit_resolver\<close> that
    the gate relies on.
  \<^item> \<open>Relations\<close>: the data and the gate of \<open>relations.py\<close>; a payload is a value of the sum
    \<open>payload\<close>, a verdict a payload or none with its trace record. \<open>Relation_Gate\<close>: what the gate
    accepts is admissible, what it refuses has a reason, when it raises. \<open>Relation_Prompt\<close>:
    sentences, prompt and reply. \<open>Relation_Dedupe\<close>: \<open>_dedupe_by_key\<close> over the locale \<open>ranked\<close>.
    \<open>Relation_Trace\<close>: the invariant that ties records marked written to payloads.
    \<open>Relation_Report\<close>: \<open>extract_report\<close>, with a schedule for the worker pool.
  \<^item> \<open>Turtle\<close>: literals, terms, decimals and indentation of the emitted text, with the locale
    \<open>literal_codec\<close> whose decoder is the grammar's literal reader. \<open>Sparql\<close>: the client and the
    activity records; the endpoint is a function from the updates accepted so far and a new one
    to an answer. \<open>Measurement_Store\<close>: the table as a map by locator, with the locale
    \<open>keyed_store\<close>. \<open>Measurements\<close> and \<open>Edges\<close>: the writers, as functions on the accepted
    updates and the table that return the new state together with a result, so that a failure
    keeps the writes made before it.
  \<^item> \<open>Formula\<close> and \<open>Formula_Facts\<close>: canonical salts, the cleaning and repair of mentions, and
    the regular expressions they use.
  \<^item> \<open>Kg_Prompt\<close>: the prompt prefix and its cache as a state. \<open>Linker\<close>: the layers of
    \<open>link_segment\<close> as functions on the records found so far. \<open>Mentions\<close>: the batched writer.
    \<open>Disambiguation\<close>: prompt, reply, cache file and the cached disambiguator. \<open>Flash_Client\<close>:
    \<open>FlashClient\<close> with its double-checked lock, the threads of the pool as interleaving steps.
  \<^item> \<open>Mining_Types\<close>: data, slugs and \<open>safe_type_ref\<close>, with a description of the tokens it lets
    through. \<open>Terms\<close>: tokens, n-grams, noun chunks and the two corpus scans, proved to agree.
    \<open>Novelty\<close>: the exclusion index, over the locale \<open>exclusion_filter\<close>, and \<open>mine_candidates\<close>.
    \<open>Triage\<close>: prompt and reply. \<open>Signals\<close>: the context hint of \<open>triage.py\<close> and the evolution targets of
    \<open>curated.py\<close>, on a matcher with alternation and word boundaries that is proved to agree with the
    inductive relation of what a pattern spans. \<open>Mine_Provenance\<close> and \<open>Proposals\<close>: the updates of a run and the
    guards of a proposal. \<open>Mine_Runner\<close>: the run, with a schedule for its pool and explicit state;
    it is proved to carry out a list of decisions, one per candidate, so that what it sends is a
    plan known in advance and its summary an account of the decisions.

  \<^item> \<open>Normalizer\<close>: each step of \<open>normalizer.py\<close> as a function on the text. \<open>Segmenter\<close>: paragraphs,
    sentences and their offsets. \<open>Manifest\<close>: the table of the archive and the safety sources.
    \<open>Documents\<close>: the document records. \<open>Graph_Reader\<close>: the queries of \<open>graph_reader.py\<close> and how rows
    become entities. \<open>Graph_Query\<close>: how it sends a query, with UTF-8 and form encoding and the decoding
    by the server's side. \<open>Backfill\<close>: \<open>backfill_observations.py\<close> with explicit state.
  \<^item> \<open>Artifacts\<close>: \<open>segments.jsonl\<close>, \<open>mentions.jsonl\<close> and \<open>relations.jsonl\<close>: \<open>json.dumps\<close>, reading by
    lines, and what one stage hands to the next. \<open>Config\<close>: \<open>config.py\<close>, paths as root and components,
    and the place where the system finds one; no two artifacts share a place.
  \<^item> \<open>Variants\<close>: the label variants of \<open>variants.py\<close>, the patterns made of them and \<open>build_matcher\<close>.
    \<open>Shared_Helpers\<close>: the helpers of which several modules have a copy, compared, and the allowlist file.
  \<^item> The stages of \<open>cli.py\<close>. \<open>Ingest\<close>: acquire, manifest, normalize, documents and their umbrella on a
    world of files and accepted updates. \<open>Link_Stage\<close>: the linker with a disambiguator that has
    effects, the collecting scan, the pool that resolves ahead (a schedule gives the order in which it
    finishes) and the cache shared by the reports of a run; the questions a report asks are proved not
    to depend on the answers, which is why resolving them ahead changes nothing. \<open>Extract_Stage\<close>: the
    extraction stage and the safety relations stage, two instances of the locale \<open>report_stage\<close>.
    \<open>Cli\<close>: the selection of reports, the safety link stage, the printed lines, the order of the
    safety stages and \<open>main\<close>. \<open>Cli_Parser\<close>: the parser as data; each command it lets through has a stage.
    \<open>Safety_Corpus\<close>: the safety sources on the world of files, up to the index that mining scans.
    \<open>Mine_Files\<close>: mining over the files the normalize and link stages wrote.

  Fuel. No definition can run out of it: greedy repetition in \<open>PyRegex\<close> iterates at most as often
  as there are characters left, and an iteration that consumes nothing is not repeated; the
  shortest decimal of a double is searched among at most 17 digits, which always suffice, and
  exponents of ten down to 400, below the smallest double.

  What is not modelled, and stands as an argument: the language model (\<open>ask\<close>), \<open>json.loads\<close>
  (\<open>loads\<close>), \<open>str.lower\<close> and \<open>str.casefold\<close> beyond ASCII, the HTTP request (\<open>endpoint\<close>), the
  spaCy pipeline and its documents, the sentence splitter, the fuzzy scorer of rapidfuzz, SHA-256, git,
  the texts of PDF pages, the catalog of units, what \<open>\\w\<close> matches beyond ASCII, and the rows the graph answers
  with. The clock is an argument (\<open>run_ts\<close>). Left out are argparse's own reading of the arguments, logging,
  the texts of most exceptions and the fetch script of the safety sources. Files hold decoded text; directories in the
  place of files and bytes that are not UTF-8 are outside the model. The loader in Go, the agent and
  the web interface are other programs.
\<close>

end
